theory Spec2Isabelle
  imports Main "HOL-Library.Word" "HOL-Library.Sublist"
begin

section \<open>Strings\<close>

text \<open>
  A JavaScript string is a sequence of UTF-16 code units; \<open>.length\<close> counts code units and a
  regular expression without the \<open>u\<close> flag matches code unit by code unit.  String literals
  of the source are ASCII and are written \<open>str ''...''\<close>.
\<close>

type_synonym cu = "16 word"
type_synonym jsstring = "cu list"

definition cu_of :: "char \<Rightarrow> cu" where
  "cu_of c = of_nat (of_char c)"

definition str :: "string \<Rightarrow> jsstring" where
  "str s = map cu_of s"

definition isDigit :: "cu \<Rightarrow> bool" where
  "isDigit c = (cu_of CHR ''0'' \<le> c \<and> c \<le> cu_of CHR ''9'')"

text \<open>
  ECMAScript WhiteSpace and LineTerminator code points: what \<open>\s\<close> matches and what
  \<open>String.prototype.trim\<close> strips.
\<close>

definition isWhiteSpace :: "cu \<Rightarrow> bool" where
  "isWhiteSpace c =
     (c = 0x0009 \<or> c = 0x000A \<or> c = 0x000B \<or> c = 0x000C \<or> c = 0x000D \<or> c = 0x0020 \<or>
      c = 0x00A0 \<or> c = 0x1680 \<or> (0x2000 \<le> c \<and> c \<le> 0x200A) \<or> c = 0x2028 \<or> c = 0x2029 \<or>
      c = 0x202F \<or> c = 0x205F \<or> c = 0x3000 \<or> c = 0xFEFF)"

definition trim :: "jsstring \<Rightarrow> jsstring" where
  "trim s = rev (dropWhile isWhiteSpace (rev (dropWhile isWhiteSpace s)))"

subsection \<open>The regular expressions of the source\<close>

text \<open>
  The three patterns of the source are \<open>/\D/g\<close>, \<open>/^[a-zA-Z\s.]+$/\<close> and
  \<open>/^[6-9]\d{9}$/\<close>: character classes, each taken once, one or more times, or an exact
  number of times, between \<open>^\<close> and \<open>$\<close>.  A pattern is the list of its quantified classes and
  is matched by backtracking over the input.
\<close>

datatype cclass = Range cu cu | Lit cu | Esc_d | Esc_D | Esc_s

fun inClass1 :: "cclass \<Rightarrow> cu \<Rightarrow> bool" where
  "inClass1 (Range lo hi) c = (lo \<le> c \<and> c \<le> hi)"
| "inClass1 (Lit x) c = (c = x)"
| "inClass1 Esc_d c = isDigit c"
| "inClass1 Esc_D c = (\<not> isDigit c)"
| "inClass1 Esc_s c = isWhiteSpace c"

definition inClass :: "cclass list \<Rightarrow> cu \<Rightarrow> bool" where
  "inClass cs c = list_ex (\<lambda>k. inClass1 k c) cs"

datatype piece = One "cclass list" | OneOrMore "cclass list" | Exactly nat "cclass list"

text \<open>\<open>matchHere ps s\<close>: the pieces \<open>ps\<close> match all of \<open>s\<close> (the pattern is anchored at both ends).\<close>

fun matchHere :: "piece list \<Rightarrow> jsstring \<Rightarrow> bool" where
  "matchHere [] s = (s = [])"
| "matchHere (One cs # ps) [] = False"
| "matchHere (One cs # ps) (c # t) = (inClass cs c \<and> matchHere ps t)"
| "matchHere (Exactly 0 cs # ps) s = matchHere ps s"
| "matchHere (Exactly (Suc n) cs # ps) [] = False"
| "matchHere (Exactly (Suc n) cs # ps) (c # t) = (inClass cs c \<and> matchHere (Exactly n cs # ps) t)"
| "matchHere (OneOrMore cs # ps) [] = False"
| "matchHere (OneOrMore cs # ps) (c # t) =
     (inClass cs c \<and> (matchHere (OneOrMore cs # ps) t \<or> matchHere ps t))"

definition regex_test :: "piece list \<Rightarrow> jsstring \<Rightarrow> bool" where
  "regex_test re s = matchHere re s"

text \<open>\<open>s.replace(/C/g, '')\<close> for a one-character class \<open>C\<close>: every matching code unit is dropped.\<close>

definition replace_all_empty :: "cclass list \<Rightarrow> jsstring \<Rightarrow> jsstring" where
  "replace_all_empty cs s = filter (\<lambda>c. \<not> inClass cs c) s"

definition substring :: "jsstring \<Rightarrow> nat \<Rightarrow> nat \<Rightarrow> jsstring" where
  "substring s a b = take (max a b - min a b) (drop (min a b) s)"

section \<open>Form validation\<close>

record AppointmentFormData =
  patientName :: jsstring
  phoneNumber :: jsstring
  serviceType :: jsstring
  preferredDate :: jsstring
  preferredTime :: jsstring
  message :: jsstring

text \<open>\<open>errors\<close> is a JavaScript object: its keys are kept in insertion order.\<close>

record ValidationResult =
  isValid :: bool
  errors :: "(string \<times> jsstring) list"

definition PHONE_REGEX :: "piece list" where
  "PHONE_REGEX = [One [Range (cu_of CHR ''6'') (cu_of CHR ''9'')], Exactly 9 [Esc_d]]"

definition NAME_REGEX :: "piece list" where
  "NAME_REGEX =
     [OneOrMore [Range (cu_of CHR ''a'') (cu_of CHR ''z''),
                 Range (cu_of CHR ''A'') (cu_of CHR ''Z''), Esc_s, Lit (cu_of CHR ''.'')]]"

definition validateName :: "jsstring \<Rightarrow> jsstring" where
  "validateName name =
     (let trimmedName = trim name in
      if length trimmedName = 0 then str ''Name is required''
      else if length trimmedName < 2 then str ''Name must be at least 2 characters''
      else if \<not> regex_test NAME_REGEX trimmedName
        then str ''Name can only contain letters, spaces, and periods''
      else [])"

definition validatePhone :: "jsstring \<Rightarrow> jsstring" where
  "validatePhone phone =
     (let cleanPhone = replace_all_empty [Esc_D] phone in
      if length cleanPhone = 0 then str ''Phone number is required''
      else if \<not> regex_test PHONE_REGEX cleanPhone
        then str ''Please enter a valid 10-digit Indian mobile number''
      else [])"

subsection \<open>Dates\<close>

text \<open>
  A \<open>Date\<close> holds a time value, milliseconds since the epoch in UTC, or \<open>NaN\<close> (\<open>None\<close>).
  What the code reads from its surroundings is a parameter: the clock, the local time zone
  (ECMAScript's \<open>LocalTZA(t, isUTC)\<close>, the offset of local time from UTC in milliseconds), and
  the engine's answers where ECMAScript leaves them to the implementation.
\<close>

record env =
  now :: int
  localTZA :: "int \<Rightarrow> bool \<Rightarrow> int"
  parseOther :: "jsstring \<Rightarrow> int option"
  toLocaleDateString_enIN :: "int option \<Rightarrow> string"
  toISOString :: "int \<Rightarrow> string"
  protoText :: "jsstring \<Rightarrow> string option"

definition msPerDay :: int where
  "msPerDay = 86400000"

definition Day :: "int \<Rightarrow> int" where
  "Day t = t div msPerDay"

definition WeekDay :: "int \<Rightarrow> int" where
  "WeekDay t = (Day t + 4) mod 7"

definition LocalTime :: "env \<Rightarrow> int \<Rightarrow> int" where
  "LocalTime e t = t + localTZA e t True"

definition UTC :: "env \<Rightarrow> int \<Rightarrow> int" where
  "UTC e t = t - localTZA e t False"

definition DaysInYear :: "int \<Rightarrow> int" where
  "DaysInYear y =
     (if y mod 400 = 0 then 366 else if y mod 100 = 0 then 365
      else if y mod 4 = 0 then 366 else 365)"

definition DayFromYear :: "int \<Rightarrow> int" where
  "DayFromYear y =
     365 * (y - 1970) + (y - 1969) div 4 - (y - 1901) div 100 + (y - 1601) div 400"

definition daysInMonth :: "int \<Rightarrow> int \<Rightarrow> int" where
  "daysInMonth y m =
     (if m = 2 then DaysInYear y - 337
      else if m = 4 \<or> m = 6 \<or> m = 9 \<or> m = 11 then 30 else 31)"

definition MakeDay :: "int \<Rightarrow> int \<Rightarrow> int \<Rightarrow> int" where
  "MakeDay y m d =
     DayFromYear y + sum_list (map (daysInMonth y) [1 .. m - 1]) + d - 1"

fun digitsValue :: "int \<Rightarrow> jsstring \<Rightarrow> int" where
  "digitsValue acc [] = acc"
| "digitsValue acc (c # cs) = digitsValue (10 * acc + (uint c - 48)) cs"

text \<open>
  The date-only form \<open>YYYY-MM-DD\<close> of the ECMAScript date-time string format, for a day
  that exists in the calendar: the value of an \<open><input type="date">\<close>.  The result is
  the day number; \<open>Date.parse\<close> reads this form as midnight UTC of that day.
\<close>

definition parseISODate :: "jsstring \<Rightarrow> int option" where
  "parseISODate s =
     (if length s = 10 \<and> list_all isDigit (take 4 s) \<and> s ! 4 = cu_of CHR ''-'' \<and>
         list_all isDigit (take 2 (drop 5 s)) \<and> s ! 7 = cu_of CHR ''-'' \<and>
         list_all isDigit (drop 8 s)
      then (let y = digitsValue 0 (take 4 s);
                m = digitsValue 0 (take 2 (drop 5 s));
                d = digitsValue 0 (drop 8 s)
            in if 1 \<le> m \<and> m \<le> 12 \<and> 1 \<le> d \<and> d \<le> daysInMonth y m
               then Some (MakeDay y m d) else None)
      else None)"

text \<open>\<open>new Date(s)\<close>: every other string is left to the engine (\<open>parseOther\<close>).\<close>

definition Date_parse :: "env \<Rightarrow> jsstring \<Rightarrow> int option" where
  "Date_parse e s =
     (case parseISODate s of Some day \<Rightarrow> Some (day * msPerDay) | None \<Rightarrow> parseOther e s)"

text \<open>\<open>d.setHours(0, 0, 0, 0)\<close> on a valid date: local midnight of its local day.\<close>

definition setHours0 :: "env \<Rightarrow> int \<Rightarrow> int" where
  "setHours0 e t = UTC e (Day (LocalTime e t) * msPerDay)"

definition getDay :: "env \<Rightarrow> int option \<Rightarrow> int option" where
  "getDay e d = (case d of None \<Rightarrow> None | Some t \<Rightarrow> Some (WeekDay (LocalTime e t)))"

text \<open>\<open>a < b\<close> on dates compares the time values; a comparison with \<open>NaN\<close> is false.\<close>

definition date_less :: "int option \<Rightarrow> int option \<Rightarrow> bool" where
  "date_less a b = (case (a, b) of (Some x, Some y) \<Rightarrow> x < y | _ \<Rightarrow> False)"

definition validateDate :: "env \<Rightarrow> jsstring \<Rightarrow> jsstring" where
  "validateDate e dateString =
     (if dateString = [] then []
      else
        let selectedDate = Date_parse e dateString;
            today = Some (setHours0 e (now e))
        in if date_less selectedDate today then str ''Please select a future date''
           else
             let dayOfWeek = getDay e selectedDate
             in if dayOfWeek = Some 0
                then str ''Sundays are by appointment only - please call to schedule''
                else [])"

text \<open>
  \<open>validateForm\<close> stores the three messages under their field names and then deletes the
  empty ones.
\<close>

definition validateForm :: "env \<Rightarrow> AppointmentFormData \<Rightarrow> ValidationResult" where
  "validateForm e formData =
     (let errors0 = [(''patientName'', validateName (patientName formData)),
                     (''phoneNumber'', validatePhone (phoneNumber formData)),
                     (''preferredDate'', validateDate e (preferredDate formData))];
          errors1 = filter (\<lambda>(key, msg). msg \<noteq> []) errors0
      in \<lparr>isValid = (length errors1 = 0), errors = errors1\<rparr>)"

section \<open>Percent-encoding\<close>

definition isLeadSurrogate :: "cu \<Rightarrow> bool" where
  "isLeadSurrogate c = (0xD800 \<le> c \<and> c \<le> 0xDBFF)"

definition isTrailSurrogate :: "cu \<Rightarrow> bool" where
  "isTrailSurrogate c = (0xDC00 \<le> c \<and> c \<le> 0xDFFF)"

definition isLetter :: "cu \<Rightarrow> bool" where
  "isLetter c = ((cu_of CHR ''a'' \<le> c \<and> c \<le> cu_of CHR ''z'') \<or>
                 (cu_of CHR ''A'' \<le> c \<and> c \<le> cu_of CHR ''Z''))"

text \<open>The characters \<open>encodeURIComponent\<close> leaves as they are.\<close>

definition uriUnescaped :: "cu \<Rightarrow> bool" where
  "uriUnescaped c = (isLetter c \<or> isDigit c \<or> List.member (str ''-_.!~*'()'') c)"

definition utf8 :: "nat \<Rightarrow> nat list" where
  "utf8 n =
     (if n < 0x80 then [n]
      else if n < 0x800 then [0xC0 + n div 64, 0x80 + n mod 64]
      else if n < 0x10000 then [0xE0 + n div 4096, 0x80 + (n div 64) mod 64, 0x80 + n mod 64]
      else [0xF0 + n div 262144, 0x80 + (n div 4096) mod 64, 0x80 + (n div 64) mod 64,
            0x80 + n mod 64])"

definition hexDigit :: "nat \<Rightarrow> cu" where
  "hexDigit d = str ''0123456789ABCDEF'' ! d"

definition percent :: "nat \<Rightarrow> jsstring" where
  "percent b = [cu_of CHR ''%'', hexDigit (b div 16), hexDigit (b mod 16)]"

definition codePoint :: "cu \<Rightarrow> cu \<Rightarrow> nat" where
  "codePoint lead trail = 0x10000 + (unat lead - 0xD800) * 0x400 + (unat trail - 0xDC00)"

datatype exn = FormNotFound | URIError

text \<open>\<open>encodeURIComponent\<close> throws a \<open>URIError\<close> (\<open>None\<close>) on a surrogate without its partner.\<close>

fun encodeURIComponent :: "jsstring \<Rightarrow> jsstring option" where
  "encodeURIComponent [] = Some []"
| "encodeURIComponent (c # cs) =
     (if uriUnescaped c then map_option ((#) c) (encodeURIComponent cs)
      else if isTrailSurrogate c then None
      else if isLeadSurrogate c then
        (case cs of
           [] \<Rightarrow> None
         | d # ds \<Rightarrow>
             if isTrailSurrogate d
             then map_option ((@) (concat (map percent (utf8 (codePoint c d)))))
                    (encodeURIComponent ds)
             else None)
      else map_option ((@) (concat (map percent (utf8 (unat c))))) (encodeURIComponent cs))"

text \<open>
  A \<open>FormData\<close> entry holds a scalar value string: the value of the control with every
  surrogate that has no partner replaced by U+FFFD.
\<close>

fun toUSV :: "jsstring \<Rightarrow> jsstring" where
  "toUSV [] = []"
| "toUSV (c # cs) =
     (if isLeadSurrogate c then
        (case cs of
           [] \<Rightarrow> [0xFFFD]
         | d # ds \<Rightarrow> if isTrailSurrogate d then c # d # toUSV ds else 0xFFFD # toUSV cs)
      else if isTrailSurrogate c then 0xFFFD # toUSV cs
      else c # toUSV cs)"

section \<open>The document\<close>

text \<open>
  The elements inside \<open><body>\<close> in document order, each with its nesting depth: the parent
  of an element is the nearest earlier element of smaller depth, and \<open><body>\<close> itself when
  there is none; its descendants are the elements that follow it for as long as their depth
  is larger, and the descendants of \<open><body>\<close> are all of them.  A reference to an element is
  its position in the list; no element of the page is created or removed by the code below,
  except the contact dialog, which is kept apart in \<open>overlays\<close> (none of its elements has a
  class).

  \<open>focusable\<close> says whether the element is a focusable area of the page (a control that is
  rendered and neither disabled nor inert): the page decides it, and \<open>focus()\<close> does nothing
  on an element that is not one.
\<close>

record element =
  depth :: nat
  elemId :: string
  classList :: "string list"
  textContent :: jsstring
  attributes :: "string \<Rightarrow> string option"
  style :: "string \<Rightarrow> string"
  scrollHeight :: nat
  formControl :: bool
  ctlName :: string
  inputValue :: jsstring
  defaultValue :: jsstring
  focusable :: bool

record document =
  elements :: "element list"
  activeElement :: "nat option"
  overlays :: "(jsstring \<times> jsstring) list"
  innerWidth :: int
  innerHeight :: int
  scrollY :: int
  bodyOffsetHeight :: int

fun findIndex :: "('a \<Rightarrow> bool) \<Rightarrow> 'a list \<Rightarrow> nat option" where
  "findIndex P [] = None"
| "findIndex P (x # xs) = (if P x then Some 0 else map_option Suc (findIndex P xs))"

definition getElementById :: "document \<Rightarrow> string \<Rightarrow> nat option" where
  "getElementById d i = (if i = [] then None else findIndex (\<lambda>x. elemId x = i) (elements d))"

definition hasClass :: "element \<Rightarrow> string \<Rightarrow> bool" where
  "hasClass x c = List.member (classList x) c"

definition querySelectorAll_class :: "document \<Rightarrow> string \<Rightarrow> nat list" where
  "querySelectorAll_class d c =
     filter (\<lambda>k. hasClass (elements d ! k) c) [0 ..< length (elements d)]"

definition descendants :: "document \<Rightarrow> nat \<Rightarrow> nat list" where
  "descendants d i =
     takeWhile (\<lambda>j. depth (elements d ! i) < depth (elements d ! j))
       [Suc i ..< length (elements d)]"

definition contains :: "document \<Rightarrow> nat \<Rightarrow> nat \<Rightarrow> bool" where
  "contains d i j = (i = j \<or> List.member (descendants d i) j)"

datatype node = Body | Node nat

definition parentElement :: "document \<Rightarrow> nat \<Rightarrow> node" where
  "parentElement d j =
     (case filter (\<lambda>i. depth (elements d ! i) < depth (elements d ! j)) (rev [0 ..< j]) of
        [] \<Rightarrow> Body
      | i # _ \<Rightarrow> Node i)"

fun descendantsOf :: "document \<Rightarrow> node \<Rightarrow> nat list" where
  "descendantsOf d Body = [0 ..< length (elements d)]"
| "descendantsOf d (Node i) = descendants d i"

text \<open>\<open>x.querySelector('.c')\<close>: the first descendant of \<open>x\<close> with class \<open>c\<close>.\<close>

definition querySelector_class_in :: "document \<Rightarrow> node \<Rightarrow> string \<Rightarrow> nat option" where
  "querySelector_class_in d x c =
     (case filter (\<lambda>k. hasClass (elements d ! k) c) (descendantsOf d x) of
        [] \<Rightarrow> None
      | k # _ \<Rightarrow> Some k)"

definition updateElement :: "nat \<Rightarrow> (element \<Rightarrow> element) \<Rightarrow> document \<Rightarrow> document" where
  "updateElement k f d = d\<lparr>elements := (elements d)[k := f (elements d ! k)]\<rparr>"

definition setTextContent :: "nat \<Rightarrow> jsstring \<Rightarrow> document \<Rightarrow> document" where
  "setTextContent k v = updateElement k (\<lambda>x. x\<lparr>textContent := v\<rparr>)"

definition addClass :: "nat \<Rightarrow> string \<Rightarrow> document \<Rightarrow> document" where
  "addClass k c =
     updateElement k (\<lambda>x. if hasClass x c then x else x\<lparr>classList := classList x @ [c]\<rparr>)"

definition removeClass :: "nat \<Rightarrow> string \<Rightarrow> document \<Rightarrow> document" where
  "removeClass k c = updateElement k (\<lambda>x. x\<lparr>classList := filter (\<lambda>y. y \<noteq> c) (classList x)\<rparr>)"

definition toggleClass :: "nat \<Rightarrow> string \<Rightarrow> document \<Rightarrow> document" where
  "toggleClass k c d = (if hasClass (elements d ! k) c then removeClass k c d else addClass k c d)"

definition setStyle :: "nat \<Rightarrow> string \<Rightarrow> string \<Rightarrow> document \<Rightarrow> document" where
  "setStyle k prop v = updateElement k (\<lambda>x. x\<lparr>style := (style x)(prop := v)\<rparr>)"

definition setAttribute :: "nat \<Rightarrow> string \<Rightarrow> string \<Rightarrow> document \<Rightarrow> document" where
  "setAttribute k a v = updateElement k (\<lambda>x. x\<lparr>attributes := (attributes x)(a \<mapsto> v)\<rparr>)"

definition getAttribute :: "document \<Rightarrow> nat \<Rightarrow> string \<Rightarrow> string option" where
  "getAttribute d k a = attributes (elements d ! k) a"

definition setValue :: "nat \<Rightarrow> jsstring \<Rightarrow> document \<Rightarrow> document" where
  "setValue k v = updateElement k (\<lambda>x. x\<lparr>inputValue := v\<rparr>)"

definition focus :: "nat \<Rightarrow> document \<Rightarrow> document" where
  "focus k d = (if focusable (elements d ! k) then d\<lparr>activeElement := Some k\<rparr> else d)"

section \<open>The controllers\<close>

text \<open>
  The state of the application: the document, the fields of the controller objects, the
  listeners they have registered and the timers they have started.  A handler is named by
  the method the listener calls.
\<close>

datatype target = Window | Document | Elem nat

datatype handler =
    HandleSubmit | ValidateField string | FormatPhoneInput | ToastHide
  | ToggleFAQ | ToggleMenu | CloseMenu | DocumentClick | HandleScroll | HandleResize

record ToastManager =
  toastElement :: "nat option"
  messageElement :: "nat option"
  closeButton :: "nat option"

datatype ToastType = T_success | T_error | T_info

record ToastOptions =
  toast_message :: jsstring
  toast_type :: ToastType
  toast_duration :: "nat option"

record app =
  doc :: document
  listeners :: "(target \<times> string \<times> handler) list"
  timers :: "(handler \<times> nat) list"
  defaultPrevented :: bool
  toastInstance :: "ToastManager option"
  form :: "nat option"
  faqQuestions :: "nat list"
  navToggle :: "nat option"
  navMenu :: "nat option"
  mobileCTA :: "nat option"
  lastScrollY :: int

definition addEventListener :: "target \<Rightarrow> string \<Rightarrow> handler \<Rightarrow> app \<Rightarrow> app" where
  "addEventListener t ty h a = a\<lparr>listeners := listeners a @ [(t, ty, h)]\<rparr>"

subsection \<open>Toast notifications\<close>

definition ToastManager_new :: "app \<Rightarrow> ToastManager \<times> app" where
  "ToastManager_new a =
     (let tm = \<lparr>toastElement = getElementById (doc a) ''toast'',
                messageElement = getElementById (doc a) ''toastMessage'',
                closeButton = getElementById (doc a) ''toastClose''\<rparr>
      in case closeButton tm of
           None \<Rightarrow> (tm, a)
         | Some b \<Rightarrow> (tm, addEventListener (Elem b) ''click'' ToastHide a))"

definition ToastManager_getInstance :: "app \<Rightarrow> ToastManager \<times> app" where
  "ToastManager_getInstance a =
     (case toastInstance a of
        Some tm \<Rightarrow> (tm, a)
      | None \<Rightarrow> (let (tm, a') = ToastManager_new a in (tm, a'\<lparr>toastInstance := Some tm\<rparr>)))"

definition ToastManager_show :: "ToastManager \<Rightarrow> ToastOptions \<Rightarrow> app \<Rightarrow> app" where
  "ToastManager_show tm options a =
     (case toastElement tm of
        None \<Rightarrow> a
      | Some t \<Rightarrow>
          (case messageElement tm of
             None \<Rightarrow> a
           | Some m \<Rightarrow>
               let d1 = setTextContent m (toast_message options) (doc a);
                   d2 = setStyle t ''background''
                          (if toast_type options = T_error then ''var(--color-error)''
                           else ''var(--color-success)'') d1;
                   d3 = addClass t ''show'' d2;
                   duration = (case toast_duration options of
                                 None \<Rightarrow> 5000
                               | Some n \<Rightarrow> if n = 0 then 5000 else n)
               in a\<lparr>doc := d3, timers := timers a @ [(ToastHide, duration)]\<rparr>))"

definition ToastManager_hide :: "ToastManager \<Rightarrow> app \<Rightarrow> app" where
  "ToastManager_hide tm a =
     (case toastElement tm of
        None \<Rightarrow> a
      | Some t \<Rightarrow> a\<lparr>doc := removeClass t ''show'' (doc a)\<rparr>)"

subsection \<open>The appointment form\<close>

text \<open>
  \<open>new FormData(form).get(name)\<close>: the value of the first control among the descendants of
  the form that carries this name, or \<open>null\<close>.
\<close>

definition formControls :: "document \<Rightarrow> nat \<Rightarrow> nat list" where
  "formControls d f = filter (\<lambda>k. formControl (elements d ! k)) (descendants d f)"

definition FormData_get :: "document \<Rightarrow> nat \<Rightarrow> string \<Rightarrow> jsstring option" where
  "FormData_get d f name =
     (case filter (\<lambda>k. ctlName (elements d ! k) = name) (formControls d f) of
        [] \<Rightarrow> None
      | k # _ \<Rightarrow> Some (toUSV (inputValue (elements d ! k))))"

definition orEmpty :: "jsstring option \<Rightarrow> jsstring" where
  "orEmpty v = (case v of None \<Rightarrow> [] | Some x \<Rightarrow> x)"

definition getFormData :: "app \<Rightarrow> exn + AppointmentFormData" where
  "getFormData a =
     (case form a of
        None \<Rightarrow> Inl FormNotFound
      | Some f \<Rightarrow>
          Inr \<lparr>patientName = orEmpty (FormData_get (doc a) f ''patientName''),
               phoneNumber = orEmpty (FormData_get (doc a) f ''phoneNumber''),
               serviceType = orEmpty (FormData_get (doc a) f ''serviceType''),
               preferredDate = orEmpty (FormData_get (doc a) f ''preferredDate''),
               preferredTime = orEmpty (FormData_get (doc a) f ''preferredTime''),
               message = orEmpty (FormData_get (doc a) f ''message'')\<rparr>)"

text \<open>\<open>form.reset()\<close>: every control of the form goes back to its default value.\<close>

definition form_reset :: "nat \<Rightarrow> document \<Rightarrow> document" where
  "form_reset f d =
     fold (\<lambda>k. updateElement k (\<lambda>x. x\<lparr>inputValue := defaultValue x\<rparr>)) (formControls d f) d"

definition toLowerCase :: "string \<Rightarrow> string" where
  "toLowerCase s =
     map (\<lambda>c. case map_of (zip ''ABCDEFGHIJKLMNOPQRSTUVWXYZ'' ''abcdefghijklmnopqrstuvwxyz'') c of
                None \<Rightarrow> c
              | Some l \<Rightarrow> l) s"

text \<open>
  The id of the error element of a field: \<open>field.replace(/([A-Z])/g, '$1')\<close> puts every
  capital letter back in its place, \<open>toLowerCase\<close> follows, and \<open>Error\<close> is appended.
\<close>

definition errorElementId :: "string \<Rightarrow> string" where
  "errorElementId field = toLowerCase field @ ''Error''"

definition clearFormErrors :: "document \<Rightarrow> document" where
  "clearFormErrors d =
     (let d1 = fold (\<lambda>k. setTextContent k []) (querySelectorAll_class d ''error-message'') d
      in fold (\<lambda>k. removeClass k ''error'') (querySelectorAll_class d1 ''form-input'') d1)"

definition displayError1 :: "string \<times> jsstring \<Rightarrow> document \<Rightarrow> document" where
  "displayError1 fm d =
     (let errorElement = getElementById d (errorElementId (fst fm));
          inputElement = getElementById d (fst fm);
          d1 = (case errorElement of None \<Rightarrow> d | Some k \<Rightarrow> setTextContent k (snd fm) d)
      in case inputElement of None \<Rightarrow> d1 | Some k \<Rightarrow> addClass k ''error'' d1)"

definition displayErrors :: "(string \<times> jsstring) list \<Rightarrow> document \<Rightarrow> document" where
  "displayErrors errs d = fold displayError1 errs d"

definition serviceNames :: "(string \<times> string) list" where
  "serviceNames =
     [(''consultation'', ''General Consultation''),
      (''kansya-thali'', ''Kansya Thali Massage''),
      (''panchkarma'', ''Pain Management & Panchkarma''),
      (''hair-skin'', ''Hair and Skin Care''),
      (''viddhkarma'', ''Viddhkarma (Needle Therapy)''),
      (''cupping'', ''Cupping Therapy''),
      (''weight-management'', ''Weight Management''),
      (''swarnaprash'', ''Swarnaprash for Kids'')]"

definition timeSlots :: "(string \<times> string) list" where
  "timeSlots =
     [(''morning'', ''Morning (9:30 AM - 1:00 PM)''),
      (''evening'', ''Evening (4:30 PM - 7:30 PM)'')]"

text \<open>
  \<open>`${table[key] || key}`\<close>: the label of an own key; for a key that \<open>Object.prototype\<close>
  defines, the text the engine prints for that inherited value (\<open>protoText\<close>); otherwise the
  key itself.
\<close>

definition labelOr :: "env \<Rightarrow> (string \<times> string) list \<Rightarrow> jsstring \<Rightarrow> jsstring" where
  "labelOr e table key =
     (case find (\<lambda>kv. str (fst kv) = key) table of
        Some kv \<Rightarrow> str (snd kv)
      | None \<Rightarrow> (case protoText e key of Some txt \<Rightarrow> str txt | None \<Rightarrow> key))"

definition NL :: jsstring where
  "NL = [0x000A]"

definition emailText :: "env \<Rightarrow> AppointmentFormData \<Rightarrow> jsstring" where
  "emailText e formData =
     str ''Appointment Request from AAYURCURE Website'' @ NL @ NL @
     str ''Patient Name: '' @ patientName formData @ NL @
     str ''Phone Number: '' @ phoneNumber formData @ NL @
     (if serviceType formData = [] then []
      else str ''Service Required: '' @ labelOr e serviceNames (serviceType formData) @ NL) @
     (if preferredDate formData = [] then []
      else str ''Preferred Date: '' @
           str (toLocaleDateString_enIN e (Date_parse e (preferredDate formData))) @ NL) @
     (if preferredTime formData = [] then []
      else str ''Preferred Time: '' @ labelOr e timeSlots (preferredTime formData) @ NL) @
     (if trim (message formData) = [] then []
      else NL @ str ''Additional Information:'' @ NL @ message formData @ NL) @
     NL @ str ''---'' @ NL @ str ''Submitted from: AAYURCURE Website''"

definition generateEmailContent :: "env \<Rightarrow> AppointmentFormData \<Rightarrow> jsstring option" where
  "generateEmailContent e formData = encodeURIComponent (emailText e formData)"

definition whatsAppText :: "AppointmentFormData \<Rightarrow> jsstring" where
  "whatsAppText formData =
     str ''Hello AAYURCURE, I'd like to book an appointment.'' @ NL @ NL @
     str ''Name: '' @ patientName formData @ NL @
     str ''Phone: '' @ phoneNumber formData @ NL @
     (if serviceType formData = [] then []
      else str ''Service: '' @ serviceType formData @ NL) @
     (if preferredDate formData = [] then []
      else str ''Date: '' @ preferredDate formData @ NL) @
     (if preferredTime formData = [] then []
      else str ''Time: '' @ preferredTime formData @ NL)"

definition generateWhatsAppMessage :: "AppointmentFormData \<Rightarrow> jsstring option" where
  "generateWhatsAppMessage formData = encodeURIComponent (whatsAppText formData)"

text \<open>
  \<open>showContactOptions\<close> appends a dialog to the body with one anchor for each link; the
  dialog is recorded as the pair of its two \<open>href\<close>s (WhatsApp, email).
\<close>

definition showContactOptions :: "jsstring \<Rightarrow> jsstring \<Rightarrow> document \<Rightarrow> document" where
  "showContactOptions emailLink whatsappLink d =
     d\<lparr>overlays := overlays d @ [(whatsappLink, emailLink)]\<rparr>"

definition mailtoPrefix :: jsstring where
  "mailtoPrefix = str ''mailto:?subject=Appointment Request - AAYURCURE&body=''"

definition whatsappPrefix :: jsstring where
  "whatsappPrefix = str ''https://wa.me/917359171081?text=''"

definition theToast :: "app \<Rightarrow> ToastManager" where
  "theToast a =
     (case toastInstance a of
        Some tm \<Rightarrow> tm
      | None \<Rightarrow> \<lparr>toastElement = None, messageElement = None, closeButton = None\<rparr>)"

definition handleSubmit :: "env \<Rightarrow> app \<Rightarrow> exn + app" where
  "handleSubmit e a0 =
     (let a = a0\<lparr>defaultPrevented := True\<rparr> in
      case form a of
        None \<Rightarrow> Inr a
      | Some f \<Rightarrow>
          let a1 = a\<lparr>doc := clearFormErrors (doc a)\<rparr> in
          (case getFormData a1 of
             Inl x \<Rightarrow> Inl x
           | Inr formData \<Rightarrow>
               let validation = validateForm e formData in
               if \<not> isValid validation then
                 let d2 = displayErrors (errors validation) (doc a1);
                     firstErrorElement =
                       (case errors validation of
                          [] \<Rightarrow> None
                        | fm # _ \<Rightarrow> getElementById d2 (fst fm));
                     d3 = (case firstErrorElement of None \<Rightarrow> d2 | Some k \<Rightarrow> focus k d2)
                 in Inr (ToastManager_show (theToast a1)
                           \<lparr>toast_message = str ''Please fix the errors below'',
                            toast_type = T_error, toast_duration = None\<rparr>
                           (a1\<lparr>doc := d3\<rparr>))
               else
                 (case generateEmailContent e formData of
                    None \<Rightarrow> Inl URIError
                  | Some emailContent \<Rightarrow>
                      (case generateWhatsAppMessage formData of
                         None \<Rightarrow> Inl URIError
                       | Some whatsappMessage \<Rightarrow>
                           let mailtoLink = mailtoPrefix @ emailContent;
                               whatsappLink = whatsappPrefix @ whatsappMessage;
                               a2 = ToastManager_show (theToast a1)
                                      \<lparr>toast_message = str ''Appointment request prepared! Choose your preferred contact method.'',
                                       toast_type = T_success, toast_duration = None\<rparr> a1;
                               d3 = showContactOptions mailtoLink whatsappLink (doc a2)
                           in Inr (a2\<lparr>doc := form_reset f d3\<rparr>)))))"

definition validateField :: "env \<Rightarrow> string \<Rightarrow> app \<Rightarrow> exn + app" where
  "validateField e fieldName a =
     (case getFormData a of
        Inl x \<Rightarrow> Inl x
      | Inr formData \<Rightarrow>
          let validation = validateForm e formData;
              errorElement = getElementById (doc a) (errorElementId fieldName);
              inputElement = getElementById (doc a) fieldName
          in (case errorElement of
                None \<Rightarrow> Inr a
              | Some ee \<Rightarrow>
                  (case inputElement of
                     None \<Rightarrow> Inr a
                   | Some ie \<Rightarrow>
                       let error = orEmpty (map_of (errors validation) fieldName);
                           d1 = setTextContent ee error (doc a)
                       in if error = [] then Inr (a\<lparr>doc := removeClass ie ''error'' d1\<rparr>)
                          else Inr (a\<lparr>doc := addClass ie ''error'' d1\<rparr>))))"

text \<open>\<open>formatPhoneInput\<close>: the new value of the input the event comes from, then the handler.\<close>

definition formatPhoneValue :: "jsstring \<Rightarrow> jsstring" where
  "formatPhoneValue v =
     (let value = replace_all_empty [Esc_D] v in
      if length value > 10 then substring value 0 10 else value)"

definition formatPhoneInput :: "nat \<Rightarrow> document \<Rightarrow> document" where
  "formatPhoneInput input d = setValue input (formatPhoneValue (inputValue (elements d ! input))) d"

definition addRealTimeValidation :: "app \<Rightarrow> app" where
  "addRealTimeValidation a =
     (let nameInput = getElementById (doc a) ''patientName'';
          phoneInput = getElementById (doc a) ''phoneNumber'';
          dateInput = getElementById (doc a) ''preferredDate'';
          a1 = (case nameInput of
                  None \<Rightarrow> a
                | Some k \<Rightarrow> addEventListener (Elem k) ''blur'' (ValidateField ''patientName'') a);
          a2 = (case phoneInput of
                  None \<Rightarrow> a1
                | Some k \<Rightarrow>
                    addEventListener (Elem k) ''input'' FormatPhoneInput
                      (addEventListener (Elem k) ''blur'' (ValidateField ''phoneNumber'') a1))
      in case dateInput of
           None \<Rightarrow> a2
         | Some k \<Rightarrow> addEventListener (Elem k) ''change'' (ValidateField ''preferredDate'') a2)"

definition initializeForm :: "env \<Rightarrow> app \<Rightarrow> app" where
  "initializeForm e a =
     (case form a of
        None \<Rightarrow> a
      | Some f \<Rightarrow>
          let a1 = addEventListener (Elem f) ''submit'' HandleSubmit a;
              a2 = (case getElementById (doc a1) ''preferredDate'' of
                      None \<Rightarrow> a1
                    | Some k \<Rightarrow>
                        let today = takeWhile (\<lambda>c. c \<noteq> CHR ''T'') (toISOString e (now e))
                        in a1\<lparr>doc := setAttribute k ''min'' today (doc a1)\<rparr>)
          in addRealTimeValidation a2)"

definition AppointmentForm_new :: "env \<Rightarrow> app \<Rightarrow> app" where
  "AppointmentForm_new e a =
     (let a1 = a\<lparr>form := getElementById (doc a) ''appointmentForm''\<rparr>;
          a2 = snd (ToastManager_getInstance a1)
      in initializeForm e a2)"

subsection \<open>The FAQ accordion\<close>

fun decimal :: "nat \<Rightarrow> string" where
  "decimal n =
     (if n < 10 then [''0123456789'' ! n]
      else decimal (n div 10) @ [''0123456789'' ! (n mod 10)])"

text \<open>
  \<open>button.parentElement?.querySelector('.faq-answer')\<close>; an element inside \<open><body>\<close> has a
  parent element.
\<close>

definition faqAnswer :: "document \<Rightarrow> nat \<Rightarrow> nat option" where
  "faqAnswer d button = querySelector_class_in d (parentElement d button) ''faq-answer''"

definition closeOther :: "nat \<Rightarrow> nat \<Rightarrow> document \<Rightarrow> document" where
  "closeOther button otherButton d =
     (if otherButton = button then d
      else
        let d1 = setAttribute otherButton ''aria-expanded'' ''false'' d
        in case faqAnswer d1 otherButton of
             None \<Rightarrow> d1
           | Some otherAnswer \<Rightarrow> setStyle otherAnswer ''maxHeight'' ''0'' d1)"

definition toggleFAQ :: "nat \<Rightarrow> app \<Rightarrow> app" where
  "toggleFAQ button a =
     (let answer = faqAnswer (doc a) button;
          isExpanded = (getAttribute (doc a) button ''aria-expanded'' = Some ''true'')
      in case answer of
           None \<Rightarrow> a
         | Some ans \<Rightarrow>
             let d1 = fold (closeOther button) (faqQuestions a) (doc a)
             in if isExpanded
                then a\<lparr>doc := setStyle ans ''maxHeight'' ''0''
                                (setAttribute button ''aria-expanded'' ''false'' d1)\<rparr>
                else
                  let d2 = setAttribute button ''aria-expanded'' ''true'' d1
                  in a\<lparr>doc := setStyle ans ''maxHeight''
                                  (decimal (scrollHeight (elements d2 ! ans)) @ ''px'') d2\<rparr>)"

definition FAQAccordion_new :: "app \<Rightarrow> app" where
  "FAQAccordion_new a =
     (let a1 = a\<lparr>faqQuestions := querySelectorAll_class (doc a) ''faq-question''\<rparr>
      in fold (\<lambda>question. addEventListener (Elem question) ''click'' ToggleFAQ)
           (faqQuestions a1) a1)"

subsection \<open>Mobile navigation\<close>

definition toggleMenu :: "app \<Rightarrow> app" where
  "toggleMenu a =
     (case navToggle a of
        None \<Rightarrow> a
      | Some t \<Rightarrow>
          (case navMenu a of
             None \<Rightarrow> a
           | Some m \<Rightarrow> a\<lparr>doc := toggleClass t ''active'' (toggleClass m ''active'' (doc a))\<rparr>))"

definition closeMenu :: "app \<Rightarrow> app" where
  "closeMenu a =
     (case navToggle a of
        None \<Rightarrow> a
      | Some t \<Rightarrow>
          (case navMenu a of
             None \<Rightarrow> a
           | Some m \<Rightarrow> a\<lparr>doc := removeClass t ''active'' (removeClass m ''active'' (doc a))\<rparr>))"

definition containsOpt :: "document \<Rightarrow> nat option \<Rightarrow> nat option \<Rightarrow> bool" where
  "containsOpt d x tgt =
     (case x of
        None \<Rightarrow> False
      | Some i \<Rightarrow> (case tgt of None \<Rightarrow> False | Some j \<Rightarrow> contains d i j))"

definition documentClick :: "nat option \<Rightarrow> app \<Rightarrow> app" where
  "documentClick tgt a =
     (if containsOpt (doc a) (navMenu a) tgt then a
      else if containsOpt (doc a) (navToggle a) tgt then a
      else closeMenu a)"

definition initializeMobileNav :: "app \<Rightarrow> app" where
  "initializeMobileNav a =
     (case navToggle a of
        None \<Rightarrow> a
      | Some t \<Rightarrow>
          (case navMenu a of
             None \<Rightarrow> a
           | Some m \<Rightarrow>
               let a1 = addEventListener (Elem t) ''click'' ToggleMenu a;
                   navLinks = filter (\<lambda>k. hasClass (elements (doc a) ! k) ''nav-link'')
                                (descendants (doc a) m);
                   a2 = fold (\<lambda>link. addEventListener (Elem link) ''click'' CloseMenu) navLinks a1
               in addEventListener Document ''click'' DocumentClick a2))"

definition MobileNavigation_new :: "app \<Rightarrow> app" where
  "MobileNavigation_new a =
     initializeMobileNav
       (a\<lparr>navToggle := getElementById (doc a) ''navToggle'',
          navMenu := getElementById (doc a) ''navMenu''\<rparr>)"

subsection \<open>The mobile call-to-action bar\<close>

definition showCTA :: "app \<Rightarrow> app" where
  "showCTA a =
     (case mobileCTA a of
        None \<Rightarrow> a
      | Some c \<Rightarrow>
          if innerWidth (doc a) \<le> 768
          then a\<lparr>doc := setStyle c ''transform'' ''translateY(0)'' (doc a)\<rparr> else a)"

definition hideCTA :: "app \<Rightarrow> app" where
  "hideCTA a =
     (case mobileCTA a of
        None \<Rightarrow> a
      | Some c \<Rightarrow>
          if innerWidth (doc a) \<le> 768
          then a\<lparr>doc := setStyle c ''transform'' ''translateY(100%)'' (doc a)\<rparr> else a)"

definition handleScroll :: "app \<Rightarrow> app" where
  "handleScroll a =
     (let currentScrollY = scrollY (doc a);
          isScrollingDown = (lastScrollY a < currentScrollY);
          isAtBottom = (bodyOffsetHeight (doc a) - 100 \<le> innerHeight (doc a) + currentScrollY);
          a1 = (if innerWidth (doc a) \<le> 768
                then (if isScrollingDown \<and> \<not> isAtBottom then hideCTA a else showCTA a)
                else a)
      in a1\<lparr>lastScrollY := currentScrollY\<rparr>)"

definition handleResize :: "app \<Rightarrow> app" where
  "handleResize a =
     (case mobileCTA a of
        None \<Rightarrow> a
      | Some c \<Rightarrow>
          if 768 < innerWidth (doc a)
          then a\<lparr>doc := setStyle c ''display'' ''none'' (doc a)\<rparr>
          else a\<lparr>doc := setStyle c ''display'' ''grid'' (doc a)\<rparr>)"

definition initializeCTAController :: "app \<Rightarrow> app" where
  "initializeCTAController a =
     (case mobileCTA a of
        None \<Rightarrow> a
      | Some c \<Rightarrow>
          handleResize
            (addEventListener Window ''resize'' HandleResize
               (addEventListener Window ''scroll'' HandleScroll a)))"

definition MobileCTAController_new :: "app \<Rightarrow> app" where
  "MobileCTAController_new a =
     initializeCTAController
       (a\<lparr>mobileCTA := getElementById (doc a) ''mobileCta'', lastScrollY := 0\<rparr>)"

subsection \<open>Start-up and events\<close>

text \<open>
  \<open>setup\<close> builds the controllers in the order of the source; of the objects it creates, the
  four controllers with optional elements and the accordion are the ones modelled here.
\<close>

definition initialApp :: "document \<Rightarrow> app" where
  "initialApp d =
     \<lparr>doc = d, listeners = [], timers = [], defaultPrevented = False, toastInstance = None,
      form = None, faqQuestions = [], navToggle = None, navMenu = None, mobileCTA = None,
      lastScrollY = 0\<rparr>"

definition AayurcureApp_setup :: "env \<Rightarrow> document \<Rightarrow> app" where
  "AayurcureApp_setup e d =
     MobileCTAController_new
       (MobileNavigation_new (FAQAccordion_new (AppointmentForm_new e (initialApp d))))"

text \<open>
  A listener runs with the element it is registered on (\<open>currentTarget\<close>) and the element
  the event comes from (\<open>target\<close>).  \<open>Inl\<close> is an exception that leaves the handler.
\<close>

definition runHandler :: "env \<Rightarrow> handler \<Rightarrow> target \<Rightarrow> nat option \<Rightarrow> app \<Rightarrow> exn + app" where
  "runHandler e h cur tgt a =
     (case h of
        HandleSubmit \<Rightarrow> handleSubmit e a
      | ValidateField fieldName \<Rightarrow> validateField e fieldName a
      | FormatPhoneInput \<Rightarrow>
          (case tgt of None \<Rightarrow> Inr a | Some i \<Rightarrow> Inr (a\<lparr>doc := formatPhoneInput i (doc a)\<rparr>))
      | ToastHide \<Rightarrow> Inr (ToastManager_hide (theToast a) a)
      | ToggleFAQ \<Rightarrow> (case cur of Elem b \<Rightarrow> Inr (toggleFAQ b a) | _ \<Rightarrow> Inr a)
      | ToggleMenu \<Rightarrow> Inr (toggleMenu a)
      | CloseMenu \<Rightarrow> Inr (closeMenu a)
      | DocumentClick \<Rightarrow> Inr (documentClick tgt a)
      | HandleScroll \<Rightarrow> Inr (handleScroll a)
      | HandleResize \<Rightarrow> Inr (handleResize a))"

fun runHandlers :: "env \<Rightarrow> handler list \<Rightarrow> target \<Rightarrow> nat option \<Rightarrow> app \<Rightarrow> exn + app" where
  "runHandlers e [] cur tgt a = Inr a"
| "runHandlers e (h # hs) cur tgt a =
     (case runHandler e h cur tgt a of
        Inl x \<Rightarrow> Inl x
      | Inr a' \<Rightarrow> runHandlers e hs cur tgt a')"

datatype input = Event target string "nat option" | Timer nat

definition listenersFor :: "app \<Rightarrow> target \<Rightarrow> string \<Rightarrow> handler list" where
  "listenersFor a cur ty =
     map (\<lambda>l. snd (snd l)) (filter (\<lambda>l. fst l = cur \<and> fst (snd l) = ty) (listeners a))"

definition step :: "env \<Rightarrow> input \<Rightarrow> app \<Rightarrow> exn + app" where
  "step e i a =
     (case i of
        Event cur ty tgt \<Rightarrow>
          runHandlers e (listenersFor a cur ty) cur tgt (a\<lparr>defaultPrevented := False\<rparr>)
      | Timer n \<Rightarrow>
          if n < length (timers a)
          then runHandler e (fst (timers a ! n)) Window None
                 (a\<lparr>timers := take n (timers a) @ drop (Suc n) (timers a)\<rparr>)
          else Inr a)"

fun run :: "env \<Rightarrow> input list \<Rightarrow> app \<Rightarrow> exn + app" where
  "run e [] a = Inr a"
| "run e (i # is) a = (case step e i a of Inl x \<Rightarrow> Inl x | Inr a' \<Rightarrow> run e is a')"

section \<open>Vocabulary of the properties and sample data\<close>

text \<open>
  The code units the pattern of names admits: the letters \<open>a\<close> to \<open>z\<close> and \<open>A\<close> to \<open>Z\<close>, white
  space (the class \<open>\s\<close>) and the period.
\<close>

definition nameChar :: "cu \<Rightarrow> bool" where
  "nameChar c = (isLetter c \<or> isWhiteSpace c \<or> c = cu_of CHR ''.'')"

text \<open>A string \<open>encodeURIComponent\<close> accepts.\<close>

definition encodable :: "jsstring \<Rightarrow> bool" where
  "encodable s = (encodeURIComponent s \<noteq> None)"

text \<open>An environment with the clock at \<open>t\<close> and local time \<open>off\<close> milliseconds ahead of UTC.\<close>

definition sampleEnv :: "int \<Rightarrow> int \<Rightarrow> env" where
  "sampleEnv t off =
     \<lparr>now = t, localTZA = (\<lambda>_ _. off), parseOther = (\<lambda>_. None),
      toLocaleDateString_enIN = (\<lambda>_. ''Tuesday, 3 November 2026''),
      toISOString = (\<lambda>_. ''2026-11-02T09:30:00.000Z''), protoText = (\<lambda>_. None)\<rparr>"

definition blank :: element where
  "blank =
     \<lparr>depth = 0, elemId = [], classList = [], textContent = [], attributes = (\<lambda>_. None),
      style = (\<lambda>_. []), scrollHeight = 0, formControl = False, ctlName = [],
      inputValue = [], defaultValue = [], focusable = False\<rparr>"

definition pageOf :: "element list \<Rightarrow> document" where
  "pageOf xs =
     \<lparr>elements = xs, activeElement = None, overlays = [], innerWidth = 1024,
      innerHeight = 768, scrollY = 0, bodyOffsetHeight = 3000\<rparr>"

text \<open>
  A page with the appointment form (name, phone and date inputs, each followed by its error
  element) and the toast, the inputs holding the given values.
\<close>

definition formPage :: "jsstring \<Rightarrow> jsstring \<Rightarrow> jsstring \<Rightarrow> document" where
  "formPage name phone date =
     pageOf
       [blank\<lparr>elemId := ''appointmentForm''\<rparr>,
        blank\<lparr>depth := 1, elemId := ''patientName'', classList := [''form-input''],
              formControl := True, ctlName := ''patientName'', inputValue := name,
              focusable := True\<rparr>,
        blank\<lparr>depth := 1, elemId := ''patientnameError'', classList := [''error-message'']\<rparr>,
        blank\<lparr>depth := 1, elemId := ''phoneNumber'', classList := [''form-input''],
              formControl := True, ctlName := ''phoneNumber'', inputValue := phone,
              focusable := True\<rparr>,
        blank\<lparr>depth := 1, elemId := ''phonenumberError'', classList := [''error-message'']\<rparr>,
        blank\<lparr>depth := 1, elemId := ''preferredDate'', classList := [''form-input''],
              formControl := True, ctlName := ''preferredDate'', inputValue := date,
              focusable := True\<rparr>,
        blank\<lparr>depth := 1, elemId := ''preferreddateError'', classList := [''error-message'']\<rparr>,
        blank\<lparr>elemId := ''toast''\<rparr>,
        blank\<lparr>depth := 1, elemId := ''toastMessage''\<rparr>,
        blank\<lparr>depth := 1, elemId := ''toastClose''\<rparr>]"

text \<open>2 November 2026, 09:30 UTC, a Monday, on a clock five and a half hours ahead of UTC.\<close>

definition mondayIST :: env where
  "mondayIST = sampleEnv (20759 * 86400000 + 34200000) 19800000"

text \<open>
  The application on that page on that Monday morning: once with an empty name and the phone
  number \<open>12345\<close>, once with a name, a mobile number and Tuesday's date.
\<close>

definition failingForm :: app where
  "failingForm = AayurcureApp_setup mondayIST (formPage [] (str ''12345'') [])"

text \<open>The same failing form with the name input disabled, so that it cannot take the focus.\<close>

definition disabledNameForm :: app where
  "disabledNameForm =
     AayurcureApp_setup mondayIST
       ((formPage [] (str ''12345'') [])
          \<lparr>elements :=
             (elements (formPage [] (str ''12345'') []))
               [1 := (elements (formPage [] (str ''12345'') []) ! 1)\<lparr>focusable := False\<rparr>]\<rparr>)"

definition failingData :: AppointmentFormData where
  "failingData =
     \<lparr>patientName = [], phoneNumber = str ''12345'', serviceType = [],
      preferredDate = [], preferredTime = [], message = []\<rparr>"

definition passingForm :: app where
  "passingForm =
     AayurcureApp_setup mondayIST
       (formPage (str ''Asha Rao'') (str ''9876543210'') (str ''2026-11-03''))"

definition passingData :: AppointmentFormData where
  "passingData =
     \<lparr>patientName = str ''Asha Rao'', phoneNumber = str ''9876543210'', serviceType = [],
      preferredDate = str ''2026-11-03'', preferredTime = [], message = []\<rparr>"

text \<open>
  The application on a page whose form has a service selector with the default
  \<open>consultation\<close>, the visitor having chosen \<open>cupping\<close>.
\<close>

definition presetPage :: document where
  "presetPage =
     pageOf
       [blank\<lparr>elemId := ''appointmentForm''\<rparr>,
        blank\<lparr>depth := 1, elemId := ''patientName'', classList := [''form-input''],
              formControl := True, ctlName := ''patientName'', inputValue := str ''Asha Rao'',
              focusable := True\<rparr>,
        blank\<lparr>depth := 1, elemId := ''phoneNumber'', classList := [''form-input''],
              formControl := True, ctlName := ''phoneNumber'', inputValue := str ''9876543210'',
              focusable := True\<rparr>,
        blank\<lparr>depth := 1, elemId := ''serviceType'', classList := [''form-input''],
              formControl := True, ctlName := ''serviceType'', inputValue := str ''cupping'',
              defaultValue := str ''consultation'', focusable := True\<rparr>,
        blank\<lparr>elemId := ''toast''\<rparr>,
        blank\<lparr>depth := 1, elemId := ''toastMessage''\<rparr>]"

definition presetForm :: app where
  "presetForm = AayurcureApp_setup mondayIST presetPage"

definition presetData :: AppointmentFormData where
  "presetData =
     \<lparr>patientName = str ''Asha Rao'', phoneNumber = str ''9876543210'',
      serviceType = str ''cupping'', preferredDate = [], preferredTime = [], message = []\<rparr>"

text \<open>The number of questions of the accordion that are expanded.\<close>

definition expandedCount :: "app \<Rightarrow> nat" where
  "expandedCount a =
     length (filter (\<lambda>q. getAttribute (doc a) q ''aria-expanded'' = Some ''true'') (faqQuestions a))"

text \<open>A page with three FAQ items, the first two expanded.\<close>

definition faqPage :: document where
  "faqPage =
     pageOf
       [blank\<lparr>classList := [''faq-item'']\<rparr>,
        blank\<lparr>depth := 1, classList := [''faq-question''],
              attributes := [''aria-expanded'' \<mapsto> ''true'']\<rparr>,
        blank\<lparr>depth := 1, classList := [''faq-answer''], scrollHeight := 120\<rparr>,
        blank\<lparr>classList := [''faq-item'']\<rparr>,
        blank\<lparr>depth := 1, classList := [''faq-question''],
              attributes := [''aria-expanded'' \<mapsto> ''true'']\<rparr>,
        blank\<lparr>depth := 1, classList := [''faq-answer''], scrollHeight := 80\<rparr>,
        blank\<lparr>classList := [''faq-item'']\<rparr>,
        blank\<lparr>depth := 1, classList := [''faq-question''],
              attributes := [''aria-expanded'' \<mapsto> ''false'']\<rparr>,
        blank\<lparr>depth := 1, classList := [''faq-answer''], scrollHeight := 64\<rparr>]"

definition faqApp :: app where
  "faqApp = AayurcureApp_setup mondayIST faqPage"

text \<open>The same page with the answer of the third item missing.\<close>

definition faqPageNoAnswer :: document where
  "faqPageNoAnswer = faqPage\<lparr>elements := butlast (elements faqPage)\<rparr>"

definition faqAppNoAnswer :: app where
  "faqAppNoAnswer = AayurcureApp_setup mondayIST faqPageNoAnswer"

text \<open>An input that is a click on one of the questions of the accordion.\<close>

definition faqClick :: "app \<Rightarrow> input \<Rightarrow> bool" where
  "faqClick a i =
     (case i of
        Event cur ty tgt \<Rightarrow>
          (case cur of Elem q \<Rightarrow> ty = ''click'' \<and> List.member (faqQuestions a) q | _ \<Rightarrow> False)
      | Timer n \<Rightarrow> False)"

text \<open>A page with none of the elements the controllers look up.\<close>

definition barePage :: document where
  "barePage = pageOf [blank\<lparr>elemId := ''hero''\<rparr>, blank\<lparr>depth := 1, classList := [''nav-link'']\<rparr>]"

text \<open>
  Two documents with the same ids and the same accordion questions, position by position.
\<close>

definition sameShape :: "document \<Rightarrow> document \<Rightarrow> bool" where
  "sameShape d d' =
     (map elemId (elements d) = map elemId (elements d') \<and>
      map (\<lambda>x. hasClass x ''faq-question'') (elements d) =
        map (\<lambda>x. hasClass x ''faq-question'') (elements d'))"

text \<open>
  The references the controllers hold are the elements their constructors looked up: the
  elements of those ids, and the elements of class \<open>faq-question\<close>.
\<close>

definition wired :: "app \<Rightarrow> bool" where
  "wired a =
     (toastInstance a =
        Some \<lparr>toastElement = getElementById (doc a) ''toast'',
              messageElement = getElementById (doc a) ''toastMessage'',
              closeButton = getElementById (doc a) ''toastClose''\<rparr> \<and>
      form a = getElementById (doc a) ''appointmentForm'' \<and>
      faqQuestions a = querySelectorAll_class (doc a) ''faq-question'' \<and>
      navToggle a = getElementById (doc a) ''navToggle'' \<and>
      navMenu a = getElementById (doc a) ''navMenu'' \<and>
      mobileCTA a = getElementById (doc a) ''mobileCta'')"

text \<open>A step that changes neither the shape of the document nor a controller's reference.\<close>

definition keepsWiring :: "app \<Rightarrow> app \<Rightarrow> bool" where
  "keepsWiring a a' =
     (sameShape (doc a) (doc a') \<and> toastInstance a' = toastInstance a \<and> form a' = form a \<and>
      faqQuestions a' = faqQuestions a \<and> navToggle a' = navToggle a \<and>
      navMenu a' = navMenu a \<and> mobileCTA a' = mobileCTA a)"

section \<open>Properties of the validators\<close>

lemma matchHere_OneOrMore:
  "matchHere [OneOrMore cs] s \<longleftrightarrow> s \<noteq> [] \<and> list_all (inClass cs) s"
  by (induction s) auto

lemma matchHere_Exactly:
  "matchHere [Exactly n cs] s \<longleftrightarrow> length s = n \<and> list_all (inClass cs) s"
proof (induction n arbitrary: s)
  case 0
  show ?case by auto
next
  case (Suc n)
  show ?case by (cases s) (auto simp: Suc.IH)
qed

lemma inClass_digit [simp]: "inClass [Esc_d] c = isDigit c"
  by (simp add: inClass_def)

lemma inClass_nondigit [simp]: "inClass [Esc_D] c = (\<not> isDigit c)"
  by (simp add: inClass_def)

lemma strip_digits [simp]: "replace_all_empty [Esc_D] s = filter isDigit s"
  by (simp add: replace_all_empty_def)

lemma NAME_REGEX_test:
  "regex_test NAME_REGEX s \<longleftrightarrow> s \<noteq> [] \<and> list_all nameChar s"
proof -
  have "inClass [Range (cu_of CHR ''a'') (cu_of CHR ''z''),
                 Range (cu_of CHR ''A'') (cu_of CHR ''Z''), Esc_s, Lit (cu_of CHR ''.'')] = nameChar"
    by (rule ext) (auto simp: inClass_def nameChar_def isLetter_def)
  then show ?thesis
    by (simp add: regex_test_def NAME_REGEX_def matchHere_OneOrMore)
qed

lemma PHONE_REGEX_test:
  "regex_test PHONE_REGEX s \<longleftrightarrow>
     length s = 10 \<and> list_all isDigit s \<and> cu_of CHR ''6'' \<le> hd s \<and> hd s \<le> cu_of CHR ''9''"
proof (cases s)
  case Nil
  then show ?thesis by (simp add: regex_test_def PHONE_REGEX_def)
next
  case (Cons c t)
  have "cu_of CHR ''0'' \<le> cu_of CHR ''6''"
    by (simp add: cu_of_def)
  then have "cu_of CHR ''6'' \<le> c \<Longrightarrow> c \<le> cu_of CHR ''9'' \<Longrightarrow> isDigit c"
    unfolding isDigit_def by (blast intro: order_trans)
  with Cons show ?thesis
    by (auto simp: regex_test_def PHONE_REGEX_def matchHere_Exactly inClass_def list_all_iff)
qed

lemma str_nonempty [simp]: "str (c # cs) \<noteq> []"
  by (simp add: str_def)

text \<open>
  C1.  Phone validation looks only at the digits of the input, in their order (every other
  code unit is dropped).  It passes exactly when these digits match \<open>^[6-9]\d{9}$\<close>, that
  is, when there are ten of them and the first is 6 to 9.  Every other input fails: with the
  message that a number is required when the input has no digit, and with the message asking
  for a valid 10-digit number otherwise.  So \<open>9876543210\<close> and \<open>(987) 654-3210\<close> pass,
  \<open>+91 98765-43210\<close> (twelve digits), \<open>5876543210\<close> and \<open>12345\<close> are invalid, and \<open>n/a\<close> and
  the empty string lack a number.
\<close>

theorem validatePhone_spec:
  "validatePhone phone =
     (let digits = filter isDigit phone in
      if digits = [] then str ''Phone number is required''
      else if length digits = 10 \<and> cu_of CHR ''6'' \<le> hd digits \<and> hd digits \<le> cu_of CHR ''9''
        then []
      else str ''Please enter a valid 10-digit Indian mobile number'') \<and>
   (validatePhone phone = [] \<longleftrightarrow>
      length (filter isDigit phone) = 10 \<and> cu_of CHR ''6'' \<le> hd (filter isDigit phone) \<and>
      hd (filter isDigit phone) \<le> cu_of CHR ''9'') \<and>
   validatePhone (str ''9876543210'') = [] \<and>
   validatePhone (str ''(987) 654-3210'') = [] \<and>
   validatePhone (str ''+91 98765-43210'') =
     str ''Please enter a valid 10-digit Indian mobile number'' \<and>
   validatePhone (str ''5876543210'') = str ''Please enter a valid 10-digit Indian mobile number'' \<and>
   validatePhone (str ''12345'') = str ''Please enter a valid 10-digit Indian mobile number'' \<and>
   validatePhone (str ''n/a'') = str ''Phone number is required'' \<and>
   validatePhone [] = str ''Phone number is required''"
proof -
  have d: "list_all isDigit (filter isDigit phone)"
    by (simp add: list_all_iff)
  have gen: "validatePhone phone =
     (let digits = filter isDigit phone in
      if digits = [] then str ''Phone number is required''
      else if length digits = 10 \<and> cu_of CHR ''6'' \<le> hd digits \<and> hd digits \<le> cu_of CHR ''9''
        then []
      else str ''Please enter a valid 10-digit Indian mobile number'')"
    using d by (auto simp: Let_def validatePhone_def PHONE_REGEX_test)
  have iff: "validatePhone phone = [] \<longleftrightarrow>
      length (filter isDigit phone) = 10 \<and> cu_of CHR ''6'' \<le> hd (filter isDigit phone) \<and>
      hd (filter isDigit phone) \<le> cu_of CHR ''9''"
    unfolding gen by (auto simp: Let_def)
  have 1: "validatePhone (str ''9876543210'') = []"
    by code_simp
  have 2: "validatePhone (str ''(987) 654-3210'') = []"
    by code_simp
  have 3: "validatePhone (str ''+91 98765-43210'') =
             str ''Please enter a valid 10-digit Indian mobile number''"
    by code_simp
  have 4: "validatePhone (str ''5876543210'') =
             str ''Please enter a valid 10-digit Indian mobile number''"
    by code_simp
  have 5: "validatePhone (str ''12345'') = str ''Please enter a valid 10-digit Indian mobile number''"
    by code_simp
  have 6: "validatePhone (str ''n/a'') = str ''Phone number is required''"
    by code_simp
  have 7: "validatePhone [] = str ''Phone number is required''"
    by code_simp
  from gen iff 1 2 3 4 5 6 7 show ?thesis
    by (intro conjI)
qed

text \<open>
  \<open>trim\<close> takes the white space off both ends: of a string made of white space \<open>l\<close>, a part
  \<open>t\<close> that neither starts nor ends with white space, and white space \<open>r\<close>, it leaves \<open>t\<close>.
  Every string is made like this.
\<close>

lemma trim_parts:
  assumes l: "list_all isWhiteSpace l" and r: "list_all isWhiteSpace r"
    and t: "t = [] \<or> \<not> isWhiteSpace (hd t) \<and> \<not> isWhiteSpace (last t)"
  shows "trim (l @ t @ r) = t"
proof (cases "t = []")
  case True
  have "\<forall>x \<in> set (l @ t @ r). isWhiteSpace x"
    using True l r by (auto simp: list_all_iff)
  then have a: "dropWhile isWhiteSpace (l @ t @ r) = []"
    by (simp only: dropWhile_eq_Nil_conv)
  have "trim (l @ t @ r) = []"
    by (simp only: trim_def a) simp
  with True show ?thesis by simp
next
  case False
  with t have h: "\<not> isWhiteSpace (hd t)" and e: "\<not> isWhiteSpace (last t)" by simp_all
  have 1: "dropWhile isWhiteSpace (l @ t @ r) = t @ r"
    using l h False by (cases t) (simp_all add: list_all_iff dropWhile_append2)
  have "dropWhile isWhiteSpace (rev r @ rev t) = dropWhile isWhiteSpace (rev t)"
    using r by (intro dropWhile_append2) (simp add: list_all_iff)
  also have "\<dots> = rev t"
    using e False by (cases "rev t") (simp_all add: last_rev[symmetric] hd_rev)
  finally have 2: "dropWhile isWhiteSpace (rev (t @ r)) = rev t" by simp
  show ?thesis
    by (simp only: trim_def 1 2 rev_rev_ident)
qed

lemma trim_decomposition:
  "\<exists>l t r. s = l @ t @ r \<and> list_all isWhiteSpace l \<and> list_all isWhiteSpace r \<and>
     (t = [] \<or> \<not> isWhiteSpace (hd t) \<and> \<not> isWhiteSpace (last t))"
proof -
  let ?l = "takeWhile isWhiteSpace s"
  let ?m = "dropWhile isWhiteSpace s"
  let ?r = "rev (takeWhile isWhiteSpace (rev ?m))"
  let ?t = "rev (dropWhile isWhiteSpace (rev ?m))"
  have m: "?m = ?t @ ?r"
    by (metis rev_append rev_rev_ident takeWhile_dropWhile_id)
  have s: "s = ?l @ ?t @ ?r"
    using m by (metis takeWhile_dropWhile_id)
  have l: "list_all isWhiteSpace ?l"
    by (auto simp: list_all_iff dest: set_takeWhileD)
  have r: "list_all isWhiteSpace ?r"
    by (auto simp: list_all_iff dest: set_takeWhileD)
  have t: "?t = [] \<or> \<not> isWhiteSpace (hd ?t) \<and> \<not> isWhiteSpace (last ?t)"
  proof (cases "?t = []")
    case True
    then show ?thesis by simp
  next
    case False
    then have ne: "dropWhile isWhiteSpace (rev ?m) \<noteq> []" by simp
    then have la: "\<not> isWhiteSpace (last ?t)"
      by (simp add: last_rev hd_dropWhile)
    have mne: "?m \<noteq> []"
    proof
      assume e: "?m = []"
      have "dropWhile isWhiteSpace (rev ?m) = []"
        unfolding e by simp
      with ne show False by simp
    qed
    have "hd ?t = hd ?m"
      using m False by (metis hd_append2)
    with mne have "\<not> isWhiteSpace (hd ?t)"
      by (simp add: hd_dropWhile)
    with la show ?thesis by simp
  qed
  from s l r t show ?thesis by blast
qed

text \<open>
  C5, as the code has it.  A name is white space, a part \<open>t\<close> that neither starts nor ends
  with white space, and white space again; the validation trims it to \<open>t\<close>.  It fails exactly
  when \<open>t\<close> is empty, or shorter than two code units, or holds a code unit that \<open>nameChar\<close>
  excludes: one that is not a letter \<open>a\<close> to \<open>z\<close> or \<open>A\<close> to \<open>Z\<close>, nor white space (what \<open>\s\<close>
  matches: the space, the tab, the line breaks, the no-break space and the other Unicode
  spaces), nor a period.  \<open>A\<close> fails as too short, \<open>Jane Doe\<close> passes, \<open>Jane123\<close> fails for
  its characters.
\<close>

theorem validateName_spec:
  assumes "list_all isWhiteSpace l" and "list_all isWhiteSpace r"
    and "t = [] \<or> \<not> isWhiteSpace (hd t) \<and> \<not> isWhiteSpace (last t)"
  shows
    "(validateName (l @ t @ r) \<noteq> [] \<longleftrightarrow>
        (t = [] \<or> length t < 2 \<or> list_ex (\<lambda>c. \<not> nameChar c) t)) \<and>
     validateName (l @ t @ r) =
       (if t = [] then str ''Name is required''
        else if length t < 2 then str ''Name must be at least 2 characters''
        else if list_ex (\<lambda>c. \<not> nameChar c) t
          then str ''Name can only contain letters, spaces, and periods''
        else []) \<and>
     validateName (str ''A'') = str ''Name must be at least 2 characters'' \<and>
     validateName (str ''Jane Doe'') = [] \<and>
     validateName (str ''Jane123'') = str ''Name can only contain letters, spaces, and periods''"
proof -
  have ex: "list_ex (\<lambda>c. \<not> nameChar c) t \<longleftrightarrow> \<not> list_all nameChar t"
    by (simp add: list_all_iff list_ex_iff)
  have gen: "validateName (l @ t @ r) =
       (if t = [] then str ''Name is required''
        else if length t < 2 then str ''Name must be at least 2 characters''
        else if list_ex (\<lambda>c. \<not> nameChar c) t
          then str ''Name can only contain letters, spaces, and periods''
        else [])"
    by (simp add: validateName_def Let_def NAME_REGEX_test trim_parts[OF assms] ex)
  have a: "validateName (str ''A'') = str ''Name must be at least 2 characters''"
    by code_simp
  have b: "validateName (str ''Jane Doe'') = []"
    by code_simp
  have c: "validateName (str ''Jane123'') =
             str ''Name can only contain letters, spaces, and periods''"
    by code_simp
  from gen have "validateName (l @ t @ r) \<noteq> [] \<longleftrightarrow>
      (t = [] \<or> length t < 2 \<or> list_ex (\<lambda>c. \<not> nameChar c) t)"
    by simp
  with gen a b c show ?thesis by blast
qed

theorem validateName_spec_witness:
  "validateName (str ''  A'' @ [0x0009]) = str ''Name must be at least 2 characters'' \<and>
   validateName (str '' Jane Doe  '') = [] \<and>
   validateName ([0x000A] @ str ''Jane123 '') =
     str ''Name can only contain letters, spaces, and periods'' \<and>
   validateName (str ''   '') = str ''Name is required''"
proof -
  have 1: "validateName (str ''  '' @ str ''A'' @ [0x0009]) =
             str ''Name must be at least 2 characters''"
    using validateName_spec[of "str ''  ''" "[0x0009]" "str ''A''"]
    by (simp add: str_def cu_of_def isWhiteSpace_def)
  have 2: "validateName (str '' '' @ str ''Jane Doe'' @ str ''  '') = []"
    using validateName_spec[of "str '' ''" "str ''  ''" "str ''Jane Doe''"]
    by (simp add: str_def cu_of_def isWhiteSpace_def nameChar_def isLetter_def)
  have 3: "validateName ([0x000A] @ str ''Jane123'' @ str '' '') =
             str ''Name can only contain letters, spaces, and periods''"
    using validateName_spec[of "[0x000A]" "str '' ''" "str ''Jane123''"]
    by (simp add: str_def cu_of_def isWhiteSpace_def nameChar_def isLetter_def)
  have 4: "validateName (str ''   '' @ [] @ []) = str ''Name is required''"
    using validateName_spec[of "str ''   ''" "[]" "[]"]
    by (simp add: str_def cu_of_def isWhiteSpace_def)
  from 1 2 3 4 show ?thesis
    by (simp add: str_def)
qed

text \<open>
  C5, the words \<open>letters\<close> and \<open>spaces\<close>.  The pattern of the code has the letters \<open>a\<close> to \<open>z\<close>
  and \<open>A\<close> to \<open>Z\<close> only and the whole class \<open>\s\<close>: \<open>Jos\<close> followed by the letter U+00E9, e with
  acute accent, is made of letters only and fails for its characters, and \<open>Jane\<close>, a line
  feed (U+000A), \<open>Doe\<close>, passes although a line feed is neither a letter, a space nor a period.
\<close>

theorem validateName_letters_are_ASCII:
  "validateName (str ''Jos'' @ [0x00E9]) =
     str ''Name can only contain letters, spaces, and periods'' \<and>
   validateName (str ''Jane'' @ [0x000A] @ str ''Doe'') = []"
  by code_simp

lemma formatPhoneValue_eq: "formatPhoneValue v = take 10 (filter isDigit v)"
  by (simp add: formatPhoneValue_def substring_def Let_def)

text \<open>
  C8.  The phone formatter writes back a value made of digits only, at most ten of them,
  and formatting a formatted value changes nothing.
\<close>

theorem formatPhoneInput_spec:
  "list_all isDigit (formatPhoneValue v) \<and> length (formatPhoneValue v) \<le> 10 \<and>
   formatPhoneValue (formatPhoneValue v) = formatPhoneValue v \<and>
   (input < length (elements d) \<longrightarrow>
      inputValue (elements (formatPhoneInput input d) ! input) =
        formatPhoneValue (inputValue (elements d ! input))) \<and>
   formatPhoneInput input (formatPhoneInput input d) = formatPhoneInput input d"
proof -
  have dig: "list_all isDigit (formatPhoneValue v)" for v
    by (auto simp: formatPhoneValue_eq list_all_iff dest: in_set_takeD)
  have idem: "formatPhoneValue (formatPhoneValue v) = formatPhoneValue v" for v
  proof -
    have "filter isDigit (take 10 (filter isDigit v)) = take 10 (filter isDigit v)"
      by (rule filter_True) (auto dest: in_set_takeD)
    then show ?thesis by (simp add: formatPhoneValue_eq)
  qed
  have h: "formatPhoneInput input (formatPhoneInput input d) = formatPhoneInput input d"
    by (cases "input < length (elements d)")
       (simp_all add: formatPhoneInput_def setValue_def updateElement_def idem list_update_beyond)
  show ?thesis
    using dig idem h
    by (simp add: formatPhoneValue_eq formatPhoneInput_def setValue_def updateElement_def)
qed

theorem formatPhoneInput_spec_witness:
  "0 < length (elements (pageOf [blank\<lparr>inputValue := str ''+91 98765-43210 77''\<rparr>])) \<and>
   inputValue (elements (formatPhoneInput 0
       (pageOf [blank\<lparr>inputValue := str ''+91 98765-43210 77''\<rparr>])) ! 0) = str ''9198765432''"
  using formatPhoneInput_spec [of "str ''+91 98765-43210 77''" 0
      "pageOf [blank\<lparr>inputValue := str ''+91 98765-43210 77''\<rparr>]"]
  by (simp add: pageOf_def blank_def formatPhoneValue_eq str_def cu_of_def isDigit_def)

text \<open>
  C9.  Two form records that agree on the patient name, the phone number and the preferred
  date get the same validation result, in the same environment, whatever their service
  type, preferred time and message are.
\<close>

theorem validateForm_ignores_unvalidated_fields:
  "patientName a = patientName b \<Longrightarrow> phoneNumber a = phoneNumber b \<Longrightarrow>
   preferredDate a = preferredDate b \<Longrightarrow> validateForm e a = validateForm e b"
  by (simp add: validateForm_def)

theorem validateForm_ignores_unvalidated_fields_witness:
  "validateForm (sampleEnv 0 0)
     \<lparr>patientName = str ''Asha Rao'', phoneNumber = str ''12345'', serviceType = str ''cupping'',
      preferredDate = [], preferredTime = str ''morning'', message = str ''hello''\<rparr> =
   validateForm (sampleEnv 0 0)
     \<lparr>patientName = str ''Asha Rao'', phoneNumber = str ''12345'', serviceType = [],
      preferredDate = [], preferredTime = [], message = []\<rparr>"
  by (rule validateForm_ignores_unvalidated_fields) simp_all

section \<open>The document under the handlers\<close>

subsection \<open>Updates of the document\<close>

lemma elements_updateElement:
  "elements (updateElement k f d) = (elements d)[k := f (elements d ! k)]"
  by (simp add: updateElement_def)

lemma other_updateElement [simp]:
  "activeElement (updateElement k f d) = activeElement d"
  "overlays (updateElement k f d) = overlays d"
  "innerWidth (updateElement k f d) = innerWidth d"
  "innerHeight (updateElement k f d) = innerHeight d"
  "scrollY (updateElement k f d) = scrollY d"
  "bodyOffsetHeight (updateElement k f d) = bodyOffsetHeight d"
  by (simp_all add: updateElement_def)

lemma map_list_update_same:
  "(\<And>x. g (f x) = g x) \<Longrightarrow> map g (xs[k := f (xs ! k)]) = map g xs"
  by (cases "k < length xs") (simp_all add: map_update list_update_same_conv list_update_beyond)

lemma map_updateElement:
  "(\<And>x. g (f x) = g x) \<Longrightarrow> map g (elements (updateElement k f d)) = map g (elements d)"
  by (simp add: elements_updateElement map_list_update_same)

lemma length_updateElement [simp]:
  "length (elements (updateElement k f d)) = length (elements d)"
  by (simp add: elements_updateElement)

lemma fold_update_other [simp]:
  "activeElement (fold (\<lambda>k. updateElement k (F k)) ks d) = activeElement d"
  "overlays (fold (\<lambda>k. updateElement k (F k)) ks d) = overlays d"
  "length (elements (fold (\<lambda>k. updateElement k (F k)) ks d)) = length (elements d)"
  by (induction ks arbitrary: d) simp_all

lemma map_fold_update:
  "(\<And>k x. g (F k x) = g x) \<Longrightarrow>
     map g (elements (fold (\<lambda>k. updateElement k (F k)) ks d)) = map g (elements d)"
  by (induction ks arbitrary: d) (simp_all add: map_updateElement)

lemmas setters = setTextContent_def addClass_def removeClass_def setStyle_def
  setAttribute_def setValue_def

lemma nth_of_map_eq:
  "map g xs = map g ys \<Longrightarrow> j < length xs \<Longrightarrow> g (xs ! j) = g (ys ! j)"
  by (metis length_map nth_map)

lemma length_of_map_eq: "map g xs = map g ys \<Longrightarrow> length xs = length ys"
  by (metis length_map)

subsection \<open>What the queries read\<close>

lemma findIndex_map: "findIndex (\<lambda>x. P (g x)) xs = findIndex P (map g xs)"
  by (induction xs) simp_all

lemma getElementById_cong:
  "map elemId (elements d) = map elemId (elements d') \<Longrightarrow> getElementById d i = getElementById d' i"
  using findIndex_map[of "\<lambda>y. y = i" elemId "elements d"]
    findIndex_map[of "\<lambda>y. y = i" elemId "elements d'"]
  by (simp add: getElementById_def)

lemma findIndex_Some: "findIndex P xs = Some k \<Longrightarrow> k < length xs \<and> P (xs ! k)"
proof (induction xs arbitrary: k)
  case Nil
  then show ?case by simp
next
  case (Cons x xs)
  then show ?case by (cases "P x") auto
qed

lemma getElementById_Some:
  "getElementById d i = Some k \<Longrightarrow> k < length (elements d) \<and> elemId (elements d ! k) = i"
  by (auto simp: getElementById_def dest: findIndex_Some split: if_splits)

lemma descendants_bound: "j \<in> set (descendants d i) \<Longrightarrow> i < j \<and> j < length (elements d)"
  by (auto simp: descendants_def dest: set_takeWhileD)

lemma descendants_cong:
  assumes "map depth (elements d) = map depth (elements d')"
  shows "descendants d i = descendants d' i"
proof -
  have len: "length (elements d) = length (elements d')"
    using assms by (rule length_of_map_eq)
  show ?thesis
  proof (cases "i < length (elements d)")
    case True
    have "takeWhile (\<lambda>j. depth (elements d ! i) < depth (elements d ! j)) [Suc i ..< length (elements d)]
        = takeWhile (\<lambda>j. depth (elements d' ! i) < depth (elements d' ! j)) [Suc i ..< length (elements d)]"
      using True nth_of_map_eq[OF assms] by (intro takeWhile_cong) auto
    then show ?thesis by (simp add: descendants_def len)
  next
    case False
    then show ?thesis by (simp add: descendants_def len)
  qed
qed

lemma formControls_cong:
  assumes "map depth (elements d) = map depth (elements d')"
    and "map formControl (elements d) = map formControl (elements d')"
  shows "formControls d f = formControls d' f"
  unfolding formControls_def descendants_cong[OF assms(1)]
  by (rule filter_cong[OF refl])
     (metis assms(1,2) descendants_bound length_of_map_eq nth_of_map_eq)

lemma formControls_bound: "k \<in> set (formControls d f) \<Longrightarrow> k < length (elements d)"
  by (auto simp: formControls_def dest: descendants_bound)

lemma FormData_get_cong:
  assumes "map depth (elements d) = map depth (elements d')"
    and "map formControl (elements d) = map formControl (elements d')"
    and "map ctlName (elements d) = map ctlName (elements d')"
    and "map inputValue (elements d) = map inputValue (elements d')"
  shows "FormData_get d f n = FormData_get d' f n"
proof -
  have fc: "formControls d f = formControls d' f"
    using assms(1,2) by (rule formControls_cong)
  have flt: "filter (\<lambda>k. ctlName (elements d ! k) = n) (formControls d' f)
           = filter (\<lambda>k. ctlName (elements d' ! k) = n) (formControls d' f)"
    by (rule filter_cong[OF refl])
       (metis assms(1,3) formControls_bound length_of_map_eq nth_of_map_eq)
  show ?thesis
  proof (cases "filter (\<lambda>k. ctlName (elements d' ! k) = n) (formControls d' f)")
    case Nil
    then show ?thesis by (simp add: FormData_get_def fc flt)
  next
    case (Cons k ks)
    then have "k \<in> set (filter (\<lambda>k. ctlName (elements d' ! k) = n) (formControls d' f))"
      by simp
    then have "k \<in> set (formControls d' f)"
      by simp
    then have "k < length (elements d)"
      using formControls_bound assms(1) length_of_map_eq by metis
    then have "inputValue (elements d ! k) = inputValue (elements d' ! k)"
      using assms(4) by (rule nth_of_map_eq[rotated])
    with Cons show ?thesis by (simp add: FormData_get_def fc flt)
  qed
qed

lemma getFormData_cong:
  assumes "map depth (elements (doc a)) = map depth (elements (doc a'))"
    and "map formControl (elements (doc a)) = map formControl (elements (doc a'))"
    and "map ctlName (elements (doc a)) = map ctlName (elements (doc a'))"
    and "map inputValue (elements (doc a)) = map inputValue (elements (doc a'))"
    and "form a = form a'"
  shows "getFormData a = getFormData a'"
  using assms(5) FormData_get_cong[OF assms(1-4)]
  by (simp add: getFormData_def split: option.splits)

subsection \<open>What the steps of the submission handler leave alone\<close>

lemma clearFormErrors_keeps:
  "(\<And>x v. g (x\<lparr>textContent := v\<rparr>) = g x) \<Longrightarrow> (\<And>x v. g (x\<lparr>classList := v\<rparr>) = g x) \<Longrightarrow>
   map g (elements (clearFormErrors d)) = map g (elements d)"
  by (simp add: clearFormErrors_def setters map_fold_update Let_def)

lemma clearFormErrors_other [simp]:
  "activeElement (clearFormErrors d) = activeElement d"
  "overlays (clearFormErrors d) = overlays d"
  by (simp_all add: clearFormErrors_def setters Let_def)

lemma displayError1_keeps:
  "(\<And>x v. g (x\<lparr>textContent := v\<rparr>) = g x) \<Longrightarrow> (\<And>x v. g (x\<lparr>classList := v\<rparr>) = g x) \<Longrightarrow>
   map g (elements (displayError1 fm d)) = map g (elements d)"
  by (simp add: displayError1_def setters map_updateElement Let_def split: option.splits)

lemma displayErrors_keeps:
  "(\<And>x v. g (x\<lparr>textContent := v\<rparr>) = g x) \<Longrightarrow> (\<And>x v. g (x\<lparr>classList := v\<rparr>) = g x) \<Longrightarrow>
   map g (elements (displayErrors errs d)) = map g (elements d)"
  unfolding displayErrors_def
  by (induction errs arbitrary: d) (simp_all add: displayError1_keeps)

lemma displayError1_other [simp]:
  "activeElement (displayError1 fm d) = activeElement d"
  "overlays (displayError1 fm d) = overlays d"
  by (simp_all add: displayError1_def setters Let_def split: option.splits)

lemma displayErrors_other [simp]:
  "activeElement (displayErrors errs d) = activeElement d"
  "overlays (displayErrors errs d) = overlays d"
  unfolding displayErrors_def
  by (induction errs arbitrary: d) simp_all

lemma show_keeps:
  "(\<And>x v. g (x\<lparr>textContent := v\<rparr>) = g x) \<Longrightarrow> (\<And>x v. g (x\<lparr>classList := v\<rparr>) = g x) \<Longrightarrow>
   (\<And>x v. g (x\<lparr>style := v\<rparr>) = g x) \<Longrightarrow>
   map g (elements (doc (ToastManager_show tm opts a))) = map g (elements (doc a))"
  by (simp add: ToastManager_show_def setters map_updateElement Let_def split: option.splits)

lemma show_other [simp]:
  "activeElement (doc (ToastManager_show tm opts a)) = activeElement (doc a)"
  "overlays (doc (ToastManager_show tm opts a)) = overlays (doc a)"
  "form (ToastManager_show tm opts a) = form a"
  "listeners (ToastManager_show tm opts a) = listeners a"
  "toastInstance (ToastManager_show tm opts a) = toastInstance a"
  by (simp_all add: ToastManager_show_def setters Let_def split: option.splits)

lemma getFormData_after_clear:
  "getFormData (a\<lparr>defaultPrevented := True, doc := clearFormErrors (doc a)\<rparr>) = getFormData a"
  by (rule getFormData_cong) (simp_all add: clearFormErrors_keeps)

lemma handleSubmit_invalid:
  assumes "getFormData a = Inr fd" and "\<not> isValid (validateForm e fd)"
  shows "handleSubmit e a =
    Inr (ToastManager_show (theToast a)
           \<lparr>toast_message = str ''Please fix the errors below'',
            toast_type = T_error, toast_duration = None\<rparr>
           (a\<lparr>defaultPrevented := True,
              doc := (let d2 = displayErrors (errors (validateForm e fd)) (clearFormErrors (doc a))
                      in case (case errors (validateForm e fd) of [] \<Rightarrow> None
                               | fm # _ \<Rightarrow> getElementById d2 (fst fm)) of
                           None \<Rightarrow> d2 | Some k \<Rightarrow> focus k d2)\<rparr>))"
proof -
  from assms(1) obtain f where f: "form a = Some f"
    by (auto simp: getFormData_def split: option.splits)
  have "getFormData (a\<lparr>defaultPrevented := True, doc := clearFormErrors (doc a)\<rparr>) = Inr fd"
    using assms(1) by (simp only: getFormData_after_clear)
  then show ?thesis
    using f assms(2) by (simp add: handleSubmit_def Let_def theToast_def)
qed

subsection \<open>Reading an element after an update\<close>

lemma nth_updateElement:
  "elements (updateElement k f d) ! j =
     (if j = k \<and> k < length (elements d) then f (elements d ! k) else elements d ! j)"
  by (cases "k < length (elements d)")
     (auto simp: elements_updateElement nth_list_update list_update_beyond)

lemma focus_simps [simp]:
  "elements (focus k d) = elements d" "overlays (focus k d) = overlays d"
  "activeElement (focus k d) = (if focusable (elements d ! k) then Some k else activeElement d)"
  by (simp_all add: focus_def)

lemma length_clearFormErrors [simp]: "length (elements (clearFormErrors d)) = length (elements d)"
  by (rule length_of_map_eq[of depth]) (simp add: clearFormErrors_keeps)

lemma length_displayError1 [simp]: "length (elements (displayError1 fm d)) = length (elements d)"
  by (rule length_of_map_eq[of depth]) (simp add: displayError1_keeps)

lemma length_displayErrors [simp]: "length (elements (displayErrors errs d)) = length (elements d)"
  by (rule length_of_map_eq[of depth]) (simp add: displayErrors_keeps)

lemma length_show [simp]:
  "length (elements (doc (ToastManager_show tm opts a))) = length (elements (doc a))"
  by (rule length_of_map_eq[of depth]) (simp add: show_keeps)

lemma hasClass_append: "hasClass (x\<lparr>classList := classList x @ [c]\<rparr>) c'
    \<longleftrightarrow> hasClass x c' \<or> c' = c"
  by (auto simp: hasClass_def)

lemma addClass_has:
  "k < length (elements d) \<Longrightarrow> hasClass (elements (addClass k c d) ! k) c"
  by (simp add: addClass_def nth_updateElement hasClass_append)

lemma addClass_mono:
  "hasClass (elements d ! j) c' \<Longrightarrow> hasClass (elements (addClass k c d) ! j) c'"
  by (auto simp: addClass_def nth_updateElement hasClass_append)

lemma length_setters [simp]:
  "length (elements (setTextContent k v d)) = length (elements d)"
  "length (elements (addClass k c d)) = length (elements d)"
  "length (elements (removeClass k c d)) = length (elements d)"
  "length (elements (setStyle k p w d)) = length (elements d)"
  "length (elements (setAttribute k p w d)) = length (elements d)"
  "length (elements (setValue k v d)) = length (elements d)"
  by (simp_all add: setters)

lemma setTextContent_class [simp]:
  "hasClass (elements (setTextContent k v d) ! j) c = hasClass (elements d ! j) c"
  by (simp add: setTextContent_def nth_updateElement hasClass_def)

lemma setStyle_class [simp]:
  "hasClass (elements (setStyle k p v d) ! j) c = hasClass (elements d ! j) c"
  by (simp add: setStyle_def nth_updateElement hasClass_def)

lemma addClass_text [simp]:
  "textContent (elements (addClass k c d) ! j) = textContent (elements d ! j)"
  by (simp add: addClass_def nth_updateElement)

lemma setStyle_text [simp]:
  "textContent (elements (setStyle k p v d) ! j) = textContent (elements d ! j)"
  by (simp add: setStyle_def nth_updateElement)

lemma setTextContent_text:
  "textContent (elements (setTextContent k v d) ! j) =
     (if j = k \<and> k < length (elements d) then v else textContent (elements d ! j))"
  by (simp add: setTextContent_def nth_updateElement)

lemma addClass_style [simp]:
  "style (elements (addClass k c d) ! j) = style (elements d ! j)"
  by (simp add: addClass_def nth_updateElement)

lemma setStyle_style:
  "style (elements (setStyle k p v d) ! j) =
     (if j = k \<and> k < length (elements d) then (style (elements d ! j))(p := v)
      else style (elements d ! j))"
  by (simp add: setStyle_def nth_updateElement)

subsection \<open>What \<open>displayErrors\<close> writes\<close>

lemma displayError1_mono:
  "hasClass (elements d ! j) c \<Longrightarrow> hasClass (elements (displayError1 fm d) ! j) c"
  by (simp add: displayError1_def Let_def addClass_mono split: option.splits)

lemma displayErrors_mono:
  "hasClass (elements d ! j) c \<Longrightarrow> hasClass (elements (displayErrors errs d) ! j) c"
  unfolding displayErrors_def
  by (induction errs arbitrary: d) (simp_all add: displayError1_mono)

lemma displayError1_ids [simp]:
  "getElementById (displayError1 fm d) i = getElementById d i"
  by (rule getElementById_cong) (simp add: displayError1_keeps)

lemma displayErrors_ids [simp]:
  "getElementById (displayErrors errs d) i = getElementById d i"
  by (rule getElementById_cong) (simp add: displayErrors_keeps)

lemma clearFormErrors_ids [simp]:
  "getElementById (clearFormErrors d) i = getElementById d i"
  by (rule getElementById_cong) (simp add: clearFormErrors_keeps)

lemma displayErrors_class:
  "fm \<in> set errs \<Longrightarrow> getElementById d (fst fm) = Some k \<Longrightarrow>
     hasClass (elements (displayErrors errs d) ! k) ''error''"
proof (induction errs arbitrary: d)
  case Nil
  then show ?case by simp
next
  case (Cons x errs)
  show ?case
  proof (cases "fm = x")
    case True
    have k: "k < length (elements d)"
      using getElementById_Some[OF Cons.prems(2)] by simp
    have "hasClass (elements (displayError1 x d) ! k) ''error''"
      using Cons.prems(2) True k
      by (simp add: displayError1_def Let_def addClass_has split: option.splits)
    then have "hasClass (elements (displayErrors errs (displayError1 x d)) ! k) ''error''"
      by (rule displayErrors_mono)
    then show ?thesis by (simp add: displayErrors_def)
  next
    case False
    with Cons.prems have "fm \<in> set errs" by simp
    then have "hasClass (elements (displayErrors errs (displayError1 x d)) ! k) ''error''"
      using Cons.prems(2) by (intro Cons.IH) simp_all
    then show ?thesis by (simp add: displayErrors_def)
  qed
qed

lemma displayError1_text_other:
  assumes "errorElementId (fst fm) \<noteq> elemId (elements d ! k)"
  shows "textContent (elements (displayError1 fm d) ! k) = textContent (elements d ! k)"
proof -
  have "getElementById d (errorElementId (fst fm)) \<noteq> Some k"
    using assms getElementById_Some by metis
  then show ?thesis
    by (auto simp: displayError1_def Let_def setTextContent_text split: option.splits)
qed

lemma displayError1_elemId [simp]:
  "elemId (elements (displayError1 fm d) ! k) = elemId (elements d ! k)"
proof (cases "k < length (elements d)")
  case True
  then show ?thesis
    using nth_of_map_eq[of elemId "elements (displayError1 fm d)" "elements d" k]
    by (simp add: displayError1_keeps)
next
  case False
  then show ?thesis
    by (simp add: displayError1_def Let_def setters nth_updateElement split: option.splits)
qed

lemma displayErrors_text_other:
  "(\<And>fm. fm \<in> set errs \<Longrightarrow> errorElementId (fst fm) \<noteq> elemId (elements d ! k)) \<Longrightarrow>
   textContent (elements (displayErrors errs d) ! k) = textContent (elements d ! k)"
proof (induction errs arbitrary: d)
  case Nil
  then show ?case by (simp add: displayErrors_def)
next
  case (Cons x errs)
  have "textContent (elements (displayErrors errs (displayError1 x d)) ! k)
      = textContent (elements (displayError1 x d) ! k)"
    by (rule Cons.IH) (simp add: Cons.prems)
  also have "\<dots> = textContent (elements d ! k)"
    by (rule displayError1_text_other) (simp add: Cons.prems)
  finally show ?case by (simp add: displayErrors_def)
qed

lemma displayErrors_text:
  "distinct (map (\<lambda>fm. errorElementId (fst fm)) errs) \<Longrightarrow> fm \<in> set errs \<Longrightarrow>
   getElementById d (errorElementId (fst fm)) = Some k \<Longrightarrow>
   textContent (elements (displayErrors errs d) ! k) = snd fm"
proof (induction errs arbitrary: d)
  case Nil
  then show ?case by simp
next
  case (Cons x errs)
  show ?case
  proof (cases "fm = x")
    case True
    have k: "k < length (elements d)" "elemId (elements d ! k) = errorElementId (fst fm)"
      using getElementById_Some[OF Cons.prems(3)] by simp_all
    have one: "textContent (elements (displayError1 x d) ! k) = snd fm"
      using Cons.prems(3) True k
      by (simp add: displayError1_def Let_def setTextContent_text split: option.splits)
    have "textContent (elements (displayErrors errs (displayError1 x d)) ! k)
        = textContent (elements (displayError1 x d) ! k)"
    proof (rule displayErrors_text_other)
      fix y assume "y \<in> set errs"
      then have "errorElementId (fst y) \<in> (\<lambda>fm. errorElementId (fst fm)) ` set errs"
        by (rule imageI)
      with Cons.prems(1) True have "errorElementId (fst y) \<noteq> errorElementId (fst fm)"
        by (metis distinct.simps(2) list.simps(9) set_map)
      then show "errorElementId (fst y) \<noteq> elemId (elements (displayError1 x d) ! k)"
        using k by simp
    qed
    with one show ?thesis by (simp add: displayErrors_def)
  next
    case False
    with Cons.prems have "fm \<in> set errs" by simp
    then have "textContent (elements (displayErrors errs (displayError1 x d)) ! k) = snd fm"
      using Cons.prems by (intro Cons.IH) simp_all
    then show ?thesis by (simp add: displayErrors_def)
  qed
qed

section \<open>The error path of the submission handler\<close>

lemma errorElementId_fields [simp]:
  "errorElementId ''patientName'' = ''patientnameError''"
  "errorElementId ''phoneNumber'' = ''phonenumberError''"
  "errorElementId ''preferredDate'' = ''preferreddateError''"
  by (simp_all add: errorElementId_def toLowerCase_def)

lemma errors_distinct:
  "distinct (map (\<lambda>fm. errorElementId (fst fm)) (errors (validateForm e fd)))"
  by (simp add: validateForm_def Let_def)

lemma errors_keys:
  "fm \<in> set (errors (validateForm e fd)) \<Longrightarrow>
     fst fm = ''patientName'' \<or> fst fm = ''phoneNumber'' \<or> fst fm = ''preferredDate''"
  by (auto simp: validateForm_def Let_def split: if_splits)

lemma isValid_errors: "isValid (validateForm e fd) \<longleftrightarrow> errors (validateForm e fd) = []"
  by (simp add: validateForm_def Let_def)

lemma show_present:
  assumes "toastElement tm = Some t" "messageElement tm = Some m"
    and "t < length (elements (doc a))" "m < length (elements (doc a))"
  shows "textContent (elements (doc (ToastManager_show tm opts a)) ! m) = toast_message opts"
    and "hasClass (elements (doc (ToastManager_show tm opts a)) ! t) ''show''"
    and "style (elements (doc (ToastManager_show tm opts a)) ! t) ''background'' =
           (if toast_type opts = T_error then ''var(--color-error)'' else ''var(--color-success)'')"
    and "timers (ToastManager_show tm opts a) =
           timers a @ [(ToastHide, case toast_duration opts of None \<Rightarrow> 5000
                                   | Some n \<Rightarrow> if n = 0 then 5000 else n)]"
  using assms
  by (simp_all add: ToastManager_show_def Let_def setTextContent_text addClass_has setStyle_style)

lemma show_text_other:
  "messageElement tm \<noteq> Some k \<Longrightarrow>
   textContent (elements (doc (ToastManager_show tm opts a)) ! k) = textContent (elements (doc a) ! k)"
  by (auto simp: ToastManager_show_def Let_def setTextContent_text split: option.splits)

lemma show_mono:
  "hasClass (elements (doc a) ! k) c \<Longrightarrow>
   hasClass (elements (doc (ToastManager_show tm opts a)) ! k) c"
  by (auto simp: ToastManager_show_def Let_def addClass_mono split: option.splits)

text \<open>The document the error path leaves, before the notification.\<close>

lemma handleSubmit_invalid_keeps:
  assumes "getFormData a = Inr fd" and "\<not> isValid (validateForm e fd)"
    and "handleSubmit e a = Inr a'"
    and "\<And>x v. g (x\<lparr>textContent := v\<rparr>) = g x" "\<And>x v. g (x\<lparr>classList := v\<rparr>) = g x"
        "\<And>x v. g (x\<lparr>style := v\<rparr>) = g x"
  shows "map g (elements (doc a')) = map g (elements (doc a))"
  using assms(3) unfolding handleSubmit_invalid[OF assms(1,2)]
  by (auto simp: show_keeps assms(4-6) displayErrors_keeps clearFormErrors_keeps Let_def
        split: option.splits list.splits)

text \<open>
  C10.  When validation fails the submission handler returns without resetting the form:
  the value of every control is what it was, and the form still yields the same record.
\<close>

theorem failed_submission_keeps_input:
  assumes "getFormData a = Inr fd" and "\<not> isValid (validateForm e fd)"
  shows "\<exists>a'. handleSubmit e a = Inr a' \<and>
           map inputValue (elements (doc a')) = map inputValue (elements (doc a)) \<and>
           getFormData a' = Inr fd"
proof -
  obtain a' where a': "handleSubmit e a = Inr a'"
    using handleSubmit_invalid[OF assms] by simp
  note keep = handleSubmit_invalid_keeps[OF assms a']
  have "form a' = form a"
    using a' unfolding handleSubmit_invalid[OF assms] by auto
  then have "getFormData a' = getFormData a"
    by (intro getFormData_cong) (simp_all add: keep)
  with a' keep[of inputValue] assms(1) show ?thesis by simp
qed

text \<open>
  C4.  When a validator fails, the submission handler writes the message of every failing
  field into the error element of that field and marks its input, calls \<open>focus()\<close> on the
  input of the first failing field, shows the error notification, and opens no contact
  dialog: no link is handed to the page.  The error element of a field is the element whose
  id is \<open>errorElementId\<close> of the field name; an element that the page does not have is
  skipped.  The call of \<open>focus()\<close> makes the input the active element when the input is
  focusable, and leaves the focus where it was when it is not (a disabled or hidden input).
\<close>

theorem failed_submission_reports_errors:
  assumes fd: "getFormData a = Inr fd"
    and inv: "\<not> isValid (validateForm e fd)"
    and tm: "toastInstance a = Some tm"
      "toastElement tm = getElementById (doc a) ''toast''"
      "messageElement tm = getElementById (doc a) ''toastMessage''"
  shows "\<exists>a'. handleSubmit e a = Inr a' \<and>
     (\<forall>fm \<in> set (errors (validateForm e fd)).
        (\<forall>k. getElementById (doc a) (errorElementId (fst fm)) = Some k \<longrightarrow>
              textContent (elements (doc a') ! k) = snd fm) \<and>
        (\<forall>k. getElementById (doc a) (fst fm) = Some k \<longrightarrow>
              hasClass (elements (doc a') ! k) ''error'')) \<and>
     (\<forall>fm rest k. errors (validateForm e fd) = fm # rest \<longrightarrow>
        getElementById (doc a) (fst fm) = Some k \<longrightarrow>
        activeElement (doc a') =
          (if focusable (elements (doc a) ! k) then Some k else activeElement (doc a))) \<and>
     (\<forall>t m. getElementById (doc a) ''toast'' = Some t \<longrightarrow>
            getElementById (doc a) ''toastMessage'' = Some m \<longrightarrow>
        textContent (elements (doc a') ! m) = str ''Please fix the errors below'' \<and>
        hasClass (elements (doc a') ! t) ''show'' \<and>
        style (elements (doc a') ! t) ''background'' = ''var(--color-error)'' \<and>
        timers a' = timers a @ [(ToastHide, 5000)]) \<and>
     overlays (doc a') = overlays (doc a)"
proof -
  let ?errs = "errors (validateForm e fd)"
  let ?d2 = "displayErrors ?errs (clearFormErrors (doc a))"
  let ?first = "case ?errs of [] \<Rightarrow> None | fm # _ \<Rightarrow> getElementById ?d2 (fst fm)"
  let ?d3 = "case ?first of None \<Rightarrow> ?d2 | Some k \<Rightarrow> focus k ?d2"
  let ?opts = "\<lparr>toast_message = str ''Please fix the errors below'',
                 toast_type = T_error, toast_duration = None\<rparr>"
  let ?a' = "ToastManager_show (theToast a) ?opts (a\<lparr>defaultPrevented := True, doc := ?d3\<rparr>)"
  have hs: "handleSubmit e a = Inr ?a'"
    using handleSubmit_invalid[OF fd inv] by (simp add: Let_def)
  have el3: "elements ?d3 = elements ?d2"
    by (simp split: option.splits)
  have tt: "theToast a = tm"
    using tm(1) by (simp add: theToast_def)
  have msgs: "textContent (elements (doc ?a') ! k) = snd fm"
    if "fm \<in> set ?errs" "getElementById (doc a) (errorElementId (fst fm)) = Some k" for fm k
  proof -
    have id: "elemId (elements (doc a) ! k) = errorElementId (fst fm)"
      using getElementById_Some[OF that(2)] by simp
    have "messageElement tm \<noteq> Some k"
    proof
      assume "messageElement tm = Some k"
      then have "elemId (elements (doc a) ! k) = ''toastMessage''"
        using tm(3) getElementById_Some by metis
      with id errors_keys[OF that(1)] show False by auto
    qed
    then have "textContent (elements (doc ?a') ! k) = textContent (elements ?d3 ! k)"
      using tt by (simp add: show_text_other)
    also have "\<dots> = snd fm"
      using that by (simp add: el3 displayErrors_text errors_distinct)
    finally show ?thesis .
  qed
  have cls: "hasClass (elements (doc ?a') ! k) ''error''"
    if "fm \<in> set ?errs" "getElementById (doc a) (fst fm) = Some k" for fm k
  proof -
    have "hasClass (elements ?d3 ! k) ''error''"
      using that by (simp add: el3 displayErrors_class)
    then show ?thesis by (simp add: show_mono)
  qed
  have foc: "activeElement (doc ?a') =
               (if focusable (elements (doc a) ! k) then Some k else activeElement (doc a))"
    if "?errs = fm # rest" "getElementById (doc a) (fst fm) = Some k" for fm rest k
  proof -
    have "map focusable (elements ?d2) = map focusable (elements (doc a))"
      by (simp add: displayErrors_keeps clearFormErrors_keeps)
    then have "focusable (elements ?d2 ! k) = focusable (elements (doc a) ! k)"
      using getElementById_Some[OF that(2)] by (intro nth_of_map_eq) simp_all
    then show ?thesis
      using that by simp
  qed
  have toast: "textContent (elements (doc ?a') ! m) = str ''Please fix the errors below'' \<and>
        hasClass (elements (doc ?a') ! t) ''show'' \<and>
        style (elements (doc ?a') ! t) ''background'' = ''var(--color-error)'' \<and>
        timers ?a' = timers a @ [(ToastHide, 5000)]"
    if "getElementById (doc a) ''toast'' = Some t" "getElementById (doc a) ''toastMessage'' = Some m"
    for t m
  proof -
    have b: "t < length (elements ?d3)" "m < length (elements ?d3)"
      using getElementById_Some[OF that(1)] getElementById_Some[OF that(2)] by (simp_all add: el3)
    have r: "toastElement tm = Some t" "messageElement tm = Some m"
      using tm that by simp_all
    show ?thesis
      using show_present[of tm t m "a\<lparr>defaultPrevented := True, doc := ?d3\<rparr>" ?opts, OF r] b tt
      by simp
  qed
  have ov: "overlays (doc ?a') = overlays (doc a)"
    by (simp split: option.splits)
  show ?thesis
    using hs msgs cls foc toast ov by blast
qed

section \<open>Percent-encoding of form data\<close>

lemma surrogate_disjoint: "isLeadSurrogate c \<Longrightarrow> \<not> isTrailSurrogate c"
  by (simp add: isLeadSurrogate_def isTrailSurrogate_def word_le_nat_alt)

lemma unescaped_ascii: "uriUnescaped c \<Longrightarrow> c < 0x80"
  unfolding uriUnescaped_def isLetter_def isDigit_def
  by (auto simp: cu_of_def str_def word_le_nat_alt word_less_nat_alt)

lemma lead_escaped: "isLeadSurrogate c \<Longrightarrow> \<not> uriUnescaped c"
  using unescaped_ascii[of c] by (auto simp: isLeadSurrogate_def word_le_nat_alt word_less_nat_alt)

lemma trail_escaped: "isTrailSurrogate c \<Longrightarrow> \<not> uriUnescaped c"
  using unescaped_ascii[of c] by (auto simp: isTrailSurrogate_def word_le_nat_alt word_less_nat_alt)

lemma FFFD_plain: "\<not> isLeadSurrogate 0xFFFD" "\<not> isTrailSurrogate 0xFFFD"
  by (simp_all add: isLeadSurrogate_def isTrailSurrogate_def)

lemma encode_toUSV: "encodeURIComponent (toUSV s) \<noteq> None"
proof (induction s rule: toUSV.induct)
  case 1
  show ?case by simp
next
  case (2 c cs)
  show ?case
  proof (cases "isLeadSurrogate c")
    case lead: True
    show ?thesis
    proof (cases cs)
      case Nil
      with lead show ?thesis by (simp add: FFFD_plain)
    next
      case (Cons d ds)
      show ?thesis
      proof (cases "isTrailSurrogate d")
        case True
        with lead Cons 2(1)[OF lead Cons True] show ?thesis
          by (simp add: lead_escaped surrogate_disjoint)
      next
        case False
        with lead Cons 2(2)[OF lead Cons False] show ?thesis
          by (simp add: FFFD_plain)
      qed
    qed
  next
    case nolead: False
    show ?thesis
    proof (cases "isTrailSurrogate c")
      case True
      with nolead 2(3)[OF nolead True] show ?thesis by (simp add: FFFD_plain)
    next
      case False
      with nolead 2(4)[OF nolead False] show ?thesis by simp
    qed
  qed
qed

lemma encode_append:
  "encodeURIComponent a = Some ea \<Longrightarrow>
   encodeURIComponent (a @ b) = map_option ((@) ea) (encodeURIComponent b)"
proof (induction a arbitrary: ea rule: encodeURIComponent.induct)
  case 1
  then show ?case by (simp add: option.map_ident)
next
  case (2 c cs)
  show ?case
  proof (cases "uriUnescaped c")
    case True
    with 2(1)[OF True] 2(4) show ?thesis
      by (auto simp: option.map_comp comp_def)
  next
    case unesc: False
    show ?thesis
    proof (cases "isTrailSurrogate c")
      case True
      with unesc 2(4) show ?thesis by simp
    next
      case notrail: False
      show ?thesis
      proof (cases "isLeadSurrogate c")
        case lead: True
        show ?thesis
        proof (cases cs)
          case Nil
          with unesc notrail lead 2(4) show ?thesis by simp
        next
          case (Cons d ds)
          show ?thesis
          proof (cases "isTrailSurrogate d")
            case True
            with unesc notrail lead Cons 2(2)[OF unesc notrail lead Cons True] 2(4) show ?thesis
              by (auto simp: option.map_comp comp_def)
          next
            case False
            with unesc notrail lead Cons 2(4) show ?thesis by simp
          qed
        qed
      next
        case False
        with unesc notrail 2(3)[OF unesc notrail False] 2(4) show ?thesis
          by (auto simp: option.map_comp comp_def)
      qed
    qed
  qed
qed

lemma ok_append:
  "encodable a \<Longrightarrow> encodable b \<Longrightarrow>
   encodable (a @ b)"
  by (auto simp: encode_append encodable_def)

lemma the_encode_append:
  "encodable a \<Longrightarrow> encodable b \<Longrightarrow>
   the (encodeURIComponent (a @ b)) = the (encodeURIComponent a) @ the (encodeURIComponent b)"
  by (auto simp: encode_append encodable_def)

lemma cu_of_small: "cu_of c < 0x100"
proof -
  have "of_char c < (256::nat)" by simp
  then have "of_char c mod 65536 < (256::nat)"
    by (metis less_imp_diff_less mod_less_eq_dividend order_le_less_trans)
  then show ?thesis
    by (simp add: cu_of_def word_less_nat_alt unat_of_nat)
qed

lemma ok_plain:
  "list_all (\<lambda>c. c < 0xD800) s \<Longrightarrow> encodable s"
proof (induction s)
  case Nil
  show ?case by (simp add: encodable_def)
next
  case (Cons c s)
  then have "\<not> isLeadSurrogate c" "\<not> isTrailSurrogate c"
    by (simp_all add: isLeadSurrogate_def isTrailSurrogate_def word_le_nat_alt word_less_nat_alt)
  with Cons show ?case by (simp add: encodable_def)
qed

lemma ok_str: "encodable (str s)"
proof (rule ok_plain)
  have "cu_of c < 0xD800" for c
    using cu_of_small[of c] by (simp add: word_less_nat_alt)
  then show "list_all (\<lambda>c. c < 0xD800) (str s)"
    by (simp add: str_def list_all_iff)
qed

lemma ok_NL: "encodable NL"
  by (rule ok_plain) (simp add: NL_def)

lemma ok_Nil: "encodable []"
  by (simp add: encodable_def)

lemma ok_toUSV: "encodable (toUSV s)"
  by (simp add: encodable_def encode_toUSV)

lemma ok_orEmpty: "encodable (orEmpty (FormData_get d f n))"
  by (simp add: orEmpty_def FormData_get_def ok_toUSV ok_Nil split: option.splits list.splits)

lemma ok_labelOr: "encodable key \<Longrightarrow> encodable (labelOr e tbl key)"
  by (simp add: labelOr_def ok_str split: option.splits)

lemma getFormData_ok:
  assumes "getFormData a = Inr fd"
  shows "encodable (patientName fd)" "encodable (phoneNumber fd)"
    "encodable (serviceType fd)" "encodable (preferredDate fd)"
    "encodable (preferredTime fd)" "encodable (message fd)"
  using assms by (auto simp: getFormData_def ok_orEmpty split: option.splits)

lemma ok_if: "encodable x \<Longrightarrow> encodable y \<Longrightarrow> encodable (if c then x else y)"
  by simp

lemmas oks = ok_append ok_str ok_NL ok_Nil ok_labelOr ok_if

lemma encode_around:
  assumes "encodable a" "encodable x" "encodable b" "encodable y" "encodable c"
  shows "\<exists>pa pb pc. encodeURIComponent (a @ x @ b @ y @ c) =
           Some (pa @ the (encodeURIComponent x) @ pb @ the (encodeURIComponent y) @ pc)"
proof -
  have all: "encodable (a @ x @ b @ y @ c)"
    using assms by (intro ok_append)
  have "the (encodeURIComponent (a @ x @ b @ y @ c)) =
        the (encodeURIComponent a) @ the (encodeURIComponent x) @ the (encodeURIComponent b) @
        the (encodeURIComponent y) @ the (encodeURIComponent c)"
    using assms by (simp add: the_encode_append ok_append)
  with all show ?thesis
    unfolding encodable_def by (metis option.collapse)
qed

lemma sublist_mid1: "sublist x (p @ a @ x @ r)"
  using sublist_appendI[of x "p @ a" r] by simp

lemma sublist_mid2: "sublist y (p @ a @ x @ b @ y @ r)"
  using sublist_appendI[of y "p @ a @ x @ b" r] by simp

lemma emailText_shape:
  assumes "getFormData a = Inr fd"
  shows "\<exists>A B C. emailText e fd = A @ patientName fd @ B @ phoneNumber fd @ C \<and>
           encodable A \<and> encodable B \<and> encodable C"
proof -
  note f = getFormData_ok[OF assms]
  let ?A = "str ''Appointment Request from AAYURCURE Website'' @ NL @ NL @ str ''Patient Name: ''"
  let ?B = "NL @ str ''Phone Number: ''"
  let ?C = "NL @
     (if serviceType fd = [] then []
      else str ''Service Required: '' @ labelOr e serviceNames (serviceType fd) @ NL) @
     (if preferredDate fd = [] then []
      else str ''Preferred Date: '' @
           str (toLocaleDateString_enIN e (Date_parse e (preferredDate fd))) @ NL) @
     (if preferredTime fd = [] then []
      else str ''Preferred Time: '' @ labelOr e timeSlots (preferredTime fd) @ NL) @
     (if trim (message fd) = [] then []
      else NL @ str ''Additional Information:'' @ NL @ message fd @ NL) @
     NL @ str ''---'' @ NL @ str ''Submitted from: AAYURCURE Website''"
  have 1: "emailText e fd = ?A @ patientName fd @ ?B @ phoneNumber fd @ ?C"
    by (simp add: emailText_def)
  have 2: "encodable ?A" "encodable ?B"
    by (intro oks)+
  have 3: "encodable ?C"
    by (intro oks f)
  from 1 2 3 show ?thesis by blast
qed

lemma whatsAppText_shape:
  assumes "getFormData a = Inr fd"
  shows "\<exists>A B C. whatsAppText fd = A @ patientName fd @ B @ phoneNumber fd @ C \<and>
           encodable A \<and> encodable B \<and> encodable C"
proof -
  note f = getFormData_ok[OF assms]
  let ?A = "str ''Hello AAYURCURE, I'd like to book an appointment.'' @ NL @ NL @ str ''Name: ''"
  let ?B = "NL @ str ''Phone: ''"
  let ?C = "NL @
     (if serviceType fd = [] then []
      else str ''Service: '' @ serviceType fd @ NL) @
     (if preferredDate fd = [] then []
      else str ''Date: '' @ preferredDate fd @ NL) @
     (if preferredTime fd = [] then []
      else str ''Time: '' @ preferredTime fd @ NL)"
  have 1: "whatsAppText fd = ?A @ patientName fd @ ?B @ phoneNumber fd @ ?C"
    by (simp add: whatsAppText_def)
  have 2: "encodable ?A" "encodable ?B"
    by (intro oks)+
  have 3: "encodable ?C"
    by (intro oks f)
  from 1 2 3 show ?thesis by blast
qed

lemma links_contain:
  assumes "getFormData a = Inr fd"
  shows "\<exists>emailContent whatsappMessage encName encPhone.
     generateEmailContent e fd = Some emailContent \<and>
     generateWhatsAppMessage fd = Some whatsappMessage \<and>
     encodeURIComponent (patientName fd) = Some encName \<and>
     encodeURIComponent (phoneNumber fd) = Some encPhone \<and>
     sublist encName (mailtoPrefix @ emailContent) \<and>
     sublist encPhone (mailtoPrefix @ emailContent) \<and>
     sublist encName (whatsappPrefix @ whatsappMessage) \<and>
     sublist encPhone (whatsappPrefix @ whatsappMessage)"
proof -
  note f = getFormData_ok[OF assms]
  obtain A B C where em: "emailText e fd = A @ patientName fd @ B @ phoneNumber fd @ C"
      "encodable A" "encodable B" "encodable C"
    using emailText_shape[OF assms] by blast
  obtain A' B' C' where wa: "whatsAppText fd = A' @ patientName fd @ B' @ phoneNumber fd @ C'"
      "encodable A'" "encodable B'" "encodable C'"
    using whatsAppText_shape[OF assms] by blast
  obtain en ep where n: "encodeURIComponent (patientName fd) = Some en"
      and p: "encodeURIComponent (phoneNumber fd) = Some ep"
    using f(1,2) by (auto simp: encodable_def)
  obtain pa pb pc where 1: "encodeURIComponent (emailText e fd) = Some (pa @ en @ pb @ ep @ pc)"
    using encode_around[OF em(2) f(1) em(3) f(2) em(4)] em(1) n p by auto
  obtain qa qb qc where 2: "encodeURIComponent (whatsAppText fd) = Some (qa @ en @ qb @ ep @ qc)"
    using encode_around[OF wa(2) f(1) wa(3) f(2) wa(4)] wa(1) n p by auto
  have "generateEmailContent e fd = Some (pa @ en @ pb @ ep @ pc) \<and>
     generateWhatsAppMessage fd = Some (qa @ en @ qb @ ep @ qc) \<and>
     encodeURIComponent (patientName fd) = Some en \<and>
     encodeURIComponent (phoneNumber fd) = Some ep \<and>
     sublist en (mailtoPrefix @ pa @ en @ pb @ ep @ pc) \<and>
     sublist ep (mailtoPrefix @ pa @ en @ pb @ ep @ pc) \<and>
     sublist en (whatsappPrefix @ qa @ en @ qb @ ep @ qc) \<and>
     sublist ep (whatsappPrefix @ qa @ en @ qb @ ep @ qc)"
    using 1 2 n p
    by (simp add: generateEmailContent_def generateWhatsAppMessage_def sublist_mid1 sublist_mid2)
  then show ?thesis by blast
qed

subsection \<open>Resetting the form\<close>

lemma fold_reset_nth:
  "elements (fold (\<lambda>k. updateElement k (\<lambda>x. x\<lparr>inputValue := defaultValue x\<rparr>)) ks d) ! j =
     (if j \<in> set ks \<and> j < length (elements d)
      then (elements d ! j)\<lparr>inputValue := defaultValue (elements d ! j)\<rparr>
      else elements d ! j)"
  by (induction ks arbitrary: d) (auto simp: nth_updateElement)

lemma form_reset_nth:
  "k \<in> set (formControls d f) \<Longrightarrow>
     inputValue (elements (form_reset f d) ! k) = defaultValue (elements d ! k)"
  using formControls_bound[of k d f] by (simp add: form_reset_def fold_reset_nth)

lemma form_reset_keeps:
  "(\<And>x v. g (x\<lparr>inputValue := v\<rparr>) = g x) \<Longrightarrow>
     map g (elements (form_reset f d)) = map g (elements d)"
  by (simp add: form_reset_def map_fold_update)

lemma form_reset_other [simp]:
  "overlays (form_reset f d) = overlays d" "activeElement (form_reset f d) = activeElement d"
  "length (elements (form_reset f d)) = length (elements d)"
  by (simp_all add: form_reset_def)

lemma showContactOptions_simps [simp]:
  "elements (showContactOptions x y d) = elements d"
  "overlays (showContactOptions x y d) = overlays d @ [(y, x)]"
  by (simp_all add: showContactOptions_def)

section \<open>The success path of the submission handler\<close>

lemma handleSubmit_valid:
  assumes "getFormData a = Inr fd" and "form a = Some f" and "isValid (validateForm e fd)"
    and "generateEmailContent e fd = Some ec" and "generateWhatsAppMessage fd = Some wm"
  shows "handleSubmit e a =
    Inr ((ToastManager_show (theToast a)
           \<lparr>toast_message = str ''Appointment request prepared! Choose your preferred contact method.'',
            toast_type = T_success, toast_duration = None\<rparr>
           (a\<lparr>defaultPrevented := True, doc := clearFormErrors (doc a)\<rparr>))
         \<lparr>doc := form_reset f (showContactOptions (mailtoPrefix @ ec) (whatsappPrefix @ wm)
            (doc (ToastManager_show (theToast a)
           \<lparr>toast_message = str ''Appointment request prepared! Choose your preferred contact method.'',
            toast_type = T_success, toast_duration = None\<rparr>
           (a\<lparr>defaultPrevented := True, doc := clearFormErrors (doc a)\<rparr>))))\<rparr>)"
proof -
  have "getFormData (a\<lparr>defaultPrevented := True, doc := clearFormErrors (doc a)\<rparr>) = Inr fd"
    using assms(1) by (simp only: getFormData_after_clear)
  then show ?thesis
    using assms(2-5) by (simp add: handleSubmit_def Let_def theToast_def)
qed

text \<open>
  C3, as the code has it.  When all validators pass, the submission handler builds the two
  links, a WhatsApp link and a \<open>mailto\<close> link, each containing the percent-encoded patient
  name and phone number, offers both in one contact dialog, shows the success notification,
  and resets the form with \<open>form.reset()\<close>: every control of the form has its default value
  again.  A control whose default is the empty string is cleared; a control with another
  default (a preselected option, a \<open>value\<close> attribute) shows that default, whatever the
  visitor had entered.
\<close>

theorem valid_submission_prepares_links:
  assumes fd: "getFormData a = Inr fd"
    and f: "form a = Some f"
    and ok: "isValid (validateForm e fd)"
    and tm: "toastInstance a = Some tm"
      "toastElement tm = getElementById (doc a) ''toast''"
      "messageElement tm = getElementById (doc a) ''toastMessage''"
  shows "\<exists>a' emailContent whatsappMessage encName encPhone.
     handleSubmit e a = Inr a' \<and>
     generateEmailContent e fd = Some emailContent \<and>
     generateWhatsAppMessage fd = Some whatsappMessage \<and>
     overlays (doc a') =
       overlays (doc a) @ [(whatsappPrefix @ whatsappMessage, mailtoPrefix @ emailContent)] \<and>
     encodeURIComponent (patientName fd) = Some encName \<and>
     encodeURIComponent (phoneNumber fd) = Some encPhone \<and>
     sublist encName (mailtoPrefix @ emailContent) \<and>
     sublist encPhone (mailtoPrefix @ emailContent) \<and>
     sublist encName (whatsappPrefix @ whatsappMessage) \<and>
     sublist encPhone (whatsappPrefix @ whatsappMessage) \<and>
     (\<forall>t m. getElementById (doc a) ''toast'' = Some t \<longrightarrow>
            getElementById (doc a) ''toastMessage'' = Some m \<longrightarrow>
        textContent (elements (doc a') ! m) =
          str ''Appointment request prepared! Choose your preferred contact method.'' \<and>
        hasClass (elements (doc a') ! t) ''show'' \<and>
        style (elements (doc a') ! t) ''background'' = ''var(--color-success)'' \<and>
        timers a' = timers a @ [(ToastHide, 5000)]) \<and>
     (\<forall>k \<in> set (formControls (doc a) f).
        inputValue (elements (doc a') ! k) = defaultValue (elements (doc a) ! k)) \<and>
     ((\<forall>k \<in> set (formControls (doc a) f). defaultValue (elements (doc a) ! k) = []) \<longrightarrow>
      (\<forall>k \<in> set (formControls (doc a) f). inputValue (elements (doc a') ! k) = []))"
proof -
  obtain ec wm en ep where l: "generateEmailContent e fd = Some ec"
      "generateWhatsAppMessage fd = Some wm"
      "encodeURIComponent (patientName fd) = Some en"
      "encodeURIComponent (phoneNumber fd) = Some ep"
      "sublist en (mailtoPrefix @ ec)" "sublist ep (mailtoPrefix @ ec)"
      "sublist en (whatsappPrefix @ wm)" "sublist ep (whatsappPrefix @ wm)"
    using links_contain[OF fd, of e] by blast
  let ?opts = "\<lparr>toast_message = str ''Appointment request prepared! Choose your preferred contact method.'',
            toast_type = T_success, toast_duration = None\<rparr>"
  let ?a1 = "a\<lparr>defaultPrevented := True, doc := clearFormErrors (doc a)\<rparr>"
  let ?a2 = "ToastManager_show (theToast a) ?opts ?a1"
  let ?d3 = "showContactOptions (mailtoPrefix @ ec) (whatsappPrefix @ wm) (doc ?a2)"
  let ?a' = "?a2\<lparr>doc := form_reset f ?d3\<rparr>"
  have hs: "handleSubmit e a = Inr ?a'"
    by (rule handleSubmit_valid[OF fd f ok l(1,2)])
  have tt: "theToast a = tm"
    using tm(1) by (simp add: theToast_def)
  have ov: "overlays (doc ?a') = overlays (doc a) @ [(whatsappPrefix @ wm, mailtoPrefix @ ec)]"
    by simp
  have fc: "formControls ?d3 f = formControls (doc a) f"
    by (rule formControls_cong) (simp_all add: show_keeps clearFormErrors_keeps)
  have reset: "inputValue (elements (doc ?a') ! k) = defaultValue (elements (doc a) ! k)"
    if "k \<in> set (formControls (doc a) f)" for k
  proof -
    have k: "k < length (elements ?d3)"
      using that formControls_bound[of k ?d3 f] by (simp only: fc)
    have "inputValue (elements (doc ?a') ! k) = defaultValue (elements ?d3 ! k)"
      using that form_reset_nth[of k ?d3 f] by (simp only: fc) simp
    also have "\<dots> = defaultValue (elements (doc a) ! k)"
      by (rule nth_of_map_eq[OF _ k]) (simp add: show_keeps clearFormErrors_keeps)
    finally show ?thesis .
  qed
  have toast: "textContent (elements (doc ?a') ! m) =
          str ''Appointment request prepared! Choose your preferred contact method.'' \<and>
        hasClass (elements (doc ?a') ! t) ''show'' \<and>
        style (elements (doc ?a') ! t) ''background'' = ''var(--color-success)'' \<and>
        timers ?a' = timers a @ [(ToastHide, 5000)]"
    if "getElementById (doc a) ''toast'' = Some t" "getElementById (doc a) ''toastMessage'' = Some m"
    for t m
  proof -
    have b: "t < length (elements (doc ?a1))" "m < length (elements (doc ?a1))"
      using getElementById_Some[OF that(1)] getElementById_Some[OF that(2)] by simp_all
    have r: "toastElement tm = Some t" "messageElement tm = Some m"
      using tm that by simp_all
    note sp = show_present[of tm t m ?a1 ?opts, OF r b]
    have b2: "t < length (elements (doc ?a2))" "m < length (elements (doc ?a2))"
      using b by simp_all
    have e1: "textContent (elements (doc ?a') ! m) = textContent (elements (doc ?a2) ! m)"
      using nth_of_map_eq[of textContent "elements (form_reset f ?d3)" "elements ?d3" m] b2
      by (simp add: form_reset_keeps)
    have e2: "classList (elements (doc ?a') ! t) = classList (elements (doc ?a2) ! t)"
      using nth_of_map_eq[of classList "elements (form_reset f ?d3)" "elements ?d3" t] b2
      by (simp add: form_reset_keeps)
    have e3: "style (elements (doc ?a') ! t) = style (elements (doc ?a2) ! t)"
      using nth_of_map_eq[of style "elements (form_reset f ?d3)" "elements ?d3" t] b2
      by (simp add: form_reset_keeps)
    show ?thesis
      using sp e1 e2 e3 tt by (simp add: hasClass_def)
  qed
  have cleared: "(\<forall>k \<in> set (formControls (doc a) f). defaultValue (elements (doc a) ! k) = []) \<longrightarrow>
      (\<forall>k \<in> set (formControls (doc a) f). inputValue (elements (doc ?a') ! k) = [])"
    using reset by simp
  show ?thesis
    using hs l ov toast reset cleared by blast
qed

section \<open>Date validation and the time zone\<close>

lemma parseISODate_nonempty: "parseISODate s = Some D \<Longrightarrow> s \<noteq> []"
  by (auto simp: parseISODate_def)

lemma div_msPerDay:
  assumes "0 \<le> off" "off < msPerDay"
  shows "(D * msPerDay + off) div msPerDay = D"
proof -
  have "0 < msPerDay" by (simp add: msPerDay_def)
  then show ?thesis using assms by (simp add: div_pos_pos_trivial)
qed

text \<open>
  For a calendar date \<open>YYYY-MM-DD\<close>, where local time is ahead of UTC by less than a day:
  a date before today's local date is refused as past, a later Sunday is refused as a
  Sunday, every other date passes.
\<close>

lemma validateDate_empty: "validateDate e [] = []"
  by (simp add: validateDate_def)

lemma validateDate_ahead_of_UTC:
  assumes p: "parseISODate s = Some D"
    and tz: "\<And>t b. 0 \<le> localTZA e t b \<and> localTZA e t b < msPerDay"
  shows "validateDate e s =
    (if D < Day (LocalTime e (now e)) then str ''Please select a future date''
     else if WeekDay (D * msPerDay) = 0
       then str ''Sundays are by appointment only - please call to schedule''
     else [])"
proof -
  define L where "L = Day (LocalTime e (now e))"
  define off where "off = localTZA e (L * msPerDay) False"
  define off' where "off' = localTZA e (D * msPerDay) True"
  have o: "0 \<le> off" "off < msPerDay" "0 \<le> off'" "off' < msPerDay"
    using tz by (simp_all add: off_def off'_def)
  have pos: "0 < msPerDay" by (simp add: msPerDay_def)
  have lt: "D * msPerDay < L * msPerDay - off \<longleftrightarrow> D < L"
    using o(1,2) unfolding msPerDay_def by arith
  have wd: "WeekDay (LocalTime e (D * msPerDay)) = WeekDay (D * msPerDay)"
    using o div_msPerDay[of off' D] div_msPerDay[of 0 D] pos
    by (simp add: WeekDay_def Day_def LocalTime_def off'_def)
  show ?thesis
    using p parseISODate_nonempty[OF p] lt wd
    by (simp add: validateDate_def Date_parse_def setHours0_def UTC_def date_less_def
          getDay_def Let_def L_def off_def)
qed

text \<open>
  C2.  Date validation is meant to pass the empty date, refuse a date before today as past,
  refuse a later Sunday as by appointment only, and pass every other date.  The code does so
  wherever local time is ahead of UTC (\<open>validateDate_ahead_of_UTC\<close>): it reads the date as
  midnight UTC, but compares it with local midnight and takes its weekday in local time.
  Where local time is behind UTC the result is another.  On a clock five hours behind UTC,
  on Friday 30 October 2026 at 10:00 local time: today's date is refused as past, Monday
  2 November is refused as a Sunday, and Sunday 1 November is accepted.
\<close>

theorem validateDate_behind_UTC:
  "parseISODate (str ''2026-10-30'') =
     Some (Day (LocalTime (sampleEnv (20756 * 86400000 + 54000000) (- 18000000))
                 (20756 * 86400000 + 54000000))) \<and>
   validateDate (sampleEnv (20756 * 86400000 + 54000000) (- 18000000)) (str ''2026-10-30'') =
     str ''Please select a future date'' \<and>
   parseISODate (str ''2026-11-02'') = Some 20759 \<and> WeekDay (20759 * msPerDay) = 1 \<and>
   validateDate (sampleEnv (20756 * 86400000 + 54000000) (- 18000000)) (str ''2026-11-02'') =
     str ''Sundays are by appointment only - please call to schedule'' \<and>
   parseISODate (str ''2026-11-01'') = Some 20758 \<and> WeekDay (20758 * msPerDay) = 0 \<and>
   validateDate (sampleEnv (20756 * 86400000 + 54000000) (- 18000000)) (str ''2026-11-01'') = []"
  by code_simp

section \<open>The handler on the sample page\<close>

lemma failingForm_facts:
  "getFormData failingForm = Inr failingData"
  "\<not> isValid (validateForm mondayIST failingData)"
  "toastInstance failingForm =
     Some \<lparr>toastElement = Some 7, messageElement = Some 8, closeButton = Some 9\<rparr>"
  "getElementById (doc failingForm) ''toast'' = Some 7"
  "getElementById (doc failingForm) ''toastMessage'' = Some 8"
  "getElementById (doc failingForm) ''patientName'' = Some 1"
  "getElementById (doc failingForm) ''patientnameError'' = Some 2"
  "getElementById (doc failingForm) ''phoneNumber'' = Some 3"
  "getElementById (doc failingForm) ''phonenumberError'' = Some 4"
  "errors (validateForm mondayIST failingData) =
     [(''patientName'', str ''Name is required''),
      (''phoneNumber'', str ''Please enter a valid 10-digit Indian mobile number'')]"
  "map inputValue (elements (doc failingForm)) = [[], [], [], str ''12345'', [], [], [], [], [], []]"
  "overlays (doc failingForm) = []"
  "timers failingForm = []"
  "focusable (elements (doc failingForm) ! 1)"
  "focusable (elements (doc failingForm) ! Suc 0)"
  by code_simp+

theorem failed_submission_keeps_input_witness:
  "\<exists>a'. handleSubmit mondayIST failingForm = Inr a' \<and>
        map inputValue (elements (doc a')) = [[], [], [], str ''12345'', [], [], [], [], [], []] \<and>
        getFormData a' = Inr failingData"
  using failed_submission_keeps_input[of failingForm failingData mondayIST]
  by (simp add: failingForm_facts)

theorem failed_submission_reports_errors_witness:
  "\<exists>a'. handleSubmit mondayIST failingForm = Inr a' \<and>
        textContent (elements (doc a') ! 2) = str ''Name is required'' \<and>
        textContent (elements (doc a') ! 4) =
          str ''Please enter a valid 10-digit Indian mobile number'' \<and>
        hasClass (elements (doc a') ! 1) ''error'' \<and>
        hasClass (elements (doc a') ! 3) ''error'' \<and>
        activeElement (doc a') = Some 1 \<and>
        textContent (elements (doc a') ! 8) = str ''Please fix the errors below'' \<and>
        hasClass (elements (doc a') ! 7) ''show'' \<and>
        timers a' = [(ToastHide, 5000)] \<and>
        overlays (doc a') = []"
  using failed_submission_reports_errors[of failingForm failingData mondayIST
      "\<lparr>toastElement = Some 7, messageElement = Some 8, closeButton = Some 9\<rparr>"]
  by (simp add: failingForm_facts) blast

text \<open>
  With the name input disabled the same submission reports the same errors and the focus
  stays where it was, here on no element.
\<close>

lemma failed_submission_disabled_input:
  "\<not> isl (handleSubmit mondayIST disabledNameForm) \<and>
   activeElement (doc disabledNameForm) = None \<and>
   activeElement (doc (projr (handleSubmit mondayIST disabledNameForm))) = None \<and>
   hasClass (elements (doc (projr (handleSubmit mondayIST disabledNameForm))) ! 1) ''error'' \<and>
   textContent (elements (doc (projr (handleSubmit mondayIST disabledNameForm))) ! 2) =
     str ''Name is required''"
  by (intro conjI; code_simp)

lemma passingForm_facts:
  "getFormData passingForm = Inr passingData"
  "form passingForm = Some 0"
  "isValid (validateForm mondayIST passingData)"
  "toastInstance passingForm =
     Some \<lparr>toastElement = Some 7, messageElement = Some 8, closeButton = Some 9\<rparr>"
  "getElementById (doc passingForm) ''toast'' = Some 7"
  "getElementById (doc passingForm) ''toastMessage'' = Some 8"
  "encodeURIComponent (patientName passingData) = Some (str ''Asha%20Rao'')"
  "encodeURIComponent (phoneNumber passingData) = Some (str ''9876543210'')"
  "formControls (doc passingForm) 0 = [1, 3, 5]"
  "map defaultValue (elements (doc passingForm)) = [[], [], [], [], [], [], [], [], [], []]"
  "overlays (doc passingForm) = []"
  "timers passingForm = []"
  by code_simp+

theorem valid_submission_prepares_links_witness:
  "\<exists>a' emailContent whatsappMessage.
      handleSubmit mondayIST passingForm = Inr a' \<and>
      overlays (doc a') = [(whatsappPrefix @ whatsappMessage, mailtoPrefix @ emailContent)] \<and>
      sublist (str ''Asha%20Rao'') (mailtoPrefix @ emailContent) \<and>
      sublist (str ''9876543210'') (mailtoPrefix @ emailContent) \<and>
      sublist (str ''Asha%20Rao'') (whatsappPrefix @ whatsappMessage) \<and>
      sublist (str ''9876543210'') (whatsappPrefix @ whatsappMessage) \<and>
      textContent (elements (doc a') ! 8) =
        str ''Appointment request prepared! Choose your preferred contact method.'' \<and>
      hasClass (elements (doc a') ! 7) ''show'' \<and>
      inputValue (elements (doc a') ! 1) = [] \<and>
      inputValue (elements (doc a') ! 3) = [] \<and>
      inputValue (elements (doc a') ! 5) = []"
proof -
  note p = passingForm_facts
  have d: "defaultValue (elements (doc passingForm) ! 1) = []"
      "defaultValue (elements (doc passingForm) ! 3) = []"
      "defaultValue (elements (doc passingForm) ! 5) = []"
    by code_simp+
  have tm: "toastElement \<lparr>toastElement = Some 7, messageElement = Some 8, closeButton = Some 9\<rparr>
              = getElementById (doc passingForm) ''toast''"
      "messageElement \<lparr>toastElement = Some 7, messageElement = Some 8, closeButton = Some 9\<rparr>
              = getElementById (doc passingForm) ''toastMessage''"
    by (simp_all add: p)
  from valid_submission_prepares_links[OF p(1) p(2) p(3) p(4) tm]
  obtain a' ec wm en ep where r:
      "handleSubmit mondayIST passingForm = Inr a'"
      "overlays (doc a') = overlays (doc passingForm) @ [(whatsappPrefix @ wm, mailtoPrefix @ ec)]"
      "encodeURIComponent (patientName passingData) = Some en"
      "encodeURIComponent (phoneNumber passingData) = Some ep"
      "sublist en (mailtoPrefix @ ec)" "sublist ep (mailtoPrefix @ ec)"
      "sublist en (whatsappPrefix @ wm)" "sublist ep (whatsappPrefix @ wm)"
      "\<forall>t m. getElementById (doc passingForm) ''toast'' = Some t \<longrightarrow>
            getElementById (doc passingForm) ''toastMessage'' = Some m \<longrightarrow>
        textContent (elements (doc a') ! m) =
          str ''Appointment request prepared! Choose your preferred contact method.'' \<and>
        hasClass (elements (doc a') ! t) ''show'' \<and>
        style (elements (doc a') ! t) ''background'' = ''var(--color-success)'' \<and>
        timers a' = timers passingForm @ [(ToastHide, 5000)]"
      "\<forall>k \<in> set (formControls (doc passingForm) 0).
        inputValue (elements (doc a') ! k) = defaultValue (elements (doc passingForm) ! k)"
    by blast
  have en: "en = str ''Asha%20Rao''" and ep: "ep = str ''9876543210''"
    using r(3,4) by (simp_all add: p)
  have toast: "textContent (elements (doc a') ! 8) =
        str ''Appointment request prepared! Choose your preferred contact method.''"
      "hasClass (elements (doc a') ! 7) ''show''"
    using r(9) p(5,6) by blast+
  have reset: "inputValue (elements (doc a') ! 1) = []" "inputValue (elements (doc a') ! 3) = []"
      "inputValue (elements (doc a') ! 5) = []"
    using r(10) d by (simp_all add: p)
  show ?thesis
    using r(1,2,5-8) toast reset unfolding en ep p(11) by auto
qed

text \<open>
  C3, the words \<open>clears the form fields\<close>.  On the page whose service selector has the default
  \<open>consultation\<close>, a submission that passes validation opens the dialog and leaves the
  selector at \<open>consultation\<close>, not empty: the fields are reset, and only those without a
  default are cleared.
\<close>

theorem valid_submission_restores_defaults:
  "getFormData presetForm = Inr presetData \<and>
   isValid (validateForm mondayIST presetData) \<and>
   \<not> isl (handleSubmit mondayIST presetForm) \<and>
   length (overlays (doc (projr (handleSubmit mondayIST presetForm)))) = 1 \<and>
   map inputValue (elements (doc (projr (handleSubmit mondayIST presetForm)))) =
     [[], [], [], str ''consultation'', [], []]"
  by (intro conjI; code_simp)

section \<open>The accordion\<close>

subsection \<open>The answer of a question, and the loop that closes the others\<close>

lemma parentElement_cong:
  assumes "map depth (elements d) = map depth (elements d')" and "j < length (elements d)"
  shows "parentElement d j = parentElement d' j"
proof -
  have "filter (\<lambda>i. depth (elements d ! i) < depth (elements d ! j)) (rev [0 ..< j])
      = filter (\<lambda>i. depth (elements d' ! i) < depth (elements d' ! j)) (rev [0 ..< j])"
    using assms(2) nth_of_map_eq[OF assms(1)] by (intro filter_cong) auto
  then show ?thesis by (simp add: parentElement_def)
qed

lemma hasClass_cong:
  "map classList (elements d) = map classList (elements d') \<Longrightarrow> k < length (elements d) \<Longrightarrow>
   hasClass (elements d ! k) c = hasClass (elements d' ! k) c"
  using nth_of_map_eq[of classList "elements d" "elements d'" k] by (simp add: hasClass_def)

lemma descendantsOf_bound: "j \<in> set (descendantsOf d x) \<Longrightarrow> j < length (elements d)"
  by (cases x) (auto dest: descendants_bound)

lemma descendantsOf_cong:
  assumes "map depth (elements d) = map depth (elements d')"
  shows "descendantsOf d x = descendantsOf d' x"
proof (cases x)
  case Body
  then show ?thesis
    using length_of_map_eq[OF assms] by simp
next
  case (Node i)
  then show ?thesis
    using descendants_cong[OF assms, of i] by simp
qed

lemma querySelector_class_in_cong:
  assumes "map depth (elements d) = map depth (elements d')"
    and "map classList (elements d) = map classList (elements d')"
  shows "querySelector_class_in d x c = querySelector_class_in d' x c"
proof -
  have "filter (\<lambda>k. hasClass (elements d ! k) c) (descendantsOf d' x)
      = filter (\<lambda>k. hasClass (elements d' ! k) c) (descendantsOf d' x)"
    by (rule filter_cong[OF refl])
       (metis assms(1,2) descendantsOf_bound hasClass_cong length_of_map_eq)
  then show ?thesis
    by (simp add: querySelector_class_in_def descendantsOf_cong[OF assms(1)])
qed

lemma faqAnswer_cong:
  assumes "map depth (elements d) = map depth (elements d')"
    and "map classList (elements d) = map classList (elements d')"
    and "b < length (elements d)"
  shows "faqAnswer d b = faqAnswer d' b"
  using querySelector_class_in_cong[OF assms(1,2)]
  by (simp add: faqAnswer_def parentElement_cong[OF assms(1,3)])

lemma querySelectorAll_class_cong:
  assumes "map classList (elements d) = map classList (elements d')"
  shows "querySelectorAll_class d c = querySelectorAll_class d' c"
proof -
  have len: "length (elements d) = length (elements d')"
    using assms by (rule length_of_map_eq)
  have "filter (\<lambda>k. hasClass (elements d ! k) c) [0 ..< length (elements d)]
      = filter (\<lambda>k. hasClass (elements d' ! k) c) [0 ..< length (elements d)]"
    by (rule filter_cong[OF refl]) (simp add: hasClass_cong[OF assms])
  then show ?thesis by (simp add: querySelectorAll_class_def len)
qed

lemma querySelectorAll_class_props:
  "distinct (querySelectorAll_class d c)"
  "q \<in> set (querySelectorAll_class d c) \<Longrightarrow> q < length (elements d)"
  by (simp_all add: querySelectorAll_class_def)

lemma closeOther_keeps:
  "(\<And>x v. g (x\<lparr>attributes := v\<rparr>) = g x) \<Longrightarrow> (\<And>x v. g (x\<lparr>style := v\<rparr>) = g x) \<Longrightarrow>
   map g (elements (closeOther b o' d)) = map g (elements d)"
  by (simp add: closeOther_def setters map_updateElement Let_def split: option.splits)

lemma fold_closeOther_keeps:
  "(\<And>x v. g (x\<lparr>attributes := v\<rparr>) = g x) \<Longrightarrow> (\<And>x v. g (x\<lparr>style := v\<rparr>) = g x) \<Longrightarrow>
   map g (elements (fold (closeOther b) qs d)) = map g (elements d)"
  by (induction qs arbitrary: d) (simp_all add: closeOther_keeps)

lemma length_closeOther [simp]:
  "length (elements (closeOther b o' d)) = length (elements d)"
  by (rule length_of_map_eq[of depth]) (simp add: closeOther_keeps)

lemma length_fold_closeOther [simp]:
  "length (elements (fold (closeOther b) qs d)) = length (elements d)"
  by (rule length_of_map_eq[of depth]) (simp add: fold_closeOther_keeps)

lemma setStyle_attr [simp]:
  "getAttribute (setStyle k p v d) j a = getAttribute d j a"
  by (simp add: getAttribute_def setStyle_def nth_updateElement)

lemma setAttribute_attr:
  "getAttribute (setAttribute k a v d) j a' =
     (if j = k \<and> k < length (elements d) \<and> a' = a then Some v else getAttribute d j a')"
  by (simp add: getAttribute_def setAttribute_def nth_updateElement)

lemma setAttribute_style [simp]:
  "style (elements (setAttribute k a v d) ! j) = style (elements d ! j)"
  by (simp add: setAttribute_def nth_updateElement)

lemma closeOther_attr:
  "getAttribute (closeOther b o' d) j ''aria-expanded'' =
     (if o' \<noteq> b \<and> j = o' \<and> o' < length (elements d) then Some ''false''
      else getAttribute d j ''aria-expanded'')"
  by (simp add: closeOther_def Let_def setAttribute_attr split: option.splits)

lemma fold_closeOther_attr:
  "getAttribute (fold (closeOther b) qs d) j ''aria-expanded'' =
     (if j \<in> set qs \<and> j \<noteq> b \<and> j < length (elements d) then Some ''false''
      else getAttribute d j ''aria-expanded'')"
  by (induction qs arbitrary: d) (auto simp: closeOther_attr)

lemma faqAnswer_closeOther:
  "j < length (elements d) \<Longrightarrow> faqAnswer (closeOther b o' d) j = faqAnswer d j"
  by (rule faqAnswer_cong) (simp_all add: closeOther_keeps)

lemma faqAnswer_bound: "faqAnswer d b = Some k \<Longrightarrow> k < length (elements d)"
proof -
  assume "faqAnswer d b = Some k"
  then obtain ks where "filter (\<lambda>k. hasClass (elements d ! k) ''faq-answer'')
                          (descendantsOf d (parentElement d b)) = k # ks"
    by (auto simp: faqAnswer_def querySelector_class_in_def split: list.splits)
  then have "k \<in> set (filter (\<lambda>k. hasClass (elements d ! k) ''faq-answer'')
                      (descendantsOf d (parentElement d b)))"
    by simp
  then show ?thesis
    by (auto dest: descendantsOf_bound)
qed


lemma closeOther_style:
  "o' < length (elements d) \<Longrightarrow>
   style (elements (closeOther b o' d) ! j) ''maxHeight'' =
     (if o' \<noteq> b \<and> faqAnswer d o' = Some j then ''0''
      else style (elements d ! j) ''maxHeight'')"
proof -
  assume o: "o' < length (elements d)"
  have fa: "faqAnswer (setAttribute o' ''aria-expanded'' ''false'' d) o' = faqAnswer d o'"
    by (rule faqAnswer_cong) (simp_all add: setters map_updateElement o)
  show ?thesis
  proof (cases "faqAnswer d o'")
    case None
    then show ?thesis by (simp add: closeOther_def Let_def fa)
  next
    case (Some oa)
    then have "oa < length (elements d)" by (rule faqAnswer_bound)
    with Some show ?thesis
      by (auto simp: closeOther_def Let_def fa setStyle_style)
  qed
qed

lemma fold_closeOther_style:
  "(\<And>q. q \<in> set qs \<Longrightarrow> q < length (elements d)) \<Longrightarrow>
   style (elements (fold (closeOther b) qs d) ! j) ''maxHeight'' =
     (if \<exists>q \<in> set qs. q \<noteq> b \<and> faqAnswer d q = Some j then ''0''
      else style (elements d ! j) ''maxHeight'')"
proof (induction qs arbitrary: d)
  case Nil
  show ?case by simp
next
  case (Cons q qs)
  have q: "q < length (elements d)"
    using Cons.prems by simp
  have fa: "faqAnswer (closeOther b q d) r = faqAnswer d r" if "r \<in> set qs" for r
    using Cons.prems[of r] that by (simp add: faqAnswer_closeOther)
  have "style (elements (fold (closeOther b) qs (closeOther b q d)) ! j) ''maxHeight'' =
     (if \<exists>r \<in> set qs. r \<noteq> b \<and> faqAnswer (closeOther b q d) r = Some j then ''0''
      else style (elements (closeOther b q d) ! j) ''maxHeight'')"
    by (rule Cons.IH) (simp add: Cons.prems)
  then show ?case
    using fa by (auto simp: closeOther_style[OF q])
qed

lemma filter_at_most_one:
  "distinct qs \<Longrightarrow> (\<And>q. q \<in> set qs \<Longrightarrow> P q \<Longrightarrow> q = b) \<Longrightarrow> length (filter P qs) \<le> 1"
proof (induction qs)
  case Nil
  show ?case by simp
next
  case (Cons q qs)
  show ?case
  proof (cases "P q")
    case True
    then have qb: "q = b" using Cons.prems(2) by simp
    have "\<not> P x" if "x \<in> set qs" for x
    proof
      assume "P x"
      with that have "x = b" using Cons.prems(2) by simp
      with qb that Cons.prems(1) show False by simp
    qed
    then have "filter P qs = []"
      by (simp add: filter_empty_conv)
    with True show ?thesis by simp
  next
    case False
    with Cons show ?thesis by simp
  qed
qed

subsection \<open>One toggle, and sequences of toggles\<close>

lemma toggleFAQ_None: "faqAnswer (doc a) b = None \<Longrightarrow> toggleFAQ b a = a"
  by (simp add: toggleFAQ_def)

lemma toggleFAQ_Some:
  "faqAnswer (doc a) b = Some ans \<Longrightarrow>
   toggleFAQ b a =
     a\<lparr>doc :=
        (if getAttribute (doc a) b ''aria-expanded'' = Some ''true''
         then setStyle ans ''maxHeight'' ''0''
                (setAttribute b ''aria-expanded'' ''false''
                   (fold (closeOther b) (faqQuestions a) (doc a)))
         else setStyle ans ''maxHeight''
                (decimal (scrollHeight (elements (doc a) ! ans)) @ ''px'')
                (setAttribute b ''aria-expanded'' ''true''
                   (fold (closeOther b) (faqQuestions a) (doc a))))\<rparr>"
proof -
  assume ans: "faqAnswer (doc a) b = Some ans"
  have "scrollHeight (elements (setAttribute b ''aria-expanded'' ''true''
           (fold (closeOther b) (faqQuestions a) (doc a))) ! ans)
      = scrollHeight (elements (doc a) ! ans)"
    using faqAnswer_bound[OF ans]
    by (intro nth_of_map_eq) (simp_all add: setters map_updateElement fold_closeOther_keeps)
  with ans show ?thesis
    by (simp add: toggleFAQ_def Let_def)
qed

lemma toggleFAQ_keeps:
  "(\<And>x v. g (x\<lparr>attributes := v\<rparr>) = g x) \<Longrightarrow> (\<And>x v. g (x\<lparr>style := v\<rparr>) = g x) \<Longrightarrow>
   map g (elements (doc (toggleFAQ b a))) = map g (elements (doc a))"
  by (cases "faqAnswer (doc a) b")
     (simp_all add: toggleFAQ_None toggleFAQ_Some setters map_updateElement fold_closeOther_keeps)

lemma toggleFAQ_questions [simp]: "faqQuestions (toggleFAQ b a) = faqQuestions a"
  by (cases "faqAnswer (doc a) b") (simp_all add: toggleFAQ_None toggleFAQ_Some)

lemma toggleFAQ_wired:
  "faqQuestions a = querySelectorAll_class (doc a) ''faq-question'' \<Longrightarrow>
   faqQuestions (toggleFAQ b a) = querySelectorAll_class (doc (toggleFAQ b a)) ''faq-question''"
  using querySelectorAll_class_cong[of "doc (toggleFAQ b a)" "doc a" "''faq-question''"]
  by (simp add: toggleFAQ_keeps)

lemma toggleFAQ_answers:
  "q < length (elements (doc a)) \<Longrightarrow> faqAnswer (doc (toggleFAQ b a)) q = faqAnswer (doc a) q"
  by (rule faqAnswer_cong[symmetric]) (simp_all add: toggleFAQ_keeps)

lemma toggleFAQ_effect:
  assumes w: "faqQuestions a = querySelectorAll_class (doc a) ''faq-question''"
    and b: "b \<in> set (faqQuestions a)"
    and ans: "faqAnswer (doc a) b = Some ans"
  shows "\<And>q. q \<in> set (faqQuestions a) \<Longrightarrow> q \<noteq> b \<Longrightarrow>
           getAttribute (doc (toggleFAQ b a)) q ''aria-expanded'' = Some ''false''"
    and "getAttribute (doc (toggleFAQ b a)) b ''aria-expanded'' =
           Some (if getAttribute (doc a) b ''aria-expanded'' = Some ''true''
                 then ''false'' else ''true'')"
    and "\<And>q qa. q \<in> set (faqQuestions a) \<Longrightarrow> q \<noteq> b \<Longrightarrow> faqAnswer (doc a) q = Some qa \<Longrightarrow>
           qa \<noteq> ans \<Longrightarrow> style (elements (doc (toggleFAQ b a)) ! qa) ''maxHeight'' = ''0''"
    and "getAttribute (doc a) b ''aria-expanded'' = Some ''true'' \<Longrightarrow>
           style (elements (doc (toggleFAQ b a)) ! ans) ''maxHeight'' = ''0''"
    and "expandedCount (toggleFAQ b a) \<le> 1"
proof -
  have valid: "q < length (elements (doc a))" if "q \<in> set (faqQuestions a)" for q
    using that w querySelectorAll_class_props(2) by metis
  have dist: "distinct (faqQuestions a)"
    using w querySelectorAll_class_props(1) by metis
  note t = toggleFAQ_Some[OF ans]
  show others: "getAttribute (doc (toggleFAQ b a)) q ''aria-expanded'' = Some ''false''"
    if "q \<in> set (faqQuestions a)" "q \<noteq> b" for q
    using that valid[OF that(1)]
    by (simp add: t setAttribute_attr fold_closeOther_attr)
  show "getAttribute (doc (toggleFAQ b a)) b ''aria-expanded'' =
           Some (if getAttribute (doc a) b ''aria-expanded'' = Some ''true''
                 then ''false'' else ''true'')"
    using valid[OF b] by (simp add: t setAttribute_attr)
  show "style (elements (doc (toggleFAQ b a)) ! qa) ''maxHeight'' = ''0''"
    if "q \<in> set (faqQuestions a)" "q \<noteq> b" "faqAnswer (doc a) q = Some qa" "qa \<noteq> ans" for q qa
  proof -
    have "style (elements (fold (closeOther b) (faqQuestions a) (doc a)) ! qa) ''maxHeight'' = ''0''"
      using that(1-3) by (subst fold_closeOther_style) (auto simp: valid)
    then show ?thesis
      using that(4) by (simp add: t setStyle_style)
  qed
  show "style (elements (doc (toggleFAQ b a)) ! ans) ''maxHeight'' = ''0''"
    if "getAttribute (doc a) b ''aria-expanded'' = Some ''true''"
    using that faqAnswer_bound[OF ans] by (simp add: t setStyle_style)
  show "expandedCount (toggleFAQ b a) \<le> 1"
    unfolding expandedCount_def toggleFAQ_questions
  proof (rule filter_at_most_one[OF dist, of _ b])
    fix q
    assume "q \<in> set (faqQuestions a)"
      and "getAttribute (doc (toggleFAQ b a)) q ''aria-expanded'' = Some ''true''"
    with others[of q] show "q = b" by auto
  qed
qed

lemma toggleFAQ_count:
  assumes "faqQuestions a = querySelectorAll_class (doc a) ''faq-question''"
    and "b \<in> set (faqQuestions a)" and "expandedCount a \<le> 1"
  shows "expandedCount (toggleFAQ b a) \<le> 1"
proof (cases "faqAnswer (doc a) b")
  case None
  then show ?thesis using assms(3) by (simp add: toggleFAQ_None)
next
  case (Some ans)
  then show ?thesis by (rule toggleFAQ_effect(5)[OF assms(1,2)])
qed

lemma fold_toggleFAQ_inv:
  "faqQuestions a = querySelectorAll_class (doc a) ''faq-question'' \<Longrightarrow>
   faqQuestions (fold toggleFAQ bs a) = faqQuestions a \<and>
   faqQuestions (fold toggleFAQ bs a) =
     querySelectorAll_class (doc (fold toggleFAQ bs a)) ''faq-question'' \<and>
   (\<forall>q \<in> set (faqQuestions a).
      faqAnswer (doc (fold toggleFAQ bs a)) q = faqAnswer (doc a) q)"
proof (induction bs arbitrary: a)
  case Nil
  then show ?case by simp
next
  case (Cons b bs)
  have ih: "faqQuestions (fold toggleFAQ bs (toggleFAQ b a)) = faqQuestions (toggleFAQ b a)"
    "faqQuestions (fold toggleFAQ bs (toggleFAQ b a)) =
       querySelectorAll_class (doc (fold toggleFAQ bs (toggleFAQ b a))) ''faq-question''"
    "\<And>q. q \<in> set (faqQuestions (toggleFAQ b a)) \<Longrightarrow>
       faqAnswer (doc (fold toggleFAQ bs (toggleFAQ b a))) q = faqAnswer (doc (toggleFAQ b a)) q"
    using Cons.IH[OF toggleFAQ_wired[OF Cons.prems, of b]] by blast+
  have one: "faqAnswer (doc (toggleFAQ b a)) q = faqAnswer (doc a) q"
    if "q \<in> set (faqQuestions a)" for q
  proof -
    have "q < length (elements (doc a))"
      using that Cons.prems querySelectorAll_class_props(2) by metis
    then show ?thesis by (rule toggleFAQ_answers)
  qed
  have 1: "faqQuestions (fold toggleFAQ (b # bs) a) = faqQuestions a"
    using ih(1) by simp
  have 2: "faqQuestions (fold toggleFAQ (b # bs) a) =
     querySelectorAll_class (doc (fold toggleFAQ (b # bs) a)) ''faq-question''"
    using ih(2) by simp
  have 3: "faqAnswer (doc (fold toggleFAQ (b # bs) a)) q = faqAnswer (doc a) q"
    if "q \<in> set (faqQuestions a)" for q
    using ih(3)[of q] one[OF that] that by simp
  from 1 2 3 show ?case by blast
qed

lemma fold_toggleFAQ_count:
  assumes w: "faqQuestions a = querySelectorAll_class (doc a) ''faq-question''"
    and bs: "set bs \<subseteq> set (faqQuestions a)"
  shows "expandedCount a \<le> 1 \<Longrightarrow> expandedCount (fold toggleFAQ bs a) \<le> 1"
    and "bs \<noteq> [] \<Longrightarrow> (\<forall>q \<in> set (faqQuestions a). faqAnswer (doc a) q \<noteq> None) \<Longrightarrow>
           expandedCount (fold toggleFAQ bs a) \<le> 1"
proof -
  note i = fold_toggleFAQ_inv[OF w]
  note inv1 = i[THEN conjunct1]
  note inv2 = i[THEN conjunct2, THEN conjunct1]
  note inv3 = i[THEN conjunct2, THEN conjunct2, rule_format]
  show "expandedCount (fold toggleFAQ bs a) \<le> 1" if "expandedCount a \<le> 1"
    using bs that
  proof (induction bs rule: rev_induct)
    case Nil
    then show ?case by simp
  next
    case (snoc b bs)
    have c: "expandedCount (fold toggleFAQ bs a) \<le> 1"
      using snoc by simp
    have m: "b \<in> set (faqQuestions (fold toggleFAQ bs a))"
      using snoc.prems(1) by (simp add: inv1)
    have "expandedCount (toggleFAQ b (fold toggleFAQ bs a)) \<le> 1"
      by (rule toggleFAQ_count[OF inv2 m c])
    then show ?case by simp
  qed
  show "expandedCount (fold toggleFAQ bs a) \<le> 1"
    if ne: "bs \<noteq> []" and allans: "\<forall>q \<in> set (faqQuestions a). faqAnswer (doc a) q \<noteq> None"
  proof -
    obtain bs' b where s: "bs = bs' @ [b]"
      using ne by (cases bs rule: rev_cases) simp_all
    have b: "b \<in> set (faqQuestions a)"
      using bs s by simp
    have "faqAnswer (doc a) b \<noteq> None"
      using allans b by blast
    then obtain ans where ans: "faqAnswer (doc (fold toggleFAQ bs' a)) b = Some ans"
      unfolding inv3[OF b, of bs', symmetric] by blast
    have m: "b \<in> set (faqQuestions (fold toggleFAQ bs' a))"
      using b by (simp add: inv1)
    have "expandedCount (toggleFAQ b (fold toggleFAQ bs' a)) \<le> 1"
      by (rule toggleFAQ_effect(5)[OF inv2 m ans])
    then show ?thesis by (simp add: s)
  qed
qed

text \<open>
  C6, as the code has it.  The answer of a question is the first element of class
  \<open>faq-answer\<close> inside the parent of the question.  Toggling a question that has an answer
  sets \<open>aria-expanded\<close> to \<open>false\<close> on every other question and collapses their answers (an
  answer element that is also the answer of the toggled question is set by the toggle
  itself); the question itself opens if it was closed and closes (its answer collapsed) if
  it was open.  Toggling a question that has no answer changes nothing.  So on an accordion
  whose questions all have answers at most one question is expanded after any non-empty
  sequence of toggles, from any state; and from a state with at most one expanded question
  every sequence of toggles keeps it so, answers or not.
\<close>

theorem accordion_at_most_one_expanded:
  assumes w: "faqQuestions a = querySelectorAll_class (doc a) ''faq-question''"
  shows
    "(\<forall>bs. set bs \<subseteq> set (faqQuestions a) \<longrightarrow> bs \<noteq> [] \<longrightarrow>
        (\<forall>q \<in> set (faqQuestions a). faqAnswer (doc a) q \<noteq> None) \<longrightarrow>
        expandedCount (fold toggleFAQ bs a) \<le> 1) \<and>
     (\<forall>bs. set bs \<subseteq> set (faqQuestions a) \<longrightarrow> expandedCount a \<le> 1 \<longrightarrow>
        expandedCount (fold toggleFAQ bs a) \<le> 1) \<and>
     (\<forall>b ans. b \<in> set (faqQuestions a) \<longrightarrow> faqAnswer (doc a) b = Some ans \<longrightarrow>
        (\<forall>q \<in> set (faqQuestions a). q \<noteq> b \<longrightarrow>
           getAttribute (doc (toggleFAQ b a)) q ''aria-expanded'' = Some ''false'' \<and>
           (\<forall>qa. faqAnswer (doc a) q = Some qa \<longrightarrow> qa \<noteq> ans \<longrightarrow>
              style (elements (doc (toggleFAQ b a)) ! qa) ''maxHeight'' = ''0'')) \<and>
        getAttribute (doc (toggleFAQ b a)) b ''aria-expanded'' =
          Some (if getAttribute (doc a) b ''aria-expanded'' = Some ''true''
                then ''false'' else ''true'') \<and>
        (getAttribute (doc a) b ''aria-expanded'' = Some ''true'' \<longrightarrow>
           style (elements (doc (toggleFAQ b a)) ! ans) ''maxHeight'' = ''0'')) \<and>
     (\<forall>b. faqAnswer (doc a) b = None \<longrightarrow> toggleFAQ b a = a)"
proof (intro conjI allI impI ballI)
  fix bs
  assume "set bs \<subseteq> set (faqQuestions a)" "bs \<noteq> []"
    "\<forall>q \<in> set (faqQuestions a). faqAnswer (doc a) q \<noteq> None"
  then show "expandedCount (fold toggleFAQ bs a) \<le> 1"
    by (rule fold_toggleFAQ_count(2)[OF w])
next
  fix bs
  assume "set bs \<subseteq> set (faqQuestions a)" "expandedCount a \<le> 1"
  then show "expandedCount (fold toggleFAQ bs a) \<le> 1"
    by (rule fold_toggleFAQ_count(1)[OF w])
next
  fix b ans q
  assume b: "b \<in> set (faqQuestions a)" "faqAnswer (doc a) b = Some ans"
    and q: "q \<in> set (faqQuestions a)" "q \<noteq> b"
  show "getAttribute (doc (toggleFAQ b a)) q ''aria-expanded'' = Some ''false''"
    by (rule toggleFAQ_effect(1)[OF w b q])
next
  fix b ans q qa
  assume b: "b \<in> set (faqQuestions a)" "faqAnswer (doc a) b = Some ans"
    and q: "q \<in> set (faqQuestions a)" "q \<noteq> b" "faqAnswer (doc a) q = Some qa" "qa \<noteq> ans"
  show "style (elements (doc (toggleFAQ b a)) ! qa) ''maxHeight'' = ''0''"
    by (rule toggleFAQ_effect(3)[OF w b q])
next
  fix b ans
  assume b: "b \<in> set (faqQuestions a)" "faqAnswer (doc a) b = Some ans"
  show "getAttribute (doc (toggleFAQ b a)) b ''aria-expanded'' =
          Some (if getAttribute (doc a) b ''aria-expanded'' = Some ''true''
                then ''false'' else ''true'')"
    by (rule toggleFAQ_effect(2)[OF w b])
next
  fix b ans
  assume b: "b \<in> set (faqQuestions a)" "faqAnswer (doc a) b = Some ans"
    and e: "getAttribute (doc a) b ''aria-expanded'' = Some ''true''"
  show "style (elements (doc (toggleFAQ b a)) ! ans) ''maxHeight'' = ''0''"
    by (rule toggleFAQ_effect(4)[OF w b e])
next
  fix b
  assume "faqAnswer (doc a) b = None"
  then show "toggleFAQ b a = a"
    by (rule toggleFAQ_None)
qed

lemma faqApp_facts:
  "faqQuestions faqApp = querySelectorAll_class (doc faqApp) ''faq-question''"
  "faqQuestions faqApp = [1, 4, 7]"
  "faqAnswer (doc faqApp) 1 = Some 2"
  "faqAnswer (doc faqApp) 4 = Some 5"
  "faqAnswer (doc faqApp) 7 = Some 8"
  "expandedCount faqApp = 2"
  "getAttribute (doc faqApp) 7 ''aria-expanded'' = Some ''false''"
  "faqAnswer (doc faqApp) (Suc 0) = Some 2"
  by code_simp+

theorem accordion_at_most_one_expanded_witness:
  "expandedCount faqApp = 2 \<and>
   expandedCount (fold toggleFAQ [7, 1, 1, 4] faqApp) \<le> 1 \<and>
   getAttribute (doc (toggleFAQ 7 faqApp)) 1 ''aria-expanded'' = Some ''false'' \<and>
   getAttribute (doc (toggleFAQ 7 faqApp)) 4 ''aria-expanded'' = Some ''false'' \<and>
   getAttribute (doc (toggleFAQ 7 faqApp)) 7 ''aria-expanded'' = Some ''true'' \<and>
   style (elements (doc (toggleFAQ 7 faqApp)) ! 2) ''maxHeight'' = ''0'' \<and>
   style (elements (doc (toggleFAQ 7 faqApp)) ! 5) ''maxHeight'' = ''0''"
proof -
  note f = faqApp_facts
  note t = accordion_at_most_one_expanded[OF f(1)]
  have all: "\<forall>q \<in> set (faqQuestions faqApp). faqAnswer (doc faqApp) q \<noteq> None"
    by (simp add: f(2-))
  have 1: "expandedCount (fold toggleFAQ [7, 1, 1, 4] faqApp) \<le> 1"
    using t[THEN conjunct1, rule_format, of "[7, 1, 1, 4]"] all by (simp add: f(2-))
  note s = t[THEN conjunct2, THEN conjunct2, THEN conjunct1, rule_format, of 7 8]
  have 2: "getAttribute (doc (toggleFAQ 7 faqApp)) 1 ''aria-expanded'' = Some ''false''"
      "getAttribute (doc (toggleFAQ 7 faqApp)) 4 ''aria-expanded'' = Some ''false''"
      "getAttribute (doc (toggleFAQ 7 faqApp)) 7 ''aria-expanded'' = Some ''true''"
      "style (elements (doc (toggleFAQ 7 faqApp)) ! 2) ''maxHeight'' = ''0''"
      "style (elements (doc (toggleFAQ 7 faqApp)) ! 5) ''maxHeight'' = ''0''"
    using s by (simp_all add: f(2-))
  show ?thesis using 1 2 f(6) by simp
qed

text \<open>
  C6, the words \<open>from any state\<close>.  On the page whose third item lacks its answer, with the
  first two questions expanded, a click on the third question returns at the guard on the
  answer, before the loop that closes the others: two questions are expanded after the
  toggle.
\<close>

theorem accordion_toggle_without_answer:
  "wired faqAppNoAnswer \<and>
   faqQuestions faqAppNoAnswer = [1, 4, 7] \<and>
   faqAnswer (doc faqAppNoAnswer) 7 = None \<and>
   expandedCount faqAppNoAnswer = 2 \<and>
   expandedCount (toggleFAQ 7 faqAppNoAnswer) = 2 \<and>
   \<not> isl (run mondayIST [Event (Elem 7) ''click'' (Some 7)] faqAppNoAnswer) \<and>
   expandedCount (projr (run mondayIST [Event (Elem 7) ''click'' (Some 7)] faqAppNoAnswer)) = 2"
  by (intro conjI; code_simp)

section \<open>Controllers without their elements\<close>

lemma fold_addEventListener:
  "fold (\<lambda>q. addEventListener (Elem q) ty h) qs a =
     a\<lparr>listeners := listeners a @ map (\<lambda>q. (Elem q, ty, h)) qs\<rparr>"
  by (induction qs arbitrary: a) (simp_all add: addEventListener_def)

lemma toast_absent:
  assumes "toastInstance a = None"
  shows "getElementById (doc a) ''toast'' = None \<or> getElementById (doc a) ''toastMessage'' = None \<Longrightarrow>
           ToastManager_show (fst (ToastManager_getInstance a)) opts x = x"
    and "getElementById (doc a) ''toast'' = None \<Longrightarrow>
           ToastManager_hide (fst (ToastManager_getInstance a)) x = x"
    and "doc (snd (ToastManager_getInstance a)) = doc a"
    and "timers (snd (ToastManager_getInstance a)) = timers a"
    and "getElementById (doc a) ''toastClose'' = None \<Longrightarrow>
           snd (ToastManager_getInstance a) =
             a\<lparr>toastInstance := Some (fst (ToastManager_getInstance a))\<rparr>"
  using assms
  by (auto simp: ToastManager_getInstance_def ToastManager_new_def ToastManager_show_def
        ToastManager_hide_def addEventListener_def Let_def split: option.splits)

lemma form_absent:
  assumes "getElementById (doc a) ''appointmentForm'' = None"
  shows "AppointmentForm_new e a = snd (ToastManager_getInstance (a\<lparr>form := None\<rparr>))"
    and "form (AppointmentForm_new e a) = None"
  using assms
  by (auto simp: AppointmentForm_new_def initializeForm_def ToastManager_getInstance_def
        ToastManager_new_def addEventListener_def Let_def split: option.splits)

lemma handleSubmit_no_form: "form x = None \<Longrightarrow> handleSubmit e x = Inr (x\<lparr>defaultPrevented := True\<rparr>)"
  by (simp add: handleSubmit_def Let_def)

lemma nav_absent:
  "getElementById (doc a) ''navToggle'' = None \<or> getElementById (doc a) ''navMenu'' = None \<Longrightarrow>
     MobileNavigation_new a =
       a\<lparr>navToggle := getElementById (doc a) ''navToggle'',
          navMenu := getElementById (doc a) ''navMenu''\<rparr>"
  "navToggle x = None \<or> navMenu x = None \<Longrightarrow> toggleMenu x = x"
  "navToggle x = None \<or> navMenu x = None \<Longrightarrow> closeMenu x = x"
  "navToggle x = None \<or> navMenu x = None \<Longrightarrow> documentClick tgt x = x"
  by (auto simp: MobileNavigation_new_def initializeMobileNav_def toggleMenu_def closeMenu_def
        documentClick_def split: option.splits)

lemma cta_absent:
  "getElementById (doc a) ''mobileCta'' = None \<Longrightarrow>
     MobileCTAController_new a = a\<lparr>mobileCTA := None, lastScrollY := 0\<rparr>"
  "mobileCTA x = None \<Longrightarrow> handleResize x = x"
  "mobileCTA x = None \<Longrightarrow> showCTA x = x"
  "mobileCTA x = None \<Longrightarrow> hideCTA x = x"
  "mobileCTA x = None \<Longrightarrow> handleScroll x = x\<lparr>lastScrollY := scrollY (doc x)\<rparr>"
  by (auto simp: MobileCTAController_new_def initializeCTAController_def handleResize_def
        showCTA_def hideCTA_def handleScroll_def Let_def split: option.splits)

lemma setup_absent:
  assumes "getElementById d ''toast'' = None" "getElementById d ''toastMessage'' = None"
    "getElementById d ''toastClose'' = None" "getElementById d ''appointmentForm'' = None"
    "getElementById d ''navToggle'' = None" "getElementById d ''navMenu'' = None"
    "getElementById d ''mobileCta'' = None"
  shows "AayurcureApp_setup e d =
     \<lparr>doc = d,
      listeners = map (\<lambda>q. (Elem q, ''click'', ToggleFAQ)) (querySelectorAll_class d ''faq-question''),
      timers = [], defaultPrevented = False,
      toastInstance = Some \<lparr>toastElement = None, messageElement = None, closeButton = None\<rparr>,
      form = None, faqQuestions = querySelectorAll_class d ''faq-question'',
      navToggle = None, navMenu = None, mobileCTA = None, lastScrollY = 0\<rparr>"
  using assms
  by (simp add: AayurcureApp_setup_def initialApp_def AppointmentForm_new_def initializeForm_def
        ToastManager_getInstance_def ToastManager_new_def FAQAccordion_new_def
        fold_addEventListener MobileNavigation_new_def initializeMobileNav_def
        MobileCTAController_new_def initializeCTAController_def Let_def)

lemma listenersFor_faq:
  "listeners a = map (\<lambda>q. (Elem q, ''click'', ToggleFAQ)) (faqQuestions a) \<Longrightarrow>
   \<not> faqClick a (Event cur ty tgt) \<Longrightarrow> listenersFor a cur ty = []"
  by (auto simp: listenersFor_def faqClick_def filter_empty_conv split: target.splits)

lemma step_inert:
  assumes "listeners a = map (\<lambda>q. (Elem q, ''click'', ToggleFAQ)) (faqQuestions a)"
    and "timers a = []" and "defaultPrevented a = False" and "\<not> faqClick a i"
  shows "step e i a = Inr a"
proof (cases i)
  case (Event cur ty tgt)
  have "a\<lparr>defaultPrevented := False\<rparr> = a"
    using assms(3) by (cases a) simp
  then show ?thesis
    using listenersFor_faq[OF assms(1), of cur ty tgt] assms(4) Event
    by (simp add: step_def)
next
  case (Timer n)
  then show ?thesis using assms(2) by (simp add: step_def)
qed

lemma run_inert:
  assumes "listeners a = map (\<lambda>q. (Elem q, ''click'', ToggleFAQ)) (faqQuestions a)"
    and "timers a = []" and "defaultPrevented a = False"
  shows "list_all (\<lambda>i. \<not> faqClick a i) inputs \<Longrightarrow> run e inputs a = Inr a"
  by (induction inputs) (simp_all add: step_inert[OF assms])

text \<open>
  C7.  A controller whose elements are missing does nothing and throws nothing.  The toast
  manager without its toast or message element shows nothing, and without its toast element
  hides nothing.  The appointment form without the form element registers no listener of its
  own and its submit handler returns at once.  The mobile navigation without its toggle or
  its menu, and the call-to-action controller without its bar, register nothing; their
  operations leave the state as it is.  On a page with none of these elements the
  application starts with the document untouched, and every sequence of events and timers
  (clicks on accordion questions apart) leaves the state unchanged and raises no exception:
  \<open>getFormData\<close>, which throws without a form, is never reached.
\<close>

theorem absent_elements_inert:
  "(toastInstance a = None \<longrightarrow>
      (getElementById (doc a) ''toast'' = None \<or> getElementById (doc a) ''toastMessage'' = None \<longrightarrow>
         (\<forall>opts x. ToastManager_show (fst (ToastManager_getInstance a)) opts x = x)) \<and>
      (getElementById (doc a) ''toast'' = None \<longrightarrow>
         (\<forall>x. ToastManager_hide (fst (ToastManager_getInstance a)) x = x)) \<and>
      (getElementById (doc a) ''toastClose'' = None \<longrightarrow>
         listeners (snd (ToastManager_getInstance a)) = listeners a) \<and>
      doc (snd (ToastManager_getInstance a)) = doc a \<and>
      timers (snd (ToastManager_getInstance a)) = timers a) \<and>
   (getElementById (doc a) ''appointmentForm'' = None \<longrightarrow>
      AppointmentForm_new e a = snd (ToastManager_getInstance (a\<lparr>form := None\<rparr>)) \<and>
      handleSubmit e (AppointmentForm_new e a) =
        Inr ((AppointmentForm_new e a)\<lparr>defaultPrevented := True\<rparr>)) \<and>
   (getElementById (doc a) ''navToggle'' = None \<or> getElementById (doc a) ''navMenu'' = None \<longrightarrow>
      doc (MobileNavigation_new a) = doc a \<and>
      listeners (MobileNavigation_new a) = listeners a \<and>
      timers (MobileNavigation_new a) = timers a \<and>
      toggleMenu (MobileNavigation_new a) = MobileNavigation_new a \<and>
      closeMenu (MobileNavigation_new a) = MobileNavigation_new a \<and>
      (\<forall>tgt. documentClick tgt (MobileNavigation_new a) = MobileNavigation_new a)) \<and>
   (getElementById (doc a) ''mobileCta'' = None \<longrightarrow>
      doc (MobileCTAController_new a) = doc a \<and>
      listeners (MobileCTAController_new a) = listeners a \<and>
      timers (MobileCTAController_new a) = timers a \<and>
      handleResize (MobileCTAController_new a) = MobileCTAController_new a \<and>
      showCTA (MobileCTAController_new a) = MobileCTAController_new a \<and>
      hideCTA (MobileCTAController_new a) = MobileCTAController_new a) \<and>
   (getElementById d ''toast'' = None \<longrightarrow> getElementById d ''toastMessage'' = None \<longrightarrow>
    getElementById d ''toastClose'' = None \<longrightarrow> getElementById d ''appointmentForm'' = None \<longrightarrow>
    getElementById d ''navToggle'' = None \<longrightarrow> getElementById d ''navMenu'' = None \<longrightarrow>
    getElementById d ''mobileCta'' = None \<longrightarrow>
      doc (AayurcureApp_setup e d) = d \<and>
      timers (AayurcureApp_setup e d) = [] \<and>
      listeners (AayurcureApp_setup e d) =
        map (\<lambda>q. (Elem q, ''click'', ToggleFAQ)) (querySelectorAll_class d ''faq-question'') \<and>
      getFormData (AayurcureApp_setup e d) = Inl FormNotFound \<and>
      (\<forall>inputs. list_all (\<lambda>i. \<not> faqClick (AayurcureApp_setup e d) i) inputs \<longrightarrow>
         run e inputs (AayurcureApp_setup e d) = Inr (AayurcureApp_setup e d)))"
proof (intro conjI impI allI)
  assume t: "toastInstance a = None"
  show "doc (snd (ToastManager_getInstance a)) = doc a"
    by (rule toast_absent(3)[OF t])
  show "timers (snd (ToastManager_getInstance a)) = timers a"
    by (rule toast_absent(4)[OF t])
  {
    assume "getElementById (doc a) ''toastClose'' = None"
    then show "listeners (snd (ToastManager_getInstance a)) = listeners a"
      by (simp add: toast_absent(5)[OF t])
  }
  {
    fix opts x
    assume "getElementById (doc a) ''toast'' = None \<or> getElementById (doc a) ''toastMessage'' = None"
    then show "ToastManager_show (fst (ToastManager_getInstance a)) opts x = x"
      by (rule toast_absent(1)[OF t])
  }
  {
    fix x
    assume "getElementById (doc a) ''toast'' = None"
    then show "ToastManager_hide (fst (ToastManager_getInstance a)) x = x"
      by (rule toast_absent(2)[OF t])
  }
next
  assume f: "getElementById (doc a) ''appointmentForm'' = None"
  show "AppointmentForm_new e a = snd (ToastManager_getInstance (a\<lparr>form := None\<rparr>))"
    by (rule form_absent(1)[OF f])
  show "handleSubmit e (AppointmentForm_new e a) =
        Inr ((AppointmentForm_new e a)\<lparr>defaultPrevented := True\<rparr>)"
    by (rule handleSubmit_no_form[OF form_absent(2)[OF f]])
next
  assume n: "getElementById (doc a) ''navToggle'' = None \<or> getElementById (doc a) ''navMenu'' = None"
  note m = nav_absent(1)[OF n]
  have x: "navToggle (MobileNavigation_new a) = None \<or> navMenu (MobileNavigation_new a) = None"
    using n by (auto simp: m)
  show "doc (MobileNavigation_new a) = doc a" "listeners (MobileNavigation_new a) = listeners a"
    "timers (MobileNavigation_new a) = timers a"
    by (simp_all add: m)
  show "toggleMenu (MobileNavigation_new a) = MobileNavigation_new a"
    by (rule nav_absent(2)[OF x])
  show "closeMenu (MobileNavigation_new a) = MobileNavigation_new a"
    by (rule nav_absent(3)[OF x])
  show "documentClick tgt (MobileNavigation_new a) = MobileNavigation_new a" for tgt
    by (rule nav_absent(4)[OF x])
next
  assume c: "getElementById (doc a) ''mobileCta'' = None"
  note m = cta_absent(1)[OF c]
  have x: "mobileCTA (MobileCTAController_new a) = None"
    by (simp add: m)
  show "doc (MobileCTAController_new a) = doc a"
    "listeners (MobileCTAController_new a) = listeners a"
    "timers (MobileCTAController_new a) = timers a"
    by (simp_all add: m)
  show "handleResize (MobileCTAController_new a) = MobileCTAController_new a"
    by (rule cta_absent(2)[OF x])
  show "showCTA (MobileCTAController_new a) = MobileCTAController_new a"
    by (rule cta_absent(3)[OF x])
  show "hideCTA (MobileCTAController_new a) = MobileCTAController_new a"
    by (rule cta_absent(4)[OF x])
next
  assume ab: "getElementById d ''toast'' = None" "getElementById d ''toastMessage'' = None"
    "getElementById d ''toastClose'' = None" "getElementById d ''appointmentForm'' = None"
    "getElementById d ''navToggle'' = None" "getElementById d ''navMenu'' = None"
    "getElementById d ''mobileCta'' = None"
  note s = setup_absent[OF ab, of e]
  show "doc (AayurcureApp_setup e d) = d" "timers (AayurcureApp_setup e d) = []"
    "listeners (AayurcureApp_setup e d) =
        map (\<lambda>q. (Elem q, ''click'', ToggleFAQ)) (querySelectorAll_class d ''faq-question'')"
    "getFormData (AayurcureApp_setup e d) = Inl FormNotFound"
    by (simp_all add: s getFormData_def)
  show "run e inputs (AayurcureApp_setup e d) = Inr (AayurcureApp_setup e d)"
    if "list_all (\<lambda>i. \<not> faqClick (AayurcureApp_setup e d) i) inputs" for inputs
    using that by (intro run_inert) (simp_all add: s)
qed

lemma barePage_facts:
  "getElementById barePage ''toast'' = None" "getElementById barePage ''toastMessage'' = None"
  "getElementById barePage ''toastClose'' = None" "getElementById barePage ''appointmentForm'' = None"
  "getElementById barePage ''navToggle'' = None" "getElementById barePage ''navMenu'' = None"
  "getElementById barePage ''mobileCta'' = None"
  "faqQuestions (AayurcureApp_setup mondayIST barePage) = []"
  by code_simp+

theorem absent_elements_inert_witness:
  "doc (AayurcureApp_setup mondayIST barePage) = barePage \<and>
   listeners (AayurcureApp_setup mondayIST barePage) = [] \<and>
   getFormData (AayurcureApp_setup mondayIST barePage) = Inl FormNotFound \<and>
   run mondayIST
     [Event (Elem 0) ''click'' (Some 0), Event (Elem 0) ''submit'' (Some 0),
      Event (Elem 0) ''blur'' (Some 0), Event Window ''scroll'' None,
      Event Window ''resize'' None, Event Document ''click'' (Some 1), Timer 0]
     (AayurcureApp_setup mondayIST barePage) = Inr (AayurcureApp_setup mondayIST barePage) \<and>
   handleSubmit mondayIST (AppointmentForm_new mondayIST (initialApp barePage)) =
     Inr ((AppointmentForm_new mondayIST (initialApp barePage))\<lparr>defaultPrevented := True\<rparr>) \<and>
   toggleMenu (MobileNavigation_new (initialApp barePage)) = MobileNavigation_new (initialApp barePage) \<and>
   handleResize (MobileCTAController_new (initialApp barePage)) =
     MobileCTAController_new (initialApp barePage)"
proof -
  note b = barePage_facts
  have d: "doc (initialApp barePage) = barePage"
    by (simp add: initialApp_def)
  note t = absent_elements_inert[of "initialApp barePage" mondayIST barePage, unfolded d]
  note tF = t[THEN conjunct2, THEN conjunct1, THEN mp, OF b(4)]
  note tN = t[THEN conjunct2, THEN conjunct2, THEN conjunct1, THEN mp, OF disjI1, OF b(5)]
  note tC = t[THEN conjunct2, THEN conjunct2, THEN conjunct2, THEN conjunct1, THEN mp, OF b(7)]
  note tA = t[THEN conjunct2, THEN conjunct2, THEN conjunct2, THEN conjunct2, rule_format,
      OF b(1-7)]
  have q: "querySelectorAll_class barePage ''faq-question'' = []"
    by code_simp
  have 1: "handleSubmit mondayIST (AppointmentForm_new mondayIST (initialApp barePage)) =
     Inr ((AppointmentForm_new mondayIST (initialApp barePage))\<lparr>defaultPrevented := True\<rparr>)"
    by (rule tF[THEN conjunct2])
  have 2: "toggleMenu (MobileNavigation_new (initialApp barePage)) =
      MobileNavigation_new (initialApp barePage)"
    using tN by blast
  have 3: "handleResize (MobileCTAController_new (initialApp barePage)) =
     MobileCTAController_new (initialApp barePage)"
    using tC by blast
  have 4: "doc (AayurcureApp_setup mondayIST barePage) = barePage"
    "listeners (AayurcureApp_setup mondayIST barePage) = []"
    "getFormData (AayurcureApp_setup mondayIST barePage) = Inl FormNotFound"
    using tA by (simp_all add: q)
  have "list_all (\<lambda>i. \<not> faqClick (AayurcureApp_setup mondayIST barePage) i)
     [Event (Elem 0) ''click'' (Some 0), Event (Elem 0) ''submit'' (Some 0),
      Event (Elem 0) ''blur'' (Some 0), Event Window ''scroll'' None,
      Event Window ''resize'' None, Event Document ''click'' (Some 1), Timer 0]"
    by (simp add: faqClick_def b(8))
  then have 5: "run mondayIST
     [Event (Elem 0) ''click'' (Some 0), Event (Elem 0) ''submit'' (Some 0),
      Event (Elem 0) ''blur'' (Some 0), Event Window ''scroll'' None,
      Event Window ''resize'' None, Event Document ''click'' (Some 1), Timer 0]
     (AayurcureApp_setup mondayIST barePage) = Inr (AayurcureApp_setup mondayIST barePage)"
    using tA by blast
  from 1 2 3 4 5 show ?thesis by blast
qed

section \<open>The states the application reaches\<close>

text \<open>
  The constructors store the elements they look up, and no handler changes an id or the
  class of an accordion question.  So in every state reached from start-up the references
  are the elements of those ids: the assumptions on the toast and on the accordion made by
  the theorems above hold in all of them.
\<close>

lemma sameShape_refl [simp]: "sameShape d d"
  by (simp add: sameShape_def)

lemma sameShape_trans: "sameShape d d' \<Longrightarrow> sameShape d' d'' \<Longrightarrow> sameShape d d''"
  by (simp add: sameShape_def)

lemma sameShape_update:
  "(\<And>x. elemId (f x) = elemId x) \<Longrightarrow>
   (\<And>x. hasClass (f x) ''faq-question'' = hasClass x ''faq-question'') \<Longrightarrow>
   sameShape d (updateElement k f d)"
  by (simp add: sameShape_def map_updateElement)

lemma hasClass_filter: "c \<noteq> q \<Longrightarrow>
  hasClass (x\<lparr>classList := filter (\<lambda>y. y \<noteq> c) (classList x)\<rparr>) q = hasClass x q"
  by (auto simp: hasClass_def)

lemma sameShape_setters:
  "sameShape d (setTextContent k v d)"
  "c \<noteq> ''faq-question'' \<Longrightarrow> sameShape d (addClass k c d)"
  "c \<noteq> ''faq-question'' \<Longrightarrow> sameShape d (removeClass k c d)"
  "c \<noteq> ''faq-question'' \<Longrightarrow> sameShape d (toggleClass k c d)"
  "sameShape d (setStyle k p w d)"
  "sameShape d (setAttribute k p w d)"
  "sameShape d (setValue k v d)"
  "sameShape d (focus k d)"
  "sameShape d (showContactOptions x y d)"
proof -
  show "sameShape d (setTextContent k v d)" "sameShape d (setStyle k p w d)"
    "sameShape d (setAttribute k p w d)" "sameShape d (setValue k v d)"
    by (simp_all add: setters sameShape_update hasClass_def)
  show "sameShape d (focus k d)" "sameShape d (showContactOptions x y d)"
    by (simp_all add: sameShape_def focus_def showContactOptions_def)
  show add: "sameShape d (addClass k c d)" if "c \<noteq> ''faq-question''" for k c d
    unfolding addClass_def using that
    by (intro sameShape_update) (auto simp: hasClass_def split: if_splits)
  show rem: "sameShape d (removeClass k c d)" if "c \<noteq> ''faq-question''" for k c d
    unfolding removeClass_def using that
    by (intro sameShape_update) (auto simp: hasClass_def)
  show "sameShape d (toggleClass k c d)" if "c \<noteq> ''faq-question''"
    using add[OF that] rem[OF that] by (simp add: toggleClass_def)
qed

lemma sameShape_fold:
  "(\<And>k d. sameShape d (F k d)) \<Longrightarrow> sameShape d (fold F ks d)"
proof (induction ks arbitrary: d)
  case Nil
  show ?case by simp
next
  case (Cons k ks)
  show ?case
    using sameShape_trans[OF Cons.prems[of d k] Cons.IH[OF Cons.prems, of "F k d"]] by simp
qed

lemma sameShape_queries:
  assumes "sameShape d d'"
  shows "getElementById d' i = getElementById d i"
    and "querySelectorAll_class d' ''faq-question'' = querySelectorAll_class d ''faq-question''"
proof -
  show "getElementById d' i = getElementById d i"
    using assms by (intro getElementById_cong) (simp add: sameShape_def)
  have len: "length (elements d) = length (elements d')"
    using assms by (intro length_of_map_eq[of elemId]) (simp add: sameShape_def)
  have "filter (\<lambda>k. hasClass (elements d' ! k) ''faq-question'') [0 ..< length (elements d')]
      = filter (\<lambda>k. hasClass (elements d ! k) ''faq-question'') [0 ..< length (elements d')]"
    using assms nth_of_map_eq[of "\<lambda>x. hasClass x ''faq-question''" "elements d" "elements d'"]
    by (intro filter_cong) (auto simp: sameShape_def len)
  then show "querySelectorAll_class d' ''faq-question'' = querySelectorAll_class d ''faq-question''"
    by (simp add: querySelectorAll_class_def len)
qed

lemma wired_step:
  assumes "wired a" and "sameShape (doc a) (doc a')"
    and "toastInstance a' = toastInstance a" "form a' = form a"
    "faqQuestions a' = faqQuestions a" "navToggle a' = navToggle a" "navMenu a' = navMenu a"
    "mobileCTA a' = mobileCTA a"
  shows "wired a'"
  using assms(1,3-) by (simp add: wired_def sameShape_queries[OF assms(2)])

subsection \<open>Every handler keeps the wiring\<close>

lemma keepsWiring_refl [simp]: "keepsWiring a a"
  by (simp add: keepsWiring_def)

lemma keepsWiring_trans: "keepsWiring a b \<Longrightarrow> keepsWiring b c \<Longrightarrow> keepsWiring a c"
  by (auto simp: keepsWiring_def intro: sameShape_trans)

lemma keepsWiring_doc:
  "sameShape (doc a) d' \<Longrightarrow> keepsWiring a (a\<lparr>doc := d'\<rparr>)"
  by (simp add: keepsWiring_def)

lemma keepsWiring_wired: "wired a \<Longrightarrow> keepsWiring a a' \<Longrightarrow> wired a'"
  by (rule wired_step) (simp_all add: keepsWiring_def)

lemma sameShape_clearFormErrors: "sameShape d (clearFormErrors d)"
proof -
  have 1: "sameShape d (fold (\<lambda>k. setTextContent k []) ks d)" for ks d
    by (rule sameShape_fold) (rule sameShape_setters)
  have 2: "sameShape d (fold (\<lambda>k. removeClass k ''error'') ks d)" for ks d
    by (rule sameShape_fold) (rule sameShape_setters, simp)
  show ?thesis
    unfolding clearFormErrors_def Let_def by (rule sameShape_trans[OF 1 2])
qed

lemma sameShape_displayError1: "sameShape d (displayError1 fm d)"
proof -
  have 1: "sameShape d (addClass k ''error'' d)" for k d
    by (rule sameShape_setters) simp
  have 2: "sameShape d (addClass k ''error'' (setTextContent j v d))" for k j v
    by (rule sameShape_trans[OF sameShape_setters(1) 1])
  show ?thesis
    by (simp add: displayError1_def Let_def 1 2 sameShape_setters(1) split: option.splits)
qed

lemma sameShape_displayErrors: "sameShape d (displayErrors errs d)"
  unfolding displayErrors_def by (rule sameShape_fold) (rule sameShape_displayError1)

lemma sameShape_form_reset: "sameShape d (form_reset f d)"
  unfolding form_reset_def
  by (rule sameShape_fold) (rule sameShape_update, simp_all add: hasClass_def)

lemma keepsWiring_show: "keepsWiring a (ToastManager_show tm opts a)"
proof -
  have 1: "sameShape d (addClass t ''show'' d)" for t d
    by (rule sameShape_setters) simp
  have "sameShape (doc a) (addClass t ''show'' (setStyle t p w (setTextContent m v (doc a))))"
    for t p w m v
    by (rule sameShape_trans[OF sameShape_setters(1) sameShape_trans[OF sameShape_setters(5) 1]])
  then show ?thesis
    by (simp add: ToastManager_show_def keepsWiring_def Let_def split: option.splits)
qed

lemma keepsWiring_hide: "keepsWiring a (ToastManager_hide tm a)"
proof -
  have "sameShape d (removeClass t ''show'' d)" for t d
    by (rule sameShape_setters) simp
  then show ?thesis
    by (simp add: ToastManager_hide_def keepsWiring_def split: option.splits)
qed

lemma keepsWiring_handleSubmit:
  assumes "handleSubmit e a = Inr a'"
  shows "keepsWiring a a'"
proof (cases "form a")
  case None
  with assms show ?thesis
    by (auto simp: handleSubmit_def Let_def keepsWiring_def)
next
  case (Some f)
  let ?a1 = "a\<lparr>defaultPrevented := True, doc := clearFormErrors (doc a)\<rparr>"
  have k1: "keepsWiring a ?a1"
    by (simp add: keepsWiring_def sameShape_clearFormErrors)
  obtain fd where fd: "getFormData a = Inr fd"
    using Some by (simp add: getFormData_def)
  show ?thesis
  proof (cases "isValid (validateForm e fd)")
    case False
    let ?d2 = "displayErrors (errors (validateForm e fd)) (clearFormErrors (doc a))"
    let ?d3 = "case (case errors (validateForm e fd) of [] \<Rightarrow> None
                     | fm # _ \<Rightarrow> getElementById ?d2 (fst fm)) of
                 None \<Rightarrow> ?d2 | Some k \<Rightarrow> focus k ?d2"
    have "sameShape (doc ?a1) ?d2"
      using sameShape_displayErrors[of "clearFormErrors (doc a)"] by simp
    moreover have "sameShape ?d2 ?d3"
      by (simp add: sameShape_setters split: option.splits)
    ultimately have "sameShape (doc ?a1) ?d3"
      by (rule sameShape_trans)
    then have "keepsWiring ?a1 (?a1\<lparr>doc := ?d3\<rparr>)"
      by (rule keepsWiring_doc)
    then have k2: "keepsWiring ?a1 (a\<lparr>defaultPrevented := True, doc := ?d3\<rparr>)"
      by simp
    have "a' = ToastManager_show (theToast a)
           \<lparr>toast_message = str ''Please fix the errors below'',
            toast_type = T_error, toast_duration = None\<rparr>
           (a\<lparr>defaultPrevented := True, doc := ?d3\<rparr>)"
      using assms unfolding handleSubmit_invalid[OF fd False] by (simp add: Let_def)
    then show ?thesis
      using keepsWiring_trans[OF k1 keepsWiring_trans[OF k2 keepsWiring_show]] by simp
  next
    case True
    obtain ec wm where l: "generateEmailContent e fd = Some ec"
        "generateWhatsAppMessage fd = Some wm"
      using links_contain[OF fd, of e] by blast
    let ?a2 = "ToastManager_show (theToast a)
           \<lparr>toast_message = str ''Appointment request prepared! Choose your preferred contact method.'',
            toast_type = T_success, toast_duration = None\<rparr> ?a1"
    let ?d3 = "form_reset f (showContactOptions (mailtoPrefix @ ec) (whatsappPrefix @ wm) (doc ?a2))"
    have "sameShape (doc ?a2) ?d3"
      by (rule sameShape_trans[OF sameShape_setters(9) sameShape_form_reset])
    then have k3: "keepsWiring ?a2 (?a2\<lparr>doc := ?d3\<rparr>)"
      by (rule keepsWiring_doc)
    have "a' = ?a2\<lparr>doc := ?d3\<rparr>"
      using assms unfolding handleSubmit_valid[OF fd Some True l] by simp
    then show ?thesis
      using keepsWiring_trans[OF k1 keepsWiring_trans[OF keepsWiring_show k3]] by simp
  qed
qed

lemma keepsWiring_validateField:
  assumes "validateField e fieldName a = Inr a'"
  shows "keepsWiring a a'"
proof -
  have r: "sameShape d (removeClass k ''error'' d)" and ad: "sameShape d (addClass k ''error'' d)"
    for k d
    by (rule sameShape_setters, simp)+
  have 1: "keepsWiring a (a\<lparr>doc := removeClass ie ''error'' (setTextContent ee v (doc a))\<rparr>)"
    for ie ee v
    by (rule keepsWiring_doc) (rule sameShape_trans[OF sameShape_setters(1) r])
  have 2: "keepsWiring a (a\<lparr>doc := addClass ie ''error'' (setTextContent ee v (doc a))\<rparr>)"
    for ie ee v
    by (rule keepsWiring_doc) (rule sameShape_trans[OF sameShape_setters(1) ad])
  show ?thesis
    using assms 1 2
    by (auto simp: validateField_def Let_def split: sum.splits option.splits if_splits)
qed

lemma sameShape_closeOther: "sameShape d (closeOther b q d)"
proof -
  have "sameShape d (setStyle k p w (setAttribute q x v d))" for k p w x v
    by (rule sameShape_trans[OF sameShape_setters(6) sameShape_setters(5)])
  then show ?thesis
    by (simp add: closeOther_def Let_def sameShape_setters(6) split: option.splits)
qed

lemma keepsWiring_toggleFAQ: "keepsWiring a (toggleFAQ b a)"
proof (cases "faqAnswer (doc a) b")
  case None
  then show ?thesis by (simp add: toggleFAQ_None)
next
  case (Some ans)
  have f: "sameShape (doc a) (fold (closeOther b) (faqQuestions a) (doc a))"
    by (rule sameShape_fold) (rule sameShape_closeOther)
  have "sameShape (doc a) (setStyle ans p w (setAttribute b q v
          (fold (closeOther b) (faqQuestions a) (doc a))))" for p w q v
    by (rule sameShape_trans[OF f sameShape_trans[OF sameShape_setters(6) sameShape_setters(5)]])
  then show ?thesis
    by (simp add: toggleFAQ_Some[OF Some] keepsWiring_def)
qed

lemma keepsWiring_menu:
  "keepsWiring a (toggleMenu a)" "keepsWiring a (closeMenu a)" "keepsWiring a (documentClick tgt a)"
proof -
  have t1: "sameShape d (toggleClass k ''active'' d)" and r1: "sameShape d (removeClass k ''active'' d)"
    for k d
    by (rule sameShape_setters, simp)+
  have t: "sameShape (doc a) (toggleClass t ''active'' (toggleClass m ''active'' (doc a)))" for t m
    by (rule sameShape_trans[OF t1 t1])
  have r: "sameShape (doc a) (removeClass t ''active'' (removeClass m ''active'' (doc a)))" for t m
    by (rule sameShape_trans[OF r1 r1])
  show "keepsWiring a (toggleMenu a)"
    using t by (simp add: toggleMenu_def keepsWiring_def split: option.splits)
  show c: "keepsWiring a (closeMenu a)"
    using r by (simp add: closeMenu_def keepsWiring_def split: option.splits)
  show "keepsWiring a (documentClick tgt a)"
    using c by (simp add: documentClick_def)
qed

lemma keepsWiring_cta:
  "keepsWiring a (handleResize a)" "keepsWiring a (handleScroll a)"
proof -
  show "keepsWiring a (handleResize a)"
    by (simp add: handleResize_def keepsWiring_def sameShape_setters split: option.splits)
  have s: "keepsWiring a (showCTA a)" "keepsWiring a (hideCTA a)"
    by (simp_all add: showCTA_def hideCTA_def keepsWiring_def sameShape_setters split: option.splits)
  have "keepsWiring a (x\<lparr>lastScrollY := y\<rparr>)" if "keepsWiring a x" for x y
    using that by (simp add: keepsWiring_def)
  then show "keepsWiring a (handleScroll a)"
    using s by (simp add: handleScroll_def Let_def)
qed

lemma keepsWiring_runHandler:
  "runHandler e h cur tgt a = Inr a' \<Longrightarrow> keepsWiring a a'"
proof (cases h)
  case HandleSubmit
  assume "runHandler e h cur tgt a = Inr a'"
  with HandleSubmit show ?thesis by (simp add: runHandler_def keepsWiring_handleSubmit)
next
  case (ValidateField f)
  assume "runHandler e h cur tgt a = Inr a'"
  with ValidateField show ?thesis by (simp add: runHandler_def keepsWiring_validateField)
next
  case FormatPhoneInput
  assume "runHandler e h cur tgt a = Inr a'"
  with FormatPhoneInput show ?thesis
    by (auto simp: runHandler_def formatPhoneInput_def keepsWiring_def sameShape_setters
          split: option.splits)
next
  case ToastHide
  assume "runHandler e h cur tgt a = Inr a'"
  with ToastHide show ?thesis by (auto simp: runHandler_def keepsWiring_hide)
next
  case ToggleFAQ
  assume "runHandler e h cur tgt a = Inr a'"
  with ToggleFAQ show ?thesis
    by (auto simp: runHandler_def keepsWiring_toggleFAQ split: target.splits)
next
  case ToggleMenu
  assume "runHandler e h cur tgt a = Inr a'"
  with ToggleMenu show ?thesis by (auto simp: runHandler_def keepsWiring_menu)
next
  case CloseMenu
  assume "runHandler e h cur tgt a = Inr a'"
  with CloseMenu show ?thesis by (auto simp: runHandler_def keepsWiring_menu)
next
  case DocumentClick
  assume "runHandler e h cur tgt a = Inr a'"
  with DocumentClick show ?thesis by (auto simp: runHandler_def keepsWiring_menu)
next
  case HandleScroll
  assume "runHandler e h cur tgt a = Inr a'"
  with HandleScroll show ?thesis by (auto simp: runHandler_def keepsWiring_cta)
next
  case HandleResize
  assume "runHandler e h cur tgt a = Inr a'"
  with HandleResize show ?thesis by (auto simp: runHandler_def keepsWiring_cta)
qed

lemma keepsWiring_runHandlers:
  "runHandlers e hs cur tgt a = Inr a' \<Longrightarrow> keepsWiring a a'"
proof (induction hs arbitrary: a)
  case Nil
  then show ?case by simp
next
  case (Cons h hs)
  then obtain b where b: "runHandler e h cur tgt a = Inr b" "runHandlers e hs cur tgt b = Inr a'"
    by (auto split: sum.splits)
  show ?case
    by (rule keepsWiring_trans[OF keepsWiring_runHandler[OF b(1)] Cons.IH[OF b(2)]])
qed

lemma keepsWiring_step: "step e i a = Inr a' \<Longrightarrow> keepsWiring a a'"
proof (cases i)
  case (Event cur ty tgt)
  assume "step e i a = Inr a'"
  with Event have "keepsWiring (a\<lparr>defaultPrevented := False\<rparr>) a'"
    by (simp add: step_def keepsWiring_runHandlers)
  then show ?thesis by (simp add: keepsWiring_def)
next
  case (Timer n)
  assume s: "step e i a = Inr a'"
  show ?thesis
  proof (cases "n < length (timers a)")
    case True
    with s Timer have "keepsWiring (a\<lparr>timers := take n (timers a) @ drop (Suc n) (timers a)\<rparr>) a'"
      by (simp add: step_def keepsWiring_runHandler)
    then show ?thesis by (simp add: keepsWiring_def)
  next
    case False
    with s Timer show ?thesis by (simp add: step_def)
  qed
qed

lemma keepsWiring_run: "run e inputs a = Inr a' \<Longrightarrow> keepsWiring a a'"
proof (induction inputs arbitrary: a)
  case Nil
  then show ?case by simp
next
  case (Cons i inputs)
  then obtain b where b: "step e i a = Inr b" "run e inputs b = Inr a'"
    by (auto split: sum.splits)
  show ?case
    by (rule keepsWiring_trans[OF keepsWiring_step[OF b(1)] Cons.IH[OF b(2)]])
qed

subsection \<open>Start-up establishes the wiring\<close>

lemma addEventListener_simps [simp]:
  "doc (addEventListener t ty h a) = doc a"
  "toastInstance (addEventListener t ty h a) = toastInstance a"
  "form (addEventListener t ty h a) = form a"
  "faqQuestions (addEventListener t ty h a) = faqQuestions a"
  "navToggle (addEventListener t ty h a) = navToggle a"
  "navMenu (addEventListener t ty h a) = navMenu a"
  "mobileCTA (addEventListener t ty h a) = mobileCTA a"
  by (simp_all add: addEventListener_def)

lemma keepsWiring_addEventListener: "keepsWiring a (addEventListener t ty h a)"
  by (simp add: keepsWiring_def)

lemma keepsWiring_fold_addEventListener:
  "keepsWiring a (fold (\<lambda>q. addEventListener (Elem q) ty h) qs a)"
  by (simp add: fold_addEventListener keepsWiring_def)

lemma keepsWiring_initializeForm: "keepsWiring x (initializeForm e x)"
proof (cases "form x")
  case None
  then show ?thesis by (simp add: initializeForm_def)
next
  case f: (Some f)
  have rt: "keepsWiring y (addRealTimeValidation y)" for y
    by (simp add: addRealTimeValidation_def Let_def keepsWiring_def split: option.splits)
  let ?b1 = "addEventListener (Elem f) ''submit'' HandleSubmit x"
  show ?thesis
  proof (cases "getElementById (doc x) ''preferredDate''")
    case None
    have "keepsWiring x (addRealTimeValidation ?b1)"
      by (rule keepsWiring_trans[OF keepsWiring_addEventListener rt])
    then show ?thesis using f None by (simp add: initializeForm_def Let_def)
  next
    case (Some k)
    let ?b2 = "?b1\<lparr>doc := setAttribute k ''min''
                     (takeWhile (\<lambda>c. c \<noteq> CHR ''T'') (toISOString e (now e))) (doc x)\<rparr>"
    have "keepsWiring x ?b2"
      by (simp add: keepsWiring_def sameShape_setters)
    then have "keepsWiring x (addRealTimeValidation ?b2)"
      by (rule keepsWiring_trans[OF _ rt])
    then show ?thesis using f Some by (simp add: initializeForm_def Let_def)
  qed
qed

lemma AppointmentForm_new_wiring:
  assumes "toastInstance a = None"
  shows "sameShape (doc a) (doc (AppointmentForm_new e a))"
    and "form (AppointmentForm_new e a) = getElementById (doc a) ''appointmentForm''"
    and "toastInstance (AppointmentForm_new e a) =
           Some \<lparr>toastElement = getElementById (doc a) ''toast'',
                 messageElement = getElementById (doc a) ''toastMessage'',
                 closeButton = getElementById (doc a) ''toastClose''\<rparr>"
    and "faqQuestions (AppointmentForm_new e a) = faqQuestions a"
    and "navToggle (AppointmentForm_new e a) = navToggle a"
    and "navMenu (AppointmentForm_new e a) = navMenu a"
    and "mobileCTA (AppointmentForm_new e a) = mobileCTA a"
proof -
  let ?a1 = "a\<lparr>form := getElementById (doc a) ''appointmentForm''\<rparr>"
  let ?a2 = "snd (ToastManager_getInstance ?a1)"
  have a2: "doc ?a2 = doc a" "form ?a2 = getElementById (doc a) ''appointmentForm''"
    "toastInstance ?a2 =
           Some \<lparr>toastElement = getElementById (doc a) ''toast'',
                 messageElement = getElementById (doc a) ''toastMessage'',
                 closeButton = getElementById (doc a) ''toastClose''\<rparr>"
    "faqQuestions ?a2 = faqQuestions a" "navToggle ?a2 = navToggle a" "navMenu ?a2 = navMenu a"
    "mobileCTA ?a2 = mobileCTA a"
    using assms
    by (simp_all add: ToastManager_getInstance_def ToastManager_new_def Let_def
          split: option.splits)
  have "keepsWiring ?a2 (initializeForm e ?a2)"
    by (rule keepsWiring_initializeForm)
  then have k: "keepsWiring ?a2 (AppointmentForm_new e a)"
    by (simp add: AppointmentForm_new_def Let_def)
  show "sameShape (doc a) (doc (AppointmentForm_new e a))"
    using k a2(1) by (simp add: keepsWiring_def)
  show "form (AppointmentForm_new e a) = getElementById (doc a) ''appointmentForm''"
    using k a2(2) by (simp add: keepsWiring_def)
  show "toastInstance (AppointmentForm_new e a) =
           Some \<lparr>toastElement = getElementById (doc a) ''toast'',
                 messageElement = getElementById (doc a) ''toastMessage'',
                 closeButton = getElementById (doc a) ''toastClose''\<rparr>"
    using k a2(3) by (simp add: keepsWiring_def)
  show "faqQuestions (AppointmentForm_new e a) = faqQuestions a"
    "navToggle (AppointmentForm_new e a) = navToggle a"
    "navMenu (AppointmentForm_new e a) = navMenu a"
    "mobileCTA (AppointmentForm_new e a) = mobileCTA a"
    using k a2(4-7) by (simp_all add: keepsWiring_def)
qed

lemma FAQAccordion_new_wiring:
  "FAQAccordion_new a =
     (a\<lparr>faqQuestions := querySelectorAll_class (doc a) ''faq-question''\<rparr>)
      \<lparr>listeners := listeners a @
         map (\<lambda>q. (Elem q, ''click'', ToggleFAQ)) (querySelectorAll_class (doc a) ''faq-question'')\<rparr>"
  by (simp add: FAQAccordion_new_def Let_def fold_addEventListener)

lemma MobileNavigation_new_wiring:
  "keepsWiring (a\<lparr>navToggle := getElementById (doc a) ''navToggle'',
                  navMenu := getElementById (doc a) ''navMenu''\<rparr>) (MobileNavigation_new a)"
proof -
  let ?a = "a\<lparr>navToggle := getElementById (doc a) ''navToggle'',
                  navMenu := getElementById (doc a) ''navMenu''\<rparr>"
  have "keepsWiring ?a (initializeMobileNav ?a)"
    unfolding initializeMobileNav_def Let_def
    by (auto split: option.splits
          intro!: keepsWiring_trans[OF _ keepsWiring_addEventListener]
                  keepsWiring_trans[OF _ keepsWiring_fold_addEventListener]
                  keepsWiring_addEventListener)
  then show ?thesis by (simp add: MobileNavigation_new_def)
qed

lemma MobileCTAController_new_wiring:
  "keepsWiring (a\<lparr>mobileCTA := getElementById (doc a) ''mobileCta''\<rparr>)
     (MobileCTAController_new a)"
proof -
  let ?a = "a\<lparr>mobileCTA := getElementById (doc a) ''mobileCta'', lastScrollY := 0\<rparr>"
  have "keepsWiring ?a (initializeCTAController ?a)"
  proof (cases "mobileCTA ?a")
    case None
    then show ?thesis by (simp add: initializeCTAController_def)
  next
    case (Some c)
    let ?b = "addEventListener Window ''resize'' HandleResize
               (addEventListener Window ''scroll'' HandleScroll ?a)"
    have "keepsWiring ?a ?b"
      by (simp add: keepsWiring_def)
    then have "keepsWiring ?a (handleResize ?b)"
      by (rule keepsWiring_trans[OF _ keepsWiring_cta(1)])
    then show ?thesis using Some by (simp add: initializeCTAController_def)
  qed
  moreover have "keepsWiring (a\<lparr>mobileCTA := getElementById (doc a) ''mobileCta''\<rparr>) ?a"
    by (simp add: keepsWiring_def)
  ultimately show ?thesis
    unfolding MobileCTAController_new_def by (rule keepsWiring_trans[rotated])
qed

lemma wired_setup: "wired (AayurcureApp_setup e d)"
proof -
  let ?a1 = "AppointmentForm_new e (initialApp d)"
  let ?a2 = "FAQAccordion_new ?a1"
  let ?a3 = "MobileNavigation_new ?a2"
  have t: "toastInstance (initialApp d) = None"
    by (simp add: initialApp_def)
  note f = AppointmentForm_new_wiring[OF t, of e]
  have d0: "doc (initialApp d) = d"
    by (simp add: initialApp_def)
  have q1: "getElementById (doc ?a1) i = getElementById d i" for i
    using sameShape_queries(1)[OF f(1)] by (simp add: d0)
  have w2: "wired (?a2\<lparr>navToggle := getElementById (doc ?a2) ''navToggle'',
                        navMenu := getElementById (doc ?a2) ''navMenu'',
                        mobileCTA := getElementById (doc ?a2) ''mobileCta''\<rparr>)"
    using f(2,3) by (simp add: wired_def FAQAccordion_new_wiring q1 d0)
  have k3: "keepsWiring (?a2\<lparr>navToggle := getElementById (doc ?a2) ''navToggle'',
                        navMenu := getElementById (doc ?a2) ''navMenu'',
                        mobileCTA := getElementById (doc ?a2) ''mobileCta''\<rparr>)
              (?a3\<lparr>mobileCTA := getElementById (doc ?a3) ''mobileCta''\<rparr>)"
    using MobileNavigation_new_wiring[of ?a2]
    by (simp add: keepsWiring_def sameShape_queries(1))
  have "keepsWiring (?a3\<lparr>mobileCTA := getElementById (doc ?a3) ''mobileCta''\<rparr>)
          (AayurcureApp_setup e d)"
    using MobileCTAController_new_wiring[of ?a3] by (simp add: AayurcureApp_setup_def)
  with k3 have "keepsWiring (?a2\<lparr>navToggle := getElementById (doc ?a2) ''navToggle'',
                        navMenu := getElementById (doc ?a2) ''navMenu'',
                        mobileCTA := getElementById (doc ?a2) ''mobileCta''\<rparr>)
                  (AayurcureApp_setup e d)"
    by (rule keepsWiring_trans)
  with w2 show ?thesis by (rule keepsWiring_wired)
qed

lemma reachable_wired:
  "run e inputs (AayurcureApp_setup e d) = Inr a \<Longrightarrow> wired a"
  using keepsWiring_wired[OF wired_setup keepsWiring_run] .

lemma wired_toast:
  "wired a \<Longrightarrow>
   \<exists>tm. toastInstance a = Some tm \<and> toastElement tm = getElementById (doc a) ''toast'' \<and>
        messageElement tm = getElementById (doc a) ''toastMessage''"
  by (simp add: wired_def)

lemma wired_accordion:
  "wired a \<Longrightarrow> faqQuestions a = querySelectorAll_class (doc a) ''faq-question''"
  by (simp add: wired_def)

end
